(* ===== verification/TS_Prelude.thy ===== *)
theory TS_Prelude
  imports Main "HOL-Library.Word" "HOL-Library.Finite_Map" "HOL-Library.List_Lexorder"
    "HOL-Library.Char_ord" "HOL-Library.Multiset"
begin

unbundle bit_operations_syntax

text \<open>
  The vocabulary every component of the development shares: Go's scalar types as they are used
  in the repository, the pieces of Go's standard library the modelled code calls (byte order,
  CRC-32C, strings), and generic lemmas on lists and finite maps.

  Strings are byte strings (\<^typ>\<open>string\<close>), compared bytewise as Go does.  White space and
  case folding are those of ASCII.  A \<^verbatim>\<open>time.Time\<close> is the number of nanoseconds since Go's zero
  time, so that \<^verbatim>\<open>IsZero\<close> is the test against 0; a \<^verbatim>\<open>time.Duration\<close> is a number of
  nanoseconds.  A Go map is a finite map, whose iteration order the code never depends on.
\<close>

section \<open>Scalar types\<close>

type_synonym byte = "8 word"
type_synonym gtime = int
type_synonym duration = int

definition second :: duration where "second = 1000000000"
definition minute :: duration where "minute = 60 * second"
definition hour :: duration where "hour = 60 * minute"

definition IsZero :: "gtime \<Rightarrow> bool" where "IsZero t \<longleftrightarrow> t = 0"

named_theorems time_defs
lemmas [time_defs] = second_def minute_def hour_def IsZero_def

section \<open>Little-endian 32-bit integers (encoding/binary)\<close>

definition PutUint32 :: "32 word \<Rightarrow> byte list" where
  "PutUint32 w = [ucast w, ucast (drop_bit 8 w), ucast (drop_bit 16 w), ucast (drop_bit 24 w)]"

fun Uint32 :: "byte list \<Rightarrow> 32 word" where
  "Uint32 (a # b # c # d # _) =
     ucast a OR push_bit 8 (ucast b) OR push_bit 16 (ucast c) OR push_bit 24 (ucast d)"
| "Uint32 _ = 0"

lemma length_PutUint32 [simp]: "length (PutUint32 w) = 4"
  by (simp add: PutUint32_def)

lemma Uint32_PutUint32: "Uint32 (PutUint32 w @ rest) = w"
proof (rule bit_word_eqI)
  fix n assume "n < LENGTH(32)"
  then consider "n < 8" | "8 \<le> n" "n < 16" | "16 \<le> n" "n < 24" | "24 \<le> n" "n < 32"
    by fastforce
  then show "bit (Uint32 (PutUint32 w @ rest)) n = bit w n"
    by cases
      (simp_all add: PutUint32_def bit_or_iff bit_push_bit_iff bit_ucast_iff bit_drop_bit_eq, arith+)
qed

section \<open>CRC-32C (hash/crc32, Castagnoli polynomial, reflected)\<close>

definition crc_shift :: "32 word \<Rightarrow> 32 word" where
  "crc_shift c = (if bit c 0 then drop_bit 1 c XOR 0x82F63B78 else drop_bit 1 c)"

definition crc_byte :: "32 word \<Rightarrow> byte \<Rightarrow> 32 word" where
  "crc_byte c b =
     (let c0 = c XOR ucast b in
      crc_shift (crc_shift (crc_shift (crc_shift
        (crc_shift (crc_shift (crc_shift (crc_shift c0))))))))"

definition crc32c :: "byte list \<Rightarrow> 32 word" where
  "crc32c bs = NOT (foldl crc_byte 0xFFFFFFFF bs)"

section \<open>Strings\<close>

definition is_space :: "char \<Rightarrow> bool" where
  "is_space c \<longleftrightarrow> (let n = (of_char c :: nat) in n = 32 \<or> (9 \<le> n \<and> n \<le> 13))"

definition TrimSpace :: "string \<Rightarrow> string" where
  "TrimSpace s = rev (dropWhile is_space (rev (dropWhile is_space s)))"

definition lower_char :: "char \<Rightarrow> char" where
  "lower_char c = (let n = (of_char c :: nat) in if 65 \<le> n \<and> n \<le> 90 then char_of (n + 32) else c)"

definition ToLower :: "string \<Rightarrow> string" where
  "ToLower s = map lower_char s"

fun HasPrefix :: "string \<Rightarrow> string \<Rightarrow> bool" where
  "HasPrefix s [] = True"
| "HasPrefix [] (p # ps) = False"
| "HasPrefix (c # cs) (p # ps) = (c = p \<and> HasPrefix cs ps)"

fun Contains :: "string \<Rightarrow> string \<Rightarrow> bool" where
  "Contains [] p = (p = [])"
| "Contains (c # cs) p = (HasPrefix (c # cs) p \<or> Contains cs p)"

definition EqualFold :: "string \<Rightarrow> string \<Rightarrow> bool" where
  "EqualFold a b \<longleftrightarrow> ToLower a = ToLower b"

text \<open>Decimal rendering, as \<^verbatim>\<open>fmt\<close> prints an integer with \<^verbatim>\<open>%d\<close>.\<close>

fun digits_nat :: "nat \<Rightarrow> string" where
  "digits_nat n = (if n < 10 then [char_of (48 + n)] else digits_nat (n div 10) @ [char_of (48 + n mod 10)])"

declare digits_nat.simps [simp del]

definition Itoa :: "int \<Rightarrow> string" where
  "Itoa i = (if i < 0 then CHR ''-'' # digits_nat (nat (- i)) else digits_nat (nat i))"

lemma HasPrefix_iff: "HasPrefix s p \<longleftrightarrow> (\<exists>t. s = p @ t)"
  by (induction s p rule: HasPrefix.induct) auto

lemma Contains_iff: "Contains s p \<longleftrightarrow> (\<exists>a b. s = a @ p @ b)"
proof (induction s p rule: Contains.induct)
  case (1 p) then show ?case by auto
next
  case (2 c cs p)
  show ?case
  proof
    assume "Contains (c # cs) p"
    then consider "HasPrefix (c # cs) p" | "Contains cs p" by auto
    then show "\<exists>a b. c # cs = a @ p @ b"
    proof cases
      case 1
      then obtain t where "c # cs = [] @ p @ t" by (auto simp: HasPrefix_iff)
      then show ?thesis by blast
    next
      case 2
      then obtain a b where "cs = a @ p @ b" using "2.IH" by blast
      then have "c # cs = (c # a) @ p @ b" by simp
      then show ?thesis by blast
    qed
  next
    assume "\<exists>a b. c # cs = a @ p @ b"
    then obtain a b where ab: "c # cs = a @ p @ b" by blast
    show "Contains (c # cs) p"
    proof (cases a)
      case Nil
      with ab have "HasPrefix (c # cs) p" by (auto simp: HasPrefix_iff)
      then show ?thesis by simp
    next
      case (Cons x xs)
      with ab have "cs = xs @ p @ b" by simp
      then have "Contains cs p" using "2.IH" by blast
      then show ?thesis by simp
    qed
  qed
qed

lemma TrimSpace_Nil [simp]: "TrimSpace [] = []"
  by (simp add: TrimSpace_def)

lemma dropWhile_hd: "dropWhile P xs \<noteq> [] \<Longrightarrow> \<not> P (hd (dropWhile P xs))"
  by (induction xs) auto

lemma dropWhile_id: "xs = [] \<or> \<not> P (hd xs) \<Longrightarrow> dropWhile P xs = xs"
  by (cases xs) auto

lemma TrimSpace_idem [simp]: "TrimSpace (TrimSpace s) = TrimSpace s"
proof -
  define a where "a = dropWhile is_space s"
  define b where "b = dropWhile is_space (rev a)"
  have t: "TrimSpace s = rev b" by (simp add: TrimSpace_def a_def b_def)
  have hb: "b = [] \<or> \<not> is_space (hd b)" unfolding b_def using dropWhile_hd by blast
  have ha: "a = [] \<or> \<not> is_space (hd a)" unfolding a_def using dropWhile_hd by blast
  obtain c where c: "rev a = c @ b" unfolding b_def using takeWhile_dropWhile_id by metis
  then have "a = rev b @ rev c" by (metis rev_append rev_rev_ident)
  then have "rev b = [] \<or> \<not> is_space (hd (rev b))" using ha by (cases "rev b") auto
  then have "dropWhile is_space (rev b) = rev b" by (rule dropWhile_id)
  then have "TrimSpace (rev b) = rev b" using hb by (simp add: TrimSpace_def dropWhile_id)
  then show ?thesis by (simp only: t)
qed

lemma of_char_lower: "is_space (lower_char c) = is_space c" "lower_char (lower_char c) = lower_char c"
proof -
  have n: "(of_char c :: nat) < 256" by simp
  show "is_space (lower_char c) = is_space c"
    using n by (auto simp: lower_char_def is_space_def Let_def)
  show "lower_char (lower_char c) = lower_char c"
    using n by (auto simp: lower_char_def Let_def)
qed

lemma ToLower_idem [simp]: "ToLower (ToLower s) = ToLower s"
  by (simp add: ToLower_def of_char_lower comp_def)

text \<open>\<^verbatim>\<open>strings.Join\<close>.\<close>

fun Join :: "string \<Rightarrow> string list \<Rightarrow> string" where
  "Join sep [] = []"
| "Join sep [x] = x"
| "Join sep (x # xs) = x @ sep @ Join sep xs"

lemma Join_Cons: "xs \<noteq> [] \<Longrightarrow> Join sep (x # xs) = x @ sep @ Join sep xs"
  by (cases xs) auto

lemma Join_chars:
  assumes "list_all (list_all P) xs" "list_all P sep"
  shows "list_all P (Join sep xs)"
  using assms by (induction sep xs rule: Join.induct) auto

section \<open>Lists\<close>

lemma take_drop_append_exact:
  "take (length b) (drop (length a) (a @ b @ c)) = b"
  by simp

lemma concat_map_snoc: "concat (map f (xs @ [x])) = concat (map f xs) @ f x"
  by simp

section \<open>Finite maps\<close>

text \<open>The keys of a map, in order.\<close>

definition sorted_keys :: "(string, 'v) fmap \<Rightarrow> string list" where
  "sorted_keys m = sorted_list_of_fset (fmdom m)"

lemma set_sorted_keys [simp]: "set (sorted_keys m) = fset (fmdom m)"
  by (simp add: sorted_keys_def sorted_list_of_fset.rep_eq)

lemma distinct_sorted_keys [simp]: "distinct (sorted_keys m)"
  by (simp add: sorted_keys_def sorted_list_of_fset.rep_eq)

section \<open>Systems of steps\<close>

text \<open>
  A component whose operations interleave is a relation between its states.  The contract an
  invariant has to meet, and what it then gives, is stated once here; every such component of the
  development interprets it on its own step relation.
\<close>

inductive reach :: "('s \<Rightarrow> bool) \<Rightarrow> ('s \<Rightarrow> 's \<Rightarrow> bool) \<Rightarrow> 's \<Rightarrow> bool"
  for init :: "'s \<Rightarrow> bool" and step :: "'s \<Rightarrow> 's \<Rightarrow> bool" where
  reach_init: "init s \<Longrightarrow> reach init step s"
| reach_step: "reach init step s \<Longrightarrow> step s t \<Longrightarrow> reach init step t"

locale invariant_system =
  fixes init :: "'s \<Rightarrow> bool" and step :: "'s \<Rightarrow> 's \<Rightarrow> bool" and inv :: "'s \<Rightarrow> bool"
  assumes init_inv: "init s \<Longrightarrow> inv s"
    and step_inv: "inv s \<Longrightarrow> step s t \<Longrightarrow> inv t"
begin

lemma reach_inv: "reach init step s \<Longrightarrow> inv s"
  by (induction rule: reach.induct) (auto intro: init_inv step_inv)

lemma steps_inv: "step\<^sup>*\<^sup>* s t \<Longrightarrow> inv s \<Longrightarrow> inv t"
  by (induction rule: rtranclp_induct) (auto intro: step_inv)

end

lemma fold_fmdrop_lookup: "fmlookup (fold fmdrop ks m) x = (if x \<in> set ks then None else fmlookup m x)"
  by (induction ks arbitrary: m) auto

text \<open>The values of a map, in the order of its keys.\<close>

definition map_values :: "(string, 'v) fmap \<Rightarrow> 'v list" where
  "map_values m = map (\<lambda>k. the (fmlookup m k)) (sorted_keys m)"

lemma set_map_values: "v \<in> set (map_values m) \<longleftrightarrow> (\<exists>k. fmlookup m k = Some v)"
  by (force simp: map_values_def fmlookup_dom_iff image_iff)

lemma map_values_empty [simp]: "map_values fmempty = []"
  by (simp add: map_values_def sorted_keys_def sorted_list_of_fset.rep_eq)

lemma map_values_single [simp]: "map_values (fmupd k v fmempty) = [v]"
  by (simp add: map_values_def sorted_keys_def sorted_list_of_fset.rep_eq)

end
