(* ===== verification/Go_JSON.thy ===== *)
theory Go_JSON
  imports TS_Prelude
begin

text \<open>
  The part of Go's \<^verbatim>\<open>encoding/json\<close> the journal relies on: a value type, the compact text
  \<^verbatim>\<open>json.Marshal\<close> writes for it, the parser behind \<^verbatim>\<open>json.Unmarshal\<close>, and the round trip
  between them.  Bytes from 128 up pass through a string unchanged in both directions, which is
  what the package does for valid UTF-8 other than U+2028 and U+2029.  A number keeps its literal.
\<close>

section \<open>Values and their text\<close>

datatype json =
    JNull
  | JBool bool
  | JNum string
  | JStr string
  | JArr "json list"
  | JObj "(string \<times> json) list"

definition hexdig :: "nat \<Rightarrow> char" where
  "hexdig n = (if n < 10 then char_of (48 + n) else char_of (87 + n))"

definition esc_char :: "char \<Rightarrow> string" where
  "esc_char c =
     (if c = CHR 0x22 then [CHR 0x5C, CHR 0x22]
      else if c = CHR 0x5C then [CHR 0x5C, CHR 0x5C]
      else if c = CHR 0x08 then [CHR 0x5C, CHR ''b'']
      else if c = CHR 0x0C then [CHR 0x5C, CHR ''f'']
      else if c = CHR 0x0A then [CHR 0x5C, CHR ''n'']
      else if c = CHR 0x0D then [CHR 0x5C, CHR ''r'']
      else if c = CHR 0x09 then [CHR 0x5C, CHR ''t'']
      else let n = (of_char c :: nat) in
        if n < 32 \<or> c = CHR ''<'' \<or> c = CHR ''>'' \<or> c = CHR ''&''
        then [CHR 0x5C, CHR ''u'', CHR ''0'', CHR ''0'', hexdig (n div 16), hexdig (n mod 16)]
        else [c])"

definition esc_str :: "string \<Rightarrow> string" where
  "esc_str s = CHR 0x22 # concat (map esc_char s) @ [CHR 0x22]"

fun print_json :: "json \<Rightarrow> string"
and print_elems :: "json list \<Rightarrow> string"
and print_members :: "(string \<times> json) list \<Rightarrow> string" where
  "print_json JNull = ''null''"
| "print_json (JBool b) = (if b then ''true'' else ''false'')"
| "print_json (JNum l) = l"
| "print_json (JStr s) = esc_str s"
| "print_json (JArr vs) = CHR ''['' # print_elems vs"
| "print_json (JObj kvs) = CHR ''{'' # print_members kvs"
| "print_elems [] = [CHR '']'']"
| "print_elems [v] = print_json v @ [CHR '']'']"
| "print_elems (v # vs) = print_json v @ CHR '','' # print_elems vs"
| "print_members [] = [CHR ''}'']"
| "print_members [(k, v)] = esc_str k @ CHR '':'' # print_json v @ [CHR ''}'']"
| "print_members ((k, v) # kvs) = esc_str k @ CHR '':'' # print_json v @ CHR '','' # print_members kvs"

section \<open>Numbers\<close>

definition is_digit :: "char \<Rightarrow> bool" where
  "is_digit c \<longleftrightarrow> (let n = (of_char c :: nat) in 48 \<le> n \<and> n \<le> 57)"

definition is_numch :: "char \<Rightarrow> bool" where
  "is_numch c \<longleftrightarrow> is_digit c \<or> c = CHR ''-'' \<or> c = CHR ''+'' \<or> c = CHR ''.'' \<or> c = CHR ''e'' \<or> c = CHR ''E''"

text \<open>The JSON number grammar: sign, integer part, fraction, exponent.\<close>

definition exp_ok :: "string \<Rightarrow> bool" where
  "exp_ok s =
     (case s of
        [] \<Rightarrow> True
      | c # r \<Rightarrow> (c = CHR ''e'' \<or> c = CHR ''E'') \<and>
          (let r' = (case r of d # ds \<Rightarrow> if d = CHR ''+'' \<or> d = CHR ''-'' then ds else r | [] \<Rightarrow> r)
           in r' \<noteq> [] \<and> list_all is_digit r'))"

definition frac_ok :: "string \<Rightarrow> bool" where
  "frac_ok s =
     (case s of
        [] \<Rightarrow> True
      | c # r \<Rightarrow>
          if c = CHR ''.''
          then takeWhile is_digit r \<noteq> [] \<and> exp_ok (dropWhile is_digit r)
          else exp_ok s)"

definition unsigned_ok :: "string \<Rightarrow> bool" where
  "unsigned_ok s =
     (case s of
        [] \<Rightarrow> False
      | c # r \<Rightarrow>
          if c = CHR ''0'' then frac_ok r
          else is_digit c \<and> frac_ok (dropWhile is_digit r))"

definition num_ok :: "string \<Rightarrow> bool" where
  "num_ok s = (case s of [] \<Rightarrow> False | c # r \<Rightarrow> if c = CHR ''-'' then unsigned_ok r else unsigned_ok s)"

section \<open>Parsing\<close>

definition hexval :: "char \<Rightarrow> nat option" where
  "hexval c =
     (let n = (of_char c :: nat) in
      if 48 \<le> n \<and> n \<le> 57 then Some (n - 48)
      else if 97 \<le> n \<and> n \<le> 102 then Some (n - 87)
      else if 65 \<le> n \<and> n \<le> 70 then Some (n - 55) else None)"

definition hex4 :: "char \<Rightarrow> char \<Rightarrow> char \<Rightarrow> char \<Rightarrow> nat option" where
  "hex4 a b c d =
     (case (hexval a, hexval b, hexval c, hexval d) of
        (Some w, Some x, Some y, Some z) \<Rightarrow> Some (4096 * w + 256 * x + 16 * y + z)
      | _ \<Rightarrow> None)"

text \<open>UTF-8 of a code point of the basic plane; a surrogate half is the replacement character.\<close>

definition utf8 :: "nat \<Rightarrow> string" where
  "utf8 n =
     (let m = (if 0xD800 \<le> n \<and> n \<le> 0xDFFF then 0xFFFD else n) in
      if m < 128 then [char_of m]
      else if m < 2048 then [char_of (192 + m div 64), char_of (128 + m mod 64)]
      else [char_of (224 + m div 4096), char_of (128 + m div 64 mod 64), char_of (128 + m mod 64)])"

fun unesc :: "char \<Rightarrow> char option" where
  "unesc c =
     (if c = CHR 0x22 \<or> c = CHR 0x5C \<or> c = CHR ''/'' then Some c
      else if c = CHR ''b'' then Some (CHR 0x08)
      else if c = CHR ''f'' then Some (CHR 0x0C)
      else if c = CHR ''n'' then Some (CHR 0x0A)
      else if c = CHR ''r'' then Some (CHR 0x0D)
      else if c = CHR ''t'' then Some (CHR 0x09)
      else None)"

text \<open>The body of a string literal, after its opening quote.\<close>

function parse_str :: "string \<Rightarrow> (string \<times> string) option" where
  "parse_str s =
     (case s of
        [] \<Rightarrow> None
      | c # r \<Rightarrow>
          if c = CHR 0x22 then Some ([], r)
          else if (of_char c :: nat) < 32 then None
          else if c = CHR 0x5C then
            (case r of
               [] \<Rightarrow> None
             | e # r' \<Rightarrow>
                 if e = CHR ''u'' then
                   (if length r' < 4 then None
                    else case hex4 (r' ! 0) (r' ! 1) (r' ! 2) (r' ! 3) of
                        None \<Rightarrow> None
                      | Some n \<Rightarrow> map_option (\<lambda>(t, q). (utf8 n @ t, q)) (parse_str (drop 4 r')))
                 else case unesc e of
                     None \<Rightarrow> None
                   | Some d \<Rightarrow> map_option (\<lambda>(t, q). (d # t, q)) (parse_str r'))
          else map_option (\<lambda>(t, q). (c # t, q)) (parse_str r))"
  by pat_completeness auto
termination by (relation "measure length") auto

declare parse_str.simps [simp del]

definition is_ws :: "char \<Rightarrow> bool" where
  "is_ws c \<longleftrightarrow> c = CHR 0x20 \<or> c = CHR 0x09 \<or> c = CHR 0x0A \<or> c = CHR 0x0D"

definition skip_ws :: "string \<Rightarrow> string" where
  "skip_ws s = dropWhile is_ws s"

definition expect :: "string \<Rightarrow> 'a \<Rightarrow> string \<Rightarrow> ('a \<times> string) option" where
  "expect w v s = (if HasPrefix s w then Some (v, drop (length w) s) else None)"

text \<open>Recursive descent; the first argument bounds the number of nested calls.\<close>

fun parse_val :: "nat \<Rightarrow> string \<Rightarrow> (json \<times> string) option"
and parse_elems :: "nat \<Rightarrow> string \<Rightarrow> (json list \<times> string) option"
and parse_members :: "nat \<Rightarrow> string \<Rightarrow> ((string \<times> json) list \<times> string) option" where
  "parse_val 0 s = None"
| "parse_val (Suc n) s =
     (case skip_ws s of
        [] \<Rightarrow> None
      | c # r \<Rightarrow>
          if c = CHR ''n'' then expect ''null'' JNull (c # r)
          else if c = CHR ''t'' then expect ''true'' (JBool True) (c # r)
          else if c = CHR ''f'' then expect ''false'' (JBool False) (c # r)
          else if c = CHR 0x22 then map_option (\<lambda>(t, q). (JStr t, q)) (parse_str r)
          else if c = CHR ''['' then
            (case skip_ws r of
               [] \<Rightarrow> None
             | d # q \<Rightarrow> if d = CHR '']'' then Some (JArr [], q)
                 else map_option (\<lambda>(vs, q). (JArr vs, q)) (parse_elems n (d # q)))
          else if c = CHR ''{'' then
            (case skip_ws r of
               [] \<Rightarrow> None
             | d # q \<Rightarrow> if d = CHR ''}'' then Some (JObj [], q)
                 else map_option (\<lambda>(kvs, q). (JObj kvs, q)) (parse_members n (d # q)))
          else (let l = takeWhile is_numch (c # r) in
                if num_ok l then Some (JNum l, dropWhile is_numch (c # r)) else None))"
| "parse_elems 0 s = None"
| "parse_elems (Suc n) s =
     (case parse_val n s of
        None \<Rightarrow> None
      | Some (v, q) \<Rightarrow>
          (case skip_ws q of
             [] \<Rightarrow> None
           | c # q' \<Rightarrow>
               if c = CHR '','' then map_option (\<lambda>(vs, q). (v # vs, q)) (parse_elems n q')
               else if c = CHR '']'' then Some ([v], q')
               else None))"
| "parse_members 0 s = None"
| "parse_members (Suc n) s =
     (case skip_ws s of
        [] \<Rightarrow> None
      | c # r \<Rightarrow>
          if c \<noteq> CHR 0x22 then None
          else case parse_str r of
              None \<Rightarrow> None
            | Some (k, q) \<Rightarrow>
                (case skip_ws q of
                   [] \<Rightarrow> None
                 | d # q1 \<Rightarrow>
                     if d \<noteq> CHR '':'' then None
                     else case parse_val n q1 of
                         None \<Rightarrow> None
                       | Some (v, q2) \<Rightarrow>
                           (case skip_ws q2 of
                              [] \<Rightarrow> None
                            | e # q3 \<Rightarrow>
                                if e = CHR '','' then
                                  map_option (\<lambda>(kvs, q). ((k, v) # kvs, q)) (parse_members n q3)
                                else if e = CHR ''}'' then Some ([(k, v)], q3)
                                else None)))"

definition parse_json :: "string \<Rightarrow> json option" where
  "parse_json s =
     (case parse_val (Suc (length s)) s of
        None \<Rightarrow> None
      | Some (v, q) \<Rightarrow> if skip_ws q = [] then Some v else None)"

text \<open>The values \<^verbatim>\<open>json.Marshal\<close> can emit: every number literal is one.\<close>

fun wf_json :: "json \<Rightarrow> bool" where
  "wf_json (JNum l) = num_ok l"
| "wf_json (JArr vs) = list_all wf_json vs"
| "wf_json (JObj kvs) = list_all (\<lambda>(k, v). wf_json v) kvs"
| "wf_json _ = True"


section \<open>Round trip\<close>

lemma digits_nat_digits: "list_all is_digit (digits_nat n)"
proof (induction n rule: digits_nat.induct)
  case (1 n)
  have d: "m < 10 \<Longrightarrow> is_digit (char_of (48 + m))" for m :: nat by (simp add: is_digit_def Let_def)
  show ?case using "1" d [of n] d [of "n mod 10"]
    by (subst digits_nat.simps) (simp split: if_splits)
qed

lemma digits_nat_ne: "digits_nat n \<noteq> []"
  by (subst digits_nat.simps) simp

lemma hexval_hexdig: "n < 16 \<Longrightarrow> hexval (hexdig n) = Some n"
  by (auto simp: hexval_def hexdig_def Let_def)

lemma hex4_ctrl:
  "(n :: nat) < 256 \<Longrightarrow> hex4 (CHR ''0'') (CHR ''0'') (hexdig (n div 16)) (hexdig (n mod 16)) = Some n"
proof -
  assume n: "n < 256"
  then have "n div 16 < 16" "n mod 16 < 16" by auto
  moreover have "hexval (CHR ''0'') = Some 0" by (simp add: hexval_def)
  ultimately show ?thesis by (simp add: hex4_def hexval_hexdig)
qed

lemma utf8_ascii: "(of_char c :: nat) < 128 \<Longrightarrow> utf8 (of_char c) = [c]"
  by (simp add: utf8_def Let_def)

lemma parse_str_quote [simp]: "parse_str (CHR 0x22 # r) = Some ([], r)"
  by (simp add: parse_str.simps)

lemma parse_str_plain:
  assumes "c \<noteq> CHR 0x22" "c \<noteq> CHR 0x5C" "\<not> (of_char c :: nat) < 32"
  shows "parse_str (c # r) = map_option (\<lambda>(t, q). (c # t, q)) (parse_str r)"
  using assms by (subst parse_str.simps) simp

lemma parse_str_short:
  assumes "unesc e = Some d"
  shows "parse_str (CHR 0x5C # e # r) = map_option (\<lambda>(t, q). (d # t, q)) (parse_str r)"
  using assms by (subst parse_str.simps) (auto split: if_splits)

lemma parse_str_ctrl:
  assumes "(of_char c :: nat) < 128"
  shows "parse_str (CHR 0x5C # CHR ''u'' # CHR ''0'' # CHR ''0'' #
           hexdig (of_char c div 16) # hexdig (of_char c mod 16) # r) =
         map_option (\<lambda>(t, q). (c # t, q)) (parse_str r)"
proof -
  have "(of_char c :: nat) < 256" using assms by simp
  from hex4_ctrl [OF this] utf8_ascii [OF assms] show ?thesis
    by (subst parse_str.simps) simp
qed

lemma parse_str_esc_char:
  "parse_str (esc_char c @ r) = map_option (\<lambda>(t, q). (c # t, q)) (parse_str r)"
proof -
  consider "c = CHR 0x22" | "c = CHR 0x5C" | "c = CHR 0x08" | "c = CHR 0x0C" | "c = CHR 0x0A"
    | "c = CHR 0x0D" | "c = CHR 0x09"
    | "c \<notin> {CHR 0x22, CHR 0x5C, CHR 0x08, CHR 0x0C, CHR 0x0A, CHR 0x0D, CHR 0x09}"
    by blast
  then show ?thesis
  proof cases
    case 8
    show ?thesis
    proof (cases "(of_char c :: nat) < 32 \<or> c = CHR ''<'' \<or> c = CHR ''>'' \<or> c = CHR ''&''")
      case True
      then have "(of_char c :: nat) < 128" by auto
      from parse_str_ctrl [OF this] 8 True show ?thesis
        by (simp add: esc_char_def Let_def)
    next
      case False
      with 8 show ?thesis
        by (simp add: esc_char_def Let_def parse_str_plain)
    qed
  qed (simp_all add: esc_char_def parse_str_short)
qed

lemma parse_str_esc:
  "parse_str (concat (map esc_char s) @ CHR 0x22 # r) = Some (s, r)"
  by (induction s) (simp_all add: parse_str_esc_char)

lemma digit_numch: "is_digit c \<Longrightarrow> is_numch c"
  by (simp add: is_numch_def)

lemma exp_ok_numch: "exp_ok s \<Longrightarrow> list_all is_numch s"
  by (auto simp: exp_ok_def is_numch_def list_all_iff Let_def split: list.splits if_splits)

lemma takeWhile_digit_numch: "list_all is_numch (takeWhile is_digit s)"
  by (auto simp: list_all_iff digit_numch dest: set_takeWhileD)

lemma dropWhile_digit_numch: "list_all is_numch (dropWhile is_digit s) \<Longrightarrow> list_all is_numch s"
  by (metis list_all_append takeWhile_digit_numch takeWhile_dropWhile_id)

lemma frac_ok_numch: "frac_ok s \<Longrightarrow> list_all is_numch s"
  by (cases s) (auto simp: frac_ok_def is_numch_def dest!: exp_ok_numch dropWhile_digit_numch split: if_splits)

lemma unsigned_ok_numch: "unsigned_ok s \<Longrightarrow> list_all is_numch s"
  by (cases s) (auto simp: unsigned_ok_def is_numch_def is_digit_def dest!: frac_ok_numch dropWhile_digit_numch split: if_splits)

lemma num_ok_numch: "num_ok s \<Longrightarrow> list_all is_numch s"
  by (cases s) (auto simp: num_ok_def is_numch_def dest!: unsigned_ok_numch split: if_splits)

lemma num_ok_hd:
  assumes "num_ok s"
  obtains c r where "s = c # r" "c = CHR ''-'' \<or> is_digit c"
  using assms by (cases s) (auto simp: num_ok_def unsigned_ok_def is_digit_def split: if_splits)

definition num_stop :: "string \<Rightarrow> bool" where
  "num_stop s = (case s of [] \<Rightarrow> True | c # _ \<Rightarrow> \<not> is_numch c)"

lemma num_stop_simps [simp]:
  "num_stop []" "num_stop (CHR '','' # r)" "num_stop (CHR '']'' # r)" "num_stop (CHR ''}'' # r)"
  by (simp_all add: num_stop_def is_numch_def is_digit_def)

lemma span_numch:
  assumes "list_all is_numch l" "num_stop r"
  shows "takeWhile is_numch (l @ r) = l" "dropWhile is_numch (l @ r) = r"
proof -
  have "takeWhile is_numch r = [] \<and> dropWhile is_numch r = r"
    using assms(2) by (cases r) (auto simp: num_stop_def)
  moreover have "takeWhile is_numch (l @ r) = l @ takeWhile is_numch r"
    "dropWhile is_numch (l @ r) = dropWhile is_numch r"
    using assms(1) by (simp_all add: list_all_iff takeWhile_append2 dropWhile_append2)
  ultimately show "takeWhile is_numch (l @ r) = l" "dropWhile is_numch (l @ r) = r" by simp_all
qed

text \<open>The first character of a value's text tells it from a closing bracket.\<close>

lemma print_json_hd:
  assumes "wf_json v"
  obtains c r where "print_json v = c # r" "\<not> is_ws c" "c \<noteq> CHR '']''" "c \<noteq> CHR ''}''"
proof (cases v)
  case (JNum l)
  with assms have "num_ok l" by simp
  then obtain c r where "l = c # r" "c = CHR ''-'' \<or> is_digit c" by (rule num_ok_hd)
  with JNum show ?thesis
    by (intro that [of c r]) (auto simp: is_ws_def is_digit_def)
next
  case (JBool b)
  then show ?thesis by (cases b) (auto simp: is_ws_def intro: that)
qed (auto simp: is_ws_def esc_str_def intro: that split: if_splits)

lemma skip_ws_nws [simp]: "\<not> is_ws c \<Longrightarrow> skip_ws (c # r) = c # r"
  by (simp add: skip_ws_def)

lemma ws_simps [simp]:
  "\<not> is_ws (CHR '','')" "\<not> is_ws (CHR '':'')" "\<not> is_ws (CHR '']'')" "\<not> is_ws (CHR ''}'')"
  "\<not> is_ws (CHR ''['')" "\<not> is_ws (CHR ''{'')" "\<not> is_ws (CHR 0x22)" "\<not> is_ws (CHR ''n'')"
  "\<not> is_ws (CHR ''t'')" "\<not> is_ws (CHR ''f'')"
  by (simp_all add: is_ws_def)

lemma expect_exact: "expect w v (w @ r) = Some (v, r)"
  by (simp add: expect_def HasPrefix_iff)

lemma parse_val_lit:
  "parse_val (Suc n) (''null'' @ r) = Some (JNull, r)"
  "parse_val (Suc n) (''true'' @ r) = Some (JBool True, r)"
  "parse_val (Suc n) (''false'' @ r) = Some (JBool False, r)"
  using expect_exact [of "''null''" JNull r] expect_exact [of "''true''" "JBool True" r]
    expect_exact [of "''false''" "JBool False" r]
  by simp_all

lemma parse_val_num:
  assumes "num_ok l" "num_stop r"
  shows "parse_val (Suc n) (l @ r) = Some (JNum l, r)"
proof -
  obtain c q where l: "l = c # q" and c: "c = CHR ''-'' \<or> is_digit c"
    using assms(1) by (rule num_ok_hd)
  then have "\<not> is_ws c" and k: "c \<noteq> CHR ''n''" "c \<noteq> CHR ''t''" "c \<noteq> CHR ''f''" "c \<noteq> CHR 0x22"
    "c \<noteq> CHR ''[''" "c \<noteq> CHR ''{''"
    by (auto simp: is_ws_def is_digit_def)
  then have "skip_ws (l @ r) = c # (q @ r)" using l by simp
  moreover have "takeWhile is_numch (c # (q @ r)) = l" "dropWhile is_numch (c # (q @ r)) = r"
    using span_numch [OF num_ok_numch [OF assms(1)] assms(2)] l by simp_all
  ultimately show ?thesis using k assms(1) by simp
qed

lemma parse_val_str: "parse_val (Suc n) (esc_str s @ r) = Some (JStr s, r)"
  by (simp add: esc_str_def parse_str_esc)

lemma parse_members_key:
  "parse_members (Suc n) (esc_str k @ CHR '':'' # q) =
     (case parse_val n q of
        None \<Rightarrow> None
      | Some (v, q2) \<Rightarrow>
          (case skip_ws q2 of
             [] \<Rightarrow> None
           | e # q3 \<Rightarrow>
               if e = CHR '','' then map_option (\<lambda>(kvs, q). ((k, v) # kvs, q)) (parse_members n q3)
               else if e = CHR ''}'' then Some ([(k, v)], q3)
               else None))"
  by (simp add: esc_str_def parse_str_esc)

lemma print_elems_hd:
  assumes "vs \<noteq> []" "list_all wf_json vs"
  obtains c r where "print_elems vs = c # r" "\<not> is_ws c" "c \<noteq> CHR '']''"
proof -
  obtain v vs' where vs: "vs = v # vs'" using assms(1) by (cases vs) auto
  then have "wf_json v" using assms(2) by simp
  then obtain c r where "print_json v = c # r" "\<not> is_ws c" "c \<noteq> CHR '']''" by (rule print_json_hd)
  with vs show ?thesis by (cases vs') (auto intro: that)
qed

lemma print_members_hd:
  assumes "kvs \<noteq> []"
  obtains r where "print_members kvs = CHR 0x22 # r"
  using assms by (cases kvs rule: remdups_adj.cases) (auto simp: esc_str_def intro: that)

lemma parse_print_all:
  "wf_json v \<Longrightarrow> (\<And>n r. num_stop r \<Longrightarrow> length (print_json v) < n \<Longrightarrow>
      parse_val n (print_json v @ r) = Some (v, r))"
  "list_all wf_json vs \<Longrightarrow> vs \<noteq> [] \<Longrightarrow> (\<And>n r. length (print_elems vs) < n \<Longrightarrow>
      parse_elems n (print_elems vs @ r) = Some (vs, r))"
  "list_all (\<lambda>(k, v). wf_json v) kvs \<Longrightarrow> kvs \<noteq> [] \<Longrightarrow> (\<And>n r. length (print_members kvs) < n \<Longrightarrow>
      parse_members n (print_members kvs @ r) = Some (kvs, r))"
proof (induction v and vs and kvs rule: print_json_print_elems_print_members.induct)
  case 1 then show ?case using parse_val_lit(1) by (cases n) auto
next
  case (2 b) then show ?case using parse_val_lit(2,3) by (cases n) auto
next
  case (3 l) then show ?case using parse_val_num by (cases n) auto
next
  case (4 s) then show ?case using parse_val_str by (cases n) (auto simp del: parse_val.simps)
next
  case (5 vs)
  obtain m where m: "n = Suc m" using "5.prems" by (cases n) auto
  show ?case
  proof (cases "vs = []")
    case True then show ?thesis by (simp add: m)
  next
    case False
    with "5.prems" obtain c q where "print_elems vs = c # q" "\<not> is_ws c" "c \<noteq> CHR '']''"
      by (auto elim: print_elems_hd)
    moreover have "parse_elems m (print_elems vs @ r) = Some (vs, r)"
      using "5" False m by auto
    ultimately show ?thesis by (simp add: m)
  qed
next
  case (6 kvs)
  obtain m where m: "n = Suc m" using "6.prems" by (cases n) auto
  show ?case
  proof (cases "kvs = []")
    case True then show ?thesis by (simp add: m)
  next
    case False
    then obtain q where "print_members kvs = CHR 0x22 # q" by (rule print_members_hd)
    moreover have "parse_members m (print_members kvs @ r) = Some (kvs, r)"
      using "6" False m by auto
    ultimately show ?thesis by (simp add: m)
  qed
next
  case 7 then show ?case by simp
next
  case (8 v)
  obtain m where m: "n = Suc m" using "8.prems" by (cases n) auto
  have "parse_val m (print_json v @ CHR '']'' # r) = Some (v, CHR '']'' # r)"
    using "8" m by auto
  then show ?case by (simp add: m)
next
  case (9 v w vs)
  obtain m where m: "n = Suc m" using "9.prems" by (cases n) auto
  have "parse_val m (print_json v @ CHR '','' # print_elems (w # vs) @ r)
      = Some (v, CHR '','' # print_elems (w # vs) @ r)"
    using "9" m by auto
  moreover have "parse_elems m (print_elems (w # vs) @ r) = Some (w # vs, r)"
    using "9" m by auto
  ultimately show ?case by (simp add: m)
next
  case 10 then show ?case by simp
next
  case (11 k v)
  obtain m where m: "n = Suc m" using "11.prems" by (cases n) auto
  have "parse_val m (print_json v @ CHR ''}'' # r) = Some (v, CHR ''}'' # r)"
    using "11" m by auto
  then show ?case by (simp add: m parse_members_key del: parse_members.simps)
next
  case (12 k v x kvs)
  obtain m where m: "n = Suc m" using "12.prems" by (cases n) auto
  have "parse_val m (print_json v @ CHR '','' # print_members (x # kvs) @ r)
      = Some (v, CHR '','' # print_members (x # kvs) @ r)"
    using "12" m by auto
  moreover have "parse_members m (print_members (x # kvs) @ r) = Some (x # kvs, r)"
    using "12" m by auto
  ultimately show ?case by (simp add: m parse_members_key del: parse_members.simps)
qed

lemma parse_print_json: "wf_json v \<Longrightarrow> parse_json (print_json v) = Some v"
  using parse_print_all(1) [of v "[]" "Suc (length (print_json v))"]
  by (simp add: parse_json_def skip_ws_def del: parse_val.simps)

lemma parse_json_empty: "parse_json [] = None"
  by (simp add: parse_json_def skip_ws_def)

lemma length_esc_str: "length (esc_str s) = 2 + sum_list (map (\<lambda>c. length (esc_char c)) s)"
  by (simp add: esc_str_def length_concat comp_def)

end
