(* ===== verification/Journal_Types.thy ===== *)
theory Journal_Types
  imports TS_Prelude Go_JSON
begin

text \<open>
  The data of the Guard journal (\<^verbatim>\<open>src/pkg/agent/journal/types.go\<close> and the struct types of
  \<^verbatim>\<open>store.go\<close>): the intent of a command, its result revisions, the derived entry, the log
  record, and the options.  A \<^verbatim>\<open>json.RawMessage\<close> is the JSON value whose compact text it holds,
  \<^term>\<open>None\<close> when it is empty.
\<close>

section \<open>States and report states\<close>

datatype State = StateIntent | StateDispatched | StateResultPending | StateOutcomeUnknown | StateAcked

definition ReportTerminal :: string where "ReportTerminal = ''terminal''"
definition ReportOutcomeUnknown :: string where "ReportOutcomeUnknown = ''outcome_unknown''"
definition ReportRejected :: string where "ReportRejected = ''rejected''"
definition ReportResolved :: string where "ReportResolved = ''resolved''"

lemmas report_defs = ReportTerminal_def ReportOutcomeUnknown_def ReportRejected_def ReportResolved_def

definition ReasonCorrupt :: string where "ReasonCorrupt = ''journal_corrupt''"
definition ReasonSchema :: string where "ReasonSchema = ''journal_schema_incompatible''"
definition ReasonFull :: string where "ReasonFull = ''journal_full''"
definition ReasonWriteFailed :: string where "ReasonWriteFailed = ''journal_write_failed''"
definition ReasonUnavailable :: string where "ReasonUnavailable = ''journal_unavailable''"

lemmas reason_defs = ReasonCorrupt_def ReasonSchema_def ReasonFull_def ReasonWriteFailed_def
  ReasonUnavailable_def

record DeniedError =
  de_Reason :: string
  de_Detail :: string

definition DeniedError_Error :: "DeniedError \<Rightarrow> string" where
  "DeniedError_Error e =
     (if de_Detail e = [] then de_Reason e else de_Reason e @ '': '' @ de_Detail e)"

datatype jerror =
    ErrTombstoned
  | ErrDigestConflict
  | ErrEntryTooLarge
  | ErrInvalidTransition
  | ErrNotFound
  | ErrDenied DeniedError
  | ErrOther string

section \<open>Intent, executor, result\<close>

definition raw_len :: "json option \<Rightarrow> nat" where
  "raw_len r = (case r of None \<Rightarrow> 0 | Some v \<Rightarrow> length (print_json v))"

record Intent =
  CommandID :: string
  TenantID :: string
  WorkerID :: string
  Operation :: string
  Mutating :: bool
  Generation :: int
  PayloadDigest :: string
  AuthorityExpiresAt :: gtime
  ContractVersion :: string
  ResourceKey :: string
  Hint :: "json option"

record ExecutorRef =
  PID :: int
  PGID :: int
  StartTicks :: nat

record ResultRecord =
  rr_Revision :: int
  rr_State :: string
  rr_Digest :: string
  rr_PriorDigest :: string
  rr_Reason :: string
  rr_Resolution :: string
  rr_Truncated :: bool
  rr_SensitiveOmitted :: bool
  rr_Payload :: "json option"
  rr_At :: gtime

text \<open>Whether the revision leaves the outcome unsettled.\<close>

definition rr_Open :: "ResultRecord \<Rightarrow> bool" where
  "rr_Open r \<longleftrightarrow>
     rr_State r = ReportOutcomeUnknown \<or>
     (rr_State r = ReportResolved \<and> rr_Resolution r = ''operator_escalation'')"

section \<open>Entries\<close>

record Entry =
  en_Intent :: Intent
  en_State :: State
  en_IntentAt :: gtime
  en_DispatchedAt :: gtime
  en_Executor :: "ExecutorRef option"
  en_Results :: "ResultRecord list"
  en_AckedRevision :: int
  en_Rejected :: bool

record entryState = Entry +
  ackedAt :: gtime

definition Latest :: "'a Entry_scheme \<Rightarrow> ResultRecord option" where
  "Latest e = (if en_Results e = [] then None else Some (last (en_Results e)))"

definition NextUnacked :: "'a Entry_scheme \<Rightarrow> ResultRecord option" where
  "NextUnacked e = find (\<lambda>r. rr_Revision r > en_AckedRevision e) (en_Results e)"

definition recompute :: "entryState \<Rightarrow> entryState" where
  "recompute e =
     (case Latest e of
        Some l \<Rightarrow>
          e\<lparr>en_State :=
             (if rr_Open l then StateOutcomeUnknown
              else if en_AckedRevision e \<ge> rr_Revision l then StateAcked
              else StateResultPending)\<rparr>
      | None \<Rightarrow>
          if \<not> IsZero (en_DispatchedAt e) then e\<lparr>en_State := StateDispatched\<rparr>
          else e\<lparr>en_State := StateIntent\<rparr>)"

definition snapshot :: "entryState \<Rightarrow> Entry" where
  "snapshot e = Entry.truncate e"

section \<open>Log records\<close>

record tombstone =
  tb_Digest :: string
  tb_ExpiresAt :: gtime

record logrec =
  Kind :: string
  rec_ID :: string
  rec_At :: gtime
  rec_Intent :: "Intent option"
  rec_Executor :: "ExecutorRef option"
  rec_Result :: "ResultRecord option"
  rec_Revision :: int
  rec_Rejected :: bool
  rec_Generation :: int
  rec_Tombstone :: "tombstone option"

definition mkrec :: "string \<Rightarrow> string \<Rightarrow> logrec" where
  "mkrec k i = \<lparr>Kind = k, rec_ID = i, rec_At = 0, rec_Intent = None, rec_Executor = None,
     rec_Result = None, rec_Revision = 0, rec_Rejected = False, rec_Generation = 0,
     rec_Tombstone = None\<rparr>"

section \<open>Options\<close>

record Options =
  MaxBytes :: int
  MaxResultBytes :: int
  MaxIntentBytes :: int
  ClockMargin :: duration
  MinTombstone :: duration
  CompactAfterBytes :: int

definition SchemaVersion :: int where "SchemaVersion = 1"

definition withDefaults :: "Options \<Rightarrow> Options" where
  "withDefaults opt = \<lparr>
     MaxBytes = (if MaxBytes opt \<le> 0 then 256 * 2 ^ 20 else MaxBytes opt),
     MaxResultBytes = (if MaxResultBytes opt \<le> 0 then 24 * 2 ^ 20 else MaxResultBytes opt),
     MaxIntentBytes = (if MaxIntentBytes opt \<le> 0 then 64 * 2 ^ 10 else MaxIntentBytes opt),
     ClockMargin = (if ClockMargin opt \<le> 0 then 15 * minute else ClockMargin opt),
     MinTombstone = (if MinTombstone opt \<le> 0 then hour else MinTombstone opt),
     CompactAfterBytes = (if CompactAfterBytes opt \<le> 0 then 8 * 2 ^ 20 else CompactAfterBytes opt)\<rparr>"

section \<open>Lemmas on entries\<close>

lemma recompute_fields [simp]:
  "en_Intent (recompute e) = en_Intent e"
  "en_IntentAt (recompute e) = en_IntentAt e"
  "en_DispatchedAt (recompute e) = en_DispatchedAt e"
  "en_Executor (recompute e) = en_Executor e"
  "en_Results (recompute e) = en_Results e"
  "en_AckedRevision (recompute e) = en_AckedRevision e"
  "en_Rejected (recompute e) = en_Rejected e"
  "ackedAt (recompute e) = ackedAt e"
  by (simp_all add: recompute_def split: option.split)

lemma recompute_idem [simp]: "recompute (recompute e) = recompute e"
  by (simp add: recompute_def Latest_def split: option.split)

text \<open>The derived state is a function of the other fields, and this is the whole of it.\<close>

lemma recompute_State:
  "en_State (recompute e) =
     (if en_Results e = [] then (if en_DispatchedAt e = 0 then StateIntent else StateDispatched)
      else if rr_Open (last (en_Results e)) then StateOutcomeUnknown
      else if en_AckedRevision e \<ge> rr_Revision (last (en_Results e)) then StateAcked
      else StateResultPending)"
  by (simp add: recompute_def Latest_def IsZero_def)

lemma snapshot_fields [simp]:
  "en_Intent (snapshot e) = en_Intent e"
  "en_State (snapshot e) = en_State e"
  "en_IntentAt (snapshot e) = en_IntentAt e"
  "en_DispatchedAt (snapshot e) = en_DispatchedAt e"
  "en_Executor (snapshot e) = en_Executor e"
  "en_Results (snapshot e) = en_Results e"
  "en_AckedRevision (snapshot e) = en_AckedRevision e"
  "en_Rejected (snapshot e) = en_Rejected e"
  by (simp_all add: snapshot_def Entry.defs)

lemma withDefaults_pos:
  "MaxBytes (withDefaults opt) > 0" "MaxResultBytes (withDefaults opt) > 0"
  "MaxIntentBytes (withDefaults opt) > 0" "ClockMargin (withDefaults opt) > 0"
  "MinTombstone (withDefaults opt) > 0" "CompactAfterBytes (withDefaults opt) > 0"
  by (simp_all add: withDefaults_def time_defs)

end
