(* ===== verification/Go_Time.thy ===== *)
theory Go_Time
  imports TS_Prelude
begin

text \<open>
  \<^verbatim>\<open>time.Time\<close> as text: the RFC 3339 form with nanoseconds that \<^verbatim>\<open>Time.MarshalJSON\<close> writes for a
  UTC instant, its parser, and the round trip.  The calendar is the proleptic Gregorian one
  counted from January 1 of year 1, Go's zero time.  Only years 1 to 9999 have a text.
\<close>

section \<open>The calendar\<close>

definition leap :: "nat \<Rightarrow> bool" where
  "leap y \<longleftrightarrow> y mod 4 = 0 \<and> (y mod 100 \<noteq> 0 \<or> y mod 400 = 0)"

text \<open>Days from January 1 of year 1 to January 1 of year \<^term>\<open>y + 1\<close>.\<close>

definition days_before :: "nat \<Rightarrow> nat" where
  "days_before y = 365 * y + y div 4 - y div 100 + y div 400"

text \<open>Year (less one) and day of the year, by cutting off 400-, 100-, 4- and 1-year cycles.\<close>

definition year_yday :: "nat \<Rightarrow> nat \<times> nat" where
  "year_yday d =
     (let n400 = d div 146097; d1 = d mod 146097;
          n100 = d1 div 36524 - d1 div 36524 div 4; d2 = d1 - 36524 * n100;
          n4 = d2 div 1461; d3 = d2 mod 1461;
          n1 = d3 div 365 - d3 div 365 div 4
      in (400 * n400 + 100 * n100 + 4 * n4 + n1, d3 - 365 * n1))"

definition month_lengths :: "bool \<Rightarrow> nat list" where
  "month_lengths lp = [31, if lp then 29 else 28, 31, 30, 31, 30, 31, 31, 30, 31, 30, 31]"

fun month_day :: "nat \<Rightarrow> nat list \<Rightarrow> nat \<Rightarrow> nat \<times> nat" where
  "month_day m [] d = (m, d)"
| "month_day m (l # ls) d = (if d < l then (m, d) else month_day (Suc m) ls (d - l))"

text \<open>Year, month (from 1) and day (from 1) of a day number.\<close>

definition civil :: "nat \<Rightarrow> nat \<times> nat \<times> nat" where
  "civil d =
     (let (y, yd) = year_yday d; (m, dd) = month_day 1 (month_lengths (leap (y + 1))) yd
      in (y + 1, m, dd + 1))"

definition day_number :: "nat \<Rightarrow> nat \<Rightarrow> nat \<Rightarrow> nat" where
  "day_number y m d =
     days_before (y - 1) + sum_list (take (m - 1) (month_lengths (leap y))) + (d - 1)"

section \<open>Text\<close>

definition dchar :: "nat \<Rightarrow> char" where "dchar n = char_of (48 + n)"

fun digs :: "nat \<Rightarrow> nat \<Rightarrow> string" where
  "digs 0 n = []"
| "digs (Suc k) n = digs k (n div 10) @ [dchar (n mod 10)]"

definition dval :: "char \<Rightarrow> nat option" where
  "dval c = (let n = (of_char c :: nat) in if 48 \<le> n \<and> n \<le> 57 then Some (n - 48) else None)"

fun num_acc :: "nat \<Rightarrow> string \<Rightarrow> nat option" where
  "num_acc a [] = Some a"
| "num_acc a (c # cs) = (case dval c of None \<Rightarrow> None | Some d \<Rightarrow> num_acc (10 * a + d) cs)"

definition frac_text :: "nat \<Rightarrow> string" where
  "frac_text f =
     (if f = 0 then []
      else CHR ''.'' # rev (dropWhile (\<lambda>c. c = CHR ''0'') (rev (digs 9 f))))"

definition format_time :: "gtime \<Rightarrow> string option" where
  "format_time t =
     (if t < 0 then None
      else let secs = nat (t div 1000000000); fr = nat (t mod 1000000000);
               (y, m, d) = civil (secs div 86400); sod = secs mod 86400
        in if y > 9999 then None
           else Some (digs 4 y @ ''-'' @ digs 2 m @ ''-'' @ digs 2 d @ ''T'' @
                      digs 2 (sod div 3600) @ '':'' @ digs 2 (sod div 60 mod 60) @ '':'' @
                      digs 2 (sod mod 60) @ frac_text fr @ ''Z''))"

definition parse_frac :: "string \<Rightarrow> nat option" where
  "parse_frac s =
     (case s of
        [] \<Rightarrow> None
      | c # r \<Rightarrow>
          if c = CHR ''Z'' then (if r = [] then Some 0 else None)
          else if c = CHR ''.'' \<and> r \<noteq> [] \<and> last r = CHR ''Z'' \<and> butlast r \<noteq> [] \<and> length (butlast r) \<le> 9
          then num_acc 0 (butlast r @ replicate (9 - length (butlast r)) (CHR ''0''))
          else None)"

definition parse_time :: "string \<Rightarrow> gtime option" where
  "parse_time s =
     (if length s < 20 \<or> s ! 4 \<noteq> CHR ''-'' \<or> s ! 7 \<noteq> CHR ''-'' \<or> s ! 10 \<noteq> CHR ''T'' \<or>
         s ! 13 \<noteq> CHR '':'' \<or> s ! 16 \<noteq> CHR '':'' then None
      else case (num_acc 0 (take 4 s), num_acc 0 (take 2 (drop 5 s)), num_acc 0 (take 2 (drop 8 s)),
                 num_acc 0 (take 2 (drop 11 s)), num_acc 0 (take 2 (drop 14 s)),
                 num_acc 0 (take 2 (drop 17 s)), parse_frac (drop 19 s)) of
          (Some y, Some m, Some d, Some hh, Some mm, Some ss, Some fr) \<Rightarrow>
            if 1 \<le> y \<and> 1 \<le> m \<and> m \<le> 12 \<and> 1 \<le> d \<and> d \<le> month_lengths (leap y) ! (m - 1) \<and>
               hh < 24 \<and> mm < 60 \<and> ss < 60
            then Some (int (day_number y m d * 86400 + hh * 3600 + mm * 60 + ss) * 1000000000 + int fr)
            else None
        | _ \<Rightarrow> None)"

section \<open>Round trip\<close>

lemma year_yday_inverse:
  assumes "year_yday d = (y, yd)"
  shows "days_before y + yd = d" "yd < (if leap (y + 1) then 366 else 365)"
proof -
  define n400 d1 where "n400 = d div 146097" and "d1 = d mod 146097"
  define q where "q = d1 div 36524"
  define n100 where "n100 = q - q div 4"
  define d2 where "d2 = d1 - 36524 * n100"
  define n4 d3 where "n4 = d2 div 1461" and "d3 = d2 mod 1461"
  define p where "p = d3 div 365"
  define n1 where "n1 = p - p div 4"
  have y: "y = 400 * n400 + 100 * n100 + 4 * n4 + n1" and yd: "yd = d3 - 365 * n1"
    using assms by (simp_all add: year_yday_def Let_def n400_def d1_def q_def n100_def d2_def n4_def
        d3_def p_def n1_def)
  have d: "d = 146097 * n400 + d1" and d1: "d1 < 146097" by (simp_all add: n400_def d1_def)
  have q: "q \<le> 4" using d1 by (simp add: q_def)
  then have n100: "n100 \<le> 3" unfolding n100_def by arith
  have q1: "36524 * q \<le> d1" "d1 < 36524 * q + 36524" by (simp_all add: q_def)
  have nq: "n100 = (if q = 4 then 3 else q)" using q unfolding n100_def by auto
  have d12: "d1 = 36524 * n100 + d2" and d2: "d2 \<le> (if n100 = 3 then 36524 else 36523)"
    using q1 d1 q unfolding d2_def nq by (auto split: if_splits)
  have d23: "d2 = 1461 * n4 + d3" and d3: "d3 < 1461" by (simp_all add: n4_def d3_def)
  have n4: "n4 \<le> 24" using d2 unfolding n4_def by (auto split: if_splits)
  have p: "p \<le> 4" using d3 by (simp add: p_def)
  have p1: "365 * p \<le> d3" "d3 < 365 * p + 365" by (simp_all add: p_def)
  have n1p: "n1 = (if p = 4 then 3 else p)" using p unfolding n1_def by auto
  then have n1: "n1 \<le> 3" using p by auto
  have d3y: "d3 = 365 * n1 + yd" and ydb: "yd \<le> (if n1 = 3 then 365 else 364)"
    using p1 d3 p unfolding yd n1p by (auto split: if_splits)
  have y4: "y div 4 = 100 * n400 + 25 * n100 + n4" using y n1 by simp
  have y100: "y div 100 = 4 * n400 + n100" using y n1 n4 by simp
  have y400: "y div 400 = n400" using y n1 n4 n100 by simp
  have "days_before y + yd = 365 * y + (100 * n400 + 25 * n100 + n4) - (4 * n400 + n100) + n400 + yd"
    by (simp add: days_before_def y4 y100 y400)
  also have "\<dots> = 146097 * n400 + 36524 * n100 + 1461 * n4 + 365 * n1 + yd" using y by simp
  also have "\<dots> = d" using d d12 d23 d3y by simp
  finally show "days_before y + yd = d" .
  have lp: "n1 = 3 \<Longrightarrow> yd = 365 \<Longrightarrow> leap (y + 1)"
  proof -
    assume n13: "n1 = 3" and yd365: "yd = 365"
    have y1: "y + 1 = 400 * n400 + 100 * n100 + 4 * (n4 + 1)" using y n13 by simp
    show "leap (y + 1)"
    proof (cases "n4 = 24")
      case True
      then have "n100 = 3" using d2 d23 d3y n13 yd365 n100 by (auto split: if_splits)
      then show ?thesis using y1 True by (simp add: leap_def)
    next
      case False
      then have small: "4 * (n4 + 1) < 100" using n4 by simp
      have "y + 1 = 4 * (n4 + 1) + 100 * (4 * n400 + n100)" using y1 by simp
      then have "(y + 1) mod 100 = 4 * (n4 + 1)" using small by (simp only: mod_mult_self2 mod_less)
      moreover have "y + 1 = 4 * (100 * n400 + 25 * n100 + n4 + 1)" using y1 by simp
      then have "(y + 1) mod 4 = 0" by (simp only: mod_mult_self1_is_0)
      ultimately show ?thesis by (simp add: leap_def)
    qed
  qed
  show "yd < (if leap (y + 1) then 366 else 365)"
  proof (cases "n1 = 3 \<and> yd = 365")
    case True then show ?thesis using lp by simp
  next
    case False then show ?thesis using ydb by (simp split: if_splits)
  qed
qed

lemma month_day_inverse:
  assumes "month_day m ls d = (m', d')" "d < sum_list ls"
  shows "m \<le> m'" "m' - m < length ls" "sum_list (take (m' - m) ls) + d' = d" "d' < ls ! (m' - m)"
proof -
  have "m \<le> m' \<and> m' - m < length ls \<and> sum_list (take (m' - m) ls) + d' = d \<and> d' < ls ! (m' - m)"
    using assms
  proof (induction m ls d rule: month_day.induct)
    case (1 m d) then show ?case by simp
  next
    case (2 m l ls d)
    show ?case
    proof (cases "d < l")
      case True with "2.prems" show ?thesis by auto
    next
      case False
      with "2" have ih: "Suc m \<le> m'" "m' - Suc m < length ls"
        "sum_list (take (m' - Suc m) ls) + d' = d - l" "d' < ls ! (m' - Suc m)" by auto
      then have e: "m' - m = Suc (m' - Suc m)" by simp
      show ?thesis using ih False by (simp add: e)
    qed
  qed
  then show "m \<le> m'" "m' - m < length ls" "sum_list (take (m' - m) ls) + d' = d" "d' < ls ! (m' - m)"
    by blast+
qed

lemma civil_inverse:
  assumes "civil n = (y, m, d)"
  shows "day_number y m d = n" "1 \<le> y" "1 \<le> m" "m \<le> 12" "1 \<le> d" "d \<le> month_lengths (leap y) ! (m - 1)"
proof -
  obtain y0 yd where yy: "year_yday n = (y0, yd)" by (cases "year_yday n") auto
  obtain m0 d0 where md: "month_day 1 (month_lengths (leap (y0 + 1))) yd = (m0, d0)"
    by (cases "month_day 1 (month_lengths (leap (y0 + 1))) yd") auto
  have eqs: "y = y0 + 1" "m = m0" "d = d0 + 1" using assms yy md by (simp_all add: civil_def)
  note yi = year_yday_inverse [OF yy]
  have "sum_list (month_lengths lp) = (if lp then 366 else 365)" for lp
    by (simp add: month_lengths_def)
  then have lt: "yd < sum_list (month_lengths (leap (y0 + 1)))" using yi(2) by simp
  note mi = month_day_inverse [OF md lt]
  show "day_number y m d = n" using yi(1) mi(3) by (simp add: day_number_def eqs)
  show "1 \<le> y" "1 \<le> m" "1 \<le> d" using mi(1) by (simp_all add: eqs)
  show "m \<le> 12" using mi(1,2) by (simp add: eqs month_lengths_def)
  show "d \<le> month_lengths (leap y) ! (m - 1)" using mi(4) by (simp add: eqs)
qed

lemma month_length_le: "m < 12 \<Longrightarrow> month_lengths lp ! m \<le> 31"
  by (auto simp: month_lengths_def less_Suc_eq numeral_eq_Suc)

lemma length_digs [simp]: "length (digs k n) = k"
  by (induction k n rule: digs.induct) auto

lemma dval_dchar: "n < 10 \<Longrightarrow> dval (dchar n) = Some n"
  by (simp add: dval_def dchar_def Let_def)

lemma num_acc_append:
  "num_acc a (s @ t) = (case num_acc a s of None \<Rightarrow> None | Some b \<Rightarrow> num_acc b t)"
  by (induction a s rule: num_acc.induct) (auto split: option.split)

lemma num_acc_digs: "n < 10 ^ k \<Longrightarrow> num_acc a (digs k n) = Some (a * 10 ^ k + n)"
proof (induction k n arbitrary: a rule: digs.induct)
  case (1 n) then show ?case by simp
next
  case (2 k n)
  have "n div 10 < 10 ^ k" using "2.prems" by (simp add: less_mult_imp_div_less mult.commute)
  with "2.IH" have "num_acc a (digs k (n div 10)) = Some (a * 10 ^ k + n div 10)" by simp
  then show ?case by (simp add: num_acc_append dval_dchar algebra_simps)
qed

lemma strip_pad:
  "rev (dropWhile (\<lambda>c. c = z) (rev s)) @
     replicate (length s - length (rev (dropWhile (\<lambda>c. c = z) (rev s)))) z = s"
proof (induction s rule: rev_induct)
  case Nil then show ?case by simp
next
  case (snoc x xs)
  show ?case
  proof (cases "x = z")
    case False then show ?thesis by simp
  next
    case True
    let ?t = "rev (dropWhile (\<lambda>c. c = z) (rev xs))"
    have le: "length ?t \<le> length xs"
      using length_dropWhile_le [of "\<lambda>c. c = z" "rev xs"] by simp
    have "rev (dropWhile (\<lambda>c. c = z) (rev (xs @ [x]))) = ?t" using True by simp
    moreover have "replicate (length (xs @ [x]) - length ?t) z = replicate (length xs - length ?t) z @ [z]"
      using le by (simp add: Suc_diff_le replicate_append_same)
    ultimately show ?thesis using snoc True by (metis append.assoc)
  qed
qed

lemma num_acc_zeros: "num_acc 0 (replicate k (CHR ''0'')) = Some 0"
proof -
  have "dval (CHR ''0'') = Some 0" by (simp add: dval_def)
  then show ?thesis by (induction k) simp_all
qed

lemma parse_frac_text: "f < 1000000000 \<Longrightarrow> parse_frac (frac_text f @ ''Z'') = Some f"
proof (cases "f = 0")
  case True then show ?thesis by (simp add: frac_text_def parse_frac_def)
next
  case False
  assume f: "f < 1000000000"
  let ?t = "rev (dropWhile (\<lambda>c. c = CHR ''0'') (rev (digs 9 f)))"
  have pad: "?t @ replicate (9 - length ?t) (CHR ''0'') = digs 9 f"
    using strip_pad [of "CHR ''0''" "digs 9 f"] by simp
  have v: "num_acc 0 (digs 9 f) = Some f" using num_acc_digs [of f 9 0] f by simp
  have ne: "?t \<noteq> []"
  proof
    assume "?t = []"
    with pad have "digs 9 f = replicate 9 (CHR ''0'')" by simp
    with v num_acc_zeros [of 9] False show False by simp
  qed
  have len: "length ?t \<le> 9" using length_dropWhile_le [of "\<lambda>c. c = CHR ''0''" "rev (digs 9 f)"] by simp
  show ?thesis using False ne len pad v by (simp add: frac_text_def parse_frac_def)
qed

lemma hms_split: "(n :: nat) div 3600 * 3600 + n div 60 mod 60 * 60 + n mod 60 = n"
proof -
  define a where "a = n div 60"
  define q r where "q = a div 60" and "r = a mod 60"
  have e: "n div 3600 = q" by (simp add: a_def q_def div_mult2_eq [symmetric])
  have n: "n = a * 60 + n mod 60" unfolding a_def by (simp only: div_mult_mod_eq)
  have a: "a = q * 60 + r" unfolding q_def r_def by (simp only: div_mult_mod_eq)
  have "q * 3600 + r * 60 = a * 60" by (simp add: a)
  with n e show ?thesis unfolding a_def [symmetric] r_def [symmetric] by linarith
qed

lemma hms_bounds:
  assumes "(n :: nat) < 86400"
  shows "n div 3600 < 24" "n div 60 mod 60 < 60" "n mod 60 < 60"
  using assms by (simp_all add: less_mult_imp_div_less)

lemma num_acc_digs2: "n < 100 \<Longrightarrow> num_acc 0 (digs 2 n) = Some n"
  using num_acc_digs [of n 2 0] by simp

text \<open>The fixed-width part of the text, field by field.\<close>

lemma parse_time_fields:
  assumes "y \<le> 9999" "1 \<le> y" "1 \<le> m" "m \<le> 12" "1 \<le> d" "d \<le> month_lengths (leap y) ! (m - 1)"
    "hh < 24" "mm < 60" "ss < 60" "parse_frac fr = Some f" "fr \<noteq> []"
  shows "parse_time (digs 4 y @ ''-'' @ digs 2 m @ ''-'' @ digs 2 d @ ''T'' @ digs 2 hh @ '':'' @
           digs 2 mm @ '':'' @ digs 2 ss @ fr) =
         Some (int (day_number y m d * 86400 + hh * 3600 + mm * 60 + ss) * 1000000000 + int f)"
    (is "parse_time ?s = _")
proof -
  have "d \<le> 31" using assms(3,4,6) month_length_le [of "m - 1" "leap y"] by linarith
  then have vals: "num_acc 0 (digs 4 y) = Some y" "num_acc 0 (digs 2 m) = Some m"
    "num_acc 0 (digs 2 d) = Some d" "num_acc 0 (digs 2 hh) = Some hh" "num_acc 0 (digs 2 mm) = Some mm"
    "num_acc 0 (digs 2 ss) = Some ss"
    using num_acc_digs [of y 4 0] assms by (simp_all add: num_acc_digs2)
  have len: "\<not> length ?s < 20" using assms(11) by (cases fr) simp_all
  have pos: "?s ! 4 = CHR ''-''" "?s ! 7 = CHR ''-''" "?s ! 10 = CHR ''T''" "?s ! 13 = CHR '':''"
    "?s ! 16 = CHR '':''"
    by (simp_all add: nth_append)
  have parts: "take 4 ?s = digs 4 y" "take 2 (drop 5 ?s) = digs 2 m" "take 2 (drop 8 ?s) = digs 2 d"
    "take 2 (drop 11 ?s) = digs 2 hh" "take 2 (drop 14 ?s) = digs 2 mm"
    "take 2 (drop 17 ?s) = digs 2 ss" "drop 19 ?s = fr"
    by simp_all
  show ?thesis
    unfolding parse_time_def parts vals pos assms(10) using len assms(2-9) by simp
qed

lemma parse_format_time:
  assumes "format_time t = Some s"
  shows "parse_time s = Some t"
proof -
  define secs fr where "secs = nat (t div 1000000000)" and "fr = nat (t mod 1000000000)"
  define sod where "sod = secs mod 86400"
  obtain y m d where c: "civil (secs div 86400) = (y, m, d)" by (metis prod_cases3)
  have t0: "0 \<le> t" and y: "y \<le> 9999"
    and s: "s = digs 4 y @ ''-'' @ digs 2 m @ ''-'' @ digs 2 d @ ''T'' @ digs 2 (sod div 3600) @ '':'' @
        digs 2 (sod div 60 mod 60) @ '':'' @ digs 2 (sod mod 60) @ (frac_text fr @ ''Z'')"
    using assms c
    by (auto simp: format_time_def Let_def secs_def [symmetric] fr_def [symmetric] sod_def [symmetric]
        split: if_splits)
  note ci = civil_inverse [OF c]
  have fr: "fr < 1000000000" using t0 by (simp add: fr_def nat_less_iff)
  have sod: "sod < 86400" by (simp add: sod_def)
  have "parse_time s = Some (int (day_number y m d * 86400 + sod div 3600 * 3600 + sod div 60 mod 60 * 60 + sod mod 60) * 1000000000 + int fr)"
    unfolding s using hms_bounds [OF sod] parse_frac_text [OF fr] ci y
    by (intro parse_time_fields) simp_all
  also have "day_number y m d * 86400 + sod div 3600 * 3600 + sod div 60 mod 60 * 60 + sod mod 60 =
      secs div 86400 * 86400 + sod"
    using hms_split [of sod] ci(1) by linarith
  also have "\<dots> = secs" unfolding sod_def by (rule div_mult_mod_eq)
  also have "int secs * 1000000000 + int fr = t" using t0 by (simp add: secs_def fr_def pos_imp_zdiv_nonneg_iff)
  finally show ?thesis .
qed

text \<open>Two instants just after the zero time, printed.\<close>

lemma digs_numeral: "digs (numeral v) n = digs (pred_numeral v) (n div 10) @ [dchar (n mod 10)]"
  by (subst numeral_eq_Suc) (rule digs.simps(2))

lemma dchar_ex: "dchar 0 = CHR ''0''" "dchar (Suc 0) = CHR ''1''" "dchar 9 = CHR ''9''"
  by (simp_all add: dchar_def char_of_eq_iff)

lemma civil_ex: "civil 0 = (1, 1, 1)"
  by (simp add: civil_def year_yday_def month_lengths_def leap_def)

lemma format_time_ex:
  "format_time 1 = Some ''0001-01-01T00:00:00.000000001Z''"
  "format_time 9 = Some ''0001-01-01T00:00:00.000000009Z''"
  by (simp_all add: format_time_def civil_ex frac_text_def digs_numeral dchar_ex)

end
