(* ===== verification/Journal_Codec.thy ===== *)
theory Journal_Codec
  imports Journal_Types Go_Time "HOL-Library.Monad_Syntax"
begin

text \<open>
  The JSON form of a log record: what \<^verbatim>\<open>json.Marshal\<close> and \<^verbatim>\<open>json.Unmarshal\<close> do with the struct
  tags of \<^verbatim>\<open>record\<close>, \<^verbatim>\<open>Intent\<close>, \<^verbatim>\<open>ExecutorRef\<close>, \<^verbatim>\<open>ResultRecord\<close> and \<^verbatim>\<open>tombstone\<close>, and
  that reading a written record gives it back.  Object keys are matched exactly; when a key is
  repeated the last one counts.
\<close>

section \<open>Scalars and fields\<close>

text \<open>A field with \<^verbatim>\<open>omitempty\<close> is left out when its value is empty.\<close>

definition oe :: "bool \<Rightarrow> string \<times> json \<Rightarrow> (string \<times> json) list" where
  "oe b kv = (if b then [] else [kv])"

fun fld :: "(string \<times> json) list \<Rightarrow> string \<Rightarrow> json option" where
  "fld [] k = None"
| "fld ((k', v) # r) k =
     (case fld r k of Some w \<Rightarrow> Some w | None \<Rightarrow> if k' = k then Some v else None)"

fun as_str :: "json option \<Rightarrow> string option" where
  "as_str None = Some []"
| "as_str (Some JNull) = Some []"
| "as_str (Some (JStr s)) = Some s"
| "as_str _ = None"

fun as_bool :: "json option \<Rightarrow> bool option" where
  "as_bool None = Some False"
| "as_bool (Some JNull) = Some False"
| "as_bool (Some (JBool b)) = Some b"
| "as_bool _ = None"

definition parse_int :: "string \<Rightarrow> int option" where
  "parse_int s =
     (case s of
        [] \<Rightarrow> None
      | c # r \<Rightarrow>
          if c = CHR ''-'' then (if r = [] then None else map_option (\<lambda>n. - int n) (num_acc 0 r))
          else map_option int (num_acc 0 s))"

fun as_int :: "json option \<Rightarrow> int option" where
  "as_int None = Some 0"
| "as_int (Some JNull) = Some 0"
| "as_int (Some (JNum l)) = parse_int l"
| "as_int _ = None"

fun as_time :: "json option \<Rightarrow> gtime option" where
  "as_time None = Some 0"
| "as_time (Some JNull) = Some 0"
| "as_time (Some (JStr s)) = parse_time s"
| "as_time _ = None"

fun as_obj :: "json option \<Rightarrow> (string \<times> json) list option" where
  "as_obj (Some (JObj kvs)) = Some kvs"
| "as_obj (Some JNull) = Some []"
| "as_obj _ = None"

text \<open>A pointer field: absent or null is the nil pointer.\<close>

fun as_ptr :: "((string \<times> json) list \<Rightarrow> 'a option) \<Rightarrow> json option \<Rightarrow> 'a option option" where
  "as_ptr f None = Some None"
| "as_ptr f (Some JNull) = Some None"
| "as_ptr f (Some (JObj kvs)) = map_option Some (f kvs)"
| "as_ptr f _ = None"

definition jint :: "int \<Rightarrow> json" where "jint i = JNum (Itoa i)"

definition raw_ok :: "json option \<Rightarrow> bool" where
  "raw_ok r = (case r of None \<Rightarrow> True | Some v \<Rightarrow> wf_json v)"

definition oe_raw :: "string \<Rightarrow> json option \<Rightarrow> (string \<times> json) list" where
  "oe_raw k r = (case r of None \<Rightarrow> [] | Some v \<Rightarrow> [(k, v)])"

section \<open>The structs\<close>

definition enc_Intent :: "Intent \<Rightarrow> (string \<times> json) list option" where
  "enc_Intent i =
     (if raw_ok (Hint i) then do {
        at \<leftarrow> format_time (AuthorityExpiresAt i);
        Some ([(''command_id'', JStr (CommandID i)), (''tenant_id'', JStr (TenantID i)),
               (''worker_id'', JStr (WorkerID i)), (''operation'', JStr (Operation i)),
               (''mutating'', JBool (Mutating i)), (''generation'', jint (Generation i)),
               (''payload_digest'', JStr (PayloadDigest i)), (''authority_expires_at'', JStr at),
               (''contract_version'', JStr (ContractVersion i)), (''resource_key'', JStr (ResourceKey i))] @
              oe_raw ''hint'' (Hint i))
      } else None)"

definition dec_Intent :: "(string \<times> json) list \<Rightarrow> Intent option" where
  "dec_Intent kvs = do {
     cid \<leftarrow> as_str (fld kvs ''command_id'');
     ten \<leftarrow> as_str (fld kvs ''tenant_id'');
     wid \<leftarrow> as_str (fld kvs ''worker_id'');
     opn \<leftarrow> as_str (fld kvs ''operation'');
     mut \<leftarrow> as_bool (fld kvs ''mutating'');
     gen \<leftarrow> as_int (fld kvs ''generation'');
     pd \<leftarrow> as_str (fld kvs ''payload_digest'');
     at \<leftarrow> as_time (fld kvs ''authority_expires_at'');
     cv \<leftarrow> as_str (fld kvs ''contract_version'');
     rk \<leftarrow> as_str (fld kvs ''resource_key'');
     Some \<lparr>CommandID = cid, TenantID = ten, WorkerID = wid, Operation = opn, Mutating = mut,
           Generation = gen, PayloadDigest = pd, AuthorityExpiresAt = at, ContractVersion = cv,
           ResourceKey = rk, Hint = fld kvs ''hint''\<rparr>
   }"

definition enc_ExecutorRef :: "ExecutorRef \<Rightarrow> (string \<times> json) list" where
  "enc_ExecutorRef e =
     [(''pid'', jint (PID e)), (''pgid'', jint (PGID e))] @
     oe (StartTicks e = 0) (''start_ticks'', jint (int (StartTicks e)))"

definition dec_ExecutorRef :: "(string \<times> json) list \<Rightarrow> ExecutorRef option" where
  "dec_ExecutorRef kvs = do {
     p \<leftarrow> as_int (fld kvs ''pid'');
     g \<leftarrow> as_int (fld kvs ''pgid'');
     t \<leftarrow> as_int (fld kvs ''start_ticks'');
     if t < 0 then None else Some \<lparr>PID = p, PGID = g, StartTicks = nat t\<rparr>
   }"

definition enc_ResultRecord :: "ResultRecord \<Rightarrow> (string \<times> json) list option" where
  "enc_ResultRecord r =
     (if raw_ok (rr_Payload r) then do {
        at \<leftarrow> format_time (rr_At r);
        Some ([(''revision'', jint (rr_Revision r)), (''state'', JStr (rr_State r)),
               (''digest'', JStr (rr_Digest r))] @
              oe (rr_PriorDigest r = []) (''prior_digest'', JStr (rr_PriorDigest r)) @
              oe (rr_Reason r = []) (''reason'', JStr (rr_Reason r)) @
              oe (rr_Resolution r = []) (''resolution'', JStr (rr_Resolution r)) @
              oe (\<not> rr_Truncated r) (''truncated'', JBool (rr_Truncated r)) @
              oe (\<not> rr_SensitiveOmitted r) (''sensitive_omitted'', JBool (rr_SensitiveOmitted r)) @
              oe_raw ''payload'' (rr_Payload r) @ [(''at'', JStr at)])
      } else None)"

definition dec_ResultRecord :: "(string \<times> json) list \<Rightarrow> ResultRecord option" where
  "dec_ResultRecord kvs = do {
     rev \<leftarrow> as_int (fld kvs ''revision'');
     st \<leftarrow> as_str (fld kvs ''state'');
     dg \<leftarrow> as_str (fld kvs ''digest'');
     pd \<leftarrow> as_str (fld kvs ''prior_digest'');
     rs \<leftarrow> as_str (fld kvs ''reason'');
     rl \<leftarrow> as_str (fld kvs ''resolution'');
     tr \<leftarrow> as_bool (fld kvs ''truncated'');
     so \<leftarrow> as_bool (fld kvs ''sensitive_omitted'');
     at \<leftarrow> as_time (fld kvs ''at'');
     Some \<lparr>rr_Revision = rev, rr_State = st, rr_Digest = dg, rr_PriorDigest = pd, rr_Reason = rs,
           rr_Resolution = rl, rr_Truncated = tr, rr_SensitiveOmitted = so,
           rr_Payload = fld kvs ''payload'', rr_At = at\<rparr>
   }"

definition enc_tombstone :: "tombstone \<Rightarrow> (string \<times> json) list option" where
  "enc_tombstone t = do {
     at \<leftarrow> format_time (tb_ExpiresAt t);
     Some [(''digest'', JStr (tb_Digest t)), (''expires_at'', JStr at)]
   }"

definition dec_tombstone :: "(string \<times> json) list \<Rightarrow> tombstone option" where
  "dec_tombstone kvs = do {
     d \<leftarrow> as_str (fld kvs ''digest'');
     at \<leftarrow> as_time (fld kvs ''expires_at'');
     Some \<lparr>tb_Digest = d, tb_ExpiresAt = at\<rparr>
   }"

text \<open>An optional pointer field: nothing when nil, an error when the value cannot be written.\<close>

definition enc_ptr :: "string \<Rightarrow> ('a \<Rightarrow> (string \<times> json) list option) \<Rightarrow> 'a option \<Rightarrow> (string \<times> json) list option" where
  "enc_ptr k f p = (case p of None \<Rightarrow> Some [] | Some x \<Rightarrow> map_option (\<lambda>kvs. [(k, JObj kvs)]) (f x))"

definition enc_logrec :: "logrec \<Rightarrow> json option" where
  "enc_logrec r = do {
     at \<leftarrow> format_time (rec_At r);
     i \<leftarrow> enc_ptr ''intent'' enc_Intent (rec_Intent r);
     e \<leftarrow> enc_ptr ''executor'' (\<lambda>x. Some (enc_ExecutorRef x)) (rec_Executor r);
     s \<leftarrow> enc_ptr ''result'' enc_ResultRecord (rec_Result r);
     t \<leftarrow> enc_ptr ''tombstone'' enc_tombstone (rec_Tombstone r);
     Some (JObj ([(''k'', JStr (Kind r))] @ oe (rec_ID r = []) (''id'', JStr (rec_ID r)) @
       [(''at'', JStr at)] @ i @ e @ s @
       oe (rec_Revision r = 0) (''rev'', jint (rec_Revision r)) @
       oe (\<not> rec_Rejected r) (''rejected'', JBool (rec_Rejected r)) @
       oe (rec_Generation r = 0) (''gen'', jint (rec_Generation r)) @ t))
   }"

definition dec_logrec :: "json \<Rightarrow> logrec option" where
  "dec_logrec v = do {
     kvs \<leftarrow> as_obj (Some v);
     k \<leftarrow> as_str (fld kvs ''k'');
     ident \<leftarrow> as_str (fld kvs ''id'');
     at \<leftarrow> as_time (fld kvs ''at'');
     i \<leftarrow> as_ptr dec_Intent (fld kvs ''intent'');
     e \<leftarrow> as_ptr dec_ExecutorRef (fld kvs ''executor'');
     s \<leftarrow> as_ptr dec_ResultRecord (fld kvs ''result'');
     rev \<leftarrow> as_int (fld kvs ''rev'');
     rej \<leftarrow> as_bool (fld kvs ''rejected'');
     gen \<leftarrow> as_int (fld kvs ''gen'');
     t \<leftarrow> as_ptr dec_tombstone (fld kvs ''tombstone'');
     Some \<lparr>Kind = k, rec_ID = ident, rec_At = at, rec_Intent = i, rec_Executor = e, rec_Result = s,
           rec_Revision = rev, rec_Rejected = rej, rec_Generation = gen, rec_Tombstone = t\<rparr>
   }"

section \<open>Bytes\<close>

definition bytes_of :: "string \<Rightarrow> byte list" where
  "bytes_of s = map (\<lambda>c. of_nat (of_char c)) s"

definition string_of :: "byte list \<Rightarrow> string" where
  "string_of bs = map (\<lambda>b. char_of (unat b)) bs"

definition marshal :: "logrec \<Rightarrow> byte list option" where
  "marshal r = map_option (\<lambda>v. bytes_of (print_json v)) (enc_logrec r)"

definition unmarshal :: "byte list \<Rightarrow> logrec option" where
  "unmarshal bs = do { v \<leftarrow> parse_json (string_of bs); dec_logrec v }"

section \<open>Round trip\<close>

definition orelse :: "'a option \<Rightarrow> 'a option \<Rightarrow> 'a option" where
  "orelse a b = (case a of Some w \<Rightarrow> Some w | None \<Rightarrow> b)"

lemma orelse_simps [simp]:
  "orelse None b = b" "orelse (Some w) b = Some w" "orelse a None = a"
  by (simp_all add: orelse_def split: option.split)

lemma fld_append: "fld (xs @ ys) k = orelse (fld ys k) (fld xs k)"
  by (induction xs k rule: fld.induct) (auto simp: orelse_def split: option.split)

lemma fld_oe [simp]: "fld (oe b (k', v)) k = (if k' = k \<and> \<not> b then Some v else None)"
  by (simp add: oe_def)

lemma fld_oe_raw [simp]: "fld (oe_raw k' r) k = (if k' = k then r else None)"
  by (simp add: oe_raw_def split: option.split)

lemma as_str_oe [simp]: "as_str (if s = [] then None else Some (JStr s)) = Some s"
  "as_str (if s \<noteq> [] then Some (JStr s) else None) = Some s"
  by simp_all

lemma as_bool_oe [simp]: "as_bool (if b then Some (JBool b) else None) = Some b"
  by simp

lemma num_acc_digits: "num_acc 0 (digits_nat n) = Some n"
proof (induction n rule: digits_nat.induct)
  case (1 n)
  show ?case
  proof (cases "n < 10")
    case True
    then show ?thesis by (subst digits_nat.simps) (simp add: dval_def Let_def)
  next
    case False
    with "1" have "num_acc 0 (digits_nat (n div 10)) = Some (n div 10)" by simp
    moreover have "dval (char_of (48 + n mod 10)) = Some (n mod 10)"
      by (simp add: dval_def Let_def)
    ultimately show ?thesis using False by (subst digits_nat.simps) (simp add: num_acc_append)
  qed
qed

lemma digits_nat_hd: "0 < n \<Longrightarrow> hd (digits_nat n) \<noteq> CHR ''0''"
proof (induction n rule: digits_nat.induct)
  case (1 n)
  show ?case
  proof (cases "n < 10")
    case True
    have "(of_char (char_of (48 + n) :: char) :: nat) \<noteq> of_char (CHR ''0'')" using True "1.prems" by simp
    then have "char_of (48 + n) \<noteq> CHR ''0''" by metis
    with True show ?thesis by (subst digits_nat.simps) simp
  next
    case False
    with "1" have "hd (digits_nat (n div 10)) \<noteq> CHR ''0''" by simp
    with False digits_nat_ne [of "n div 10"] show ?thesis by (subst digits_nat.simps) simp
  qed
qed

lemma unsigned_ok_digits: "unsigned_ok (digits_nat n)"
proof (cases "n = 0")
  case True
  have "digits_nat 0 = ''0''" by (simp add: digits_nat.simps char_of_eq_iff)
  then show ?thesis using True by (simp add: unsigned_ok_def frac_ok_def)
next
  case False
  obtain c r where cr: "digits_nat n = c # r" using digits_nat_ne [of n] by (cases "digits_nat n") auto
  have "c \<noteq> CHR ''0''" using digits_nat_hd [of n] False cr by simp
  moreover have "list_all is_digit (c # r)" using digits_nat_digits [of n] cr by simp
  then have "is_digit c" and r: "\<forall>x \<in> set r. is_digit x" by (auto simp: list_all_iff)
  moreover have "dropWhile is_digit r = []" using r by simp
  ultimately show ?thesis unfolding cr unsigned_ok_def frac_ok_def by (simp only: list.case if_False list.simps)
qed

lemma wf_jint [simp]: "wf_json (jint i)"
proof -
  have "num_ok (digits_nat n)" for n
    using unsigned_ok_digits [of n] digits_nat_ne [of n] digits_nat_digits [of n]
    by (auto simp: num_ok_def is_digit_def split: list.split)
  then show ?thesis using unsigned_ok_digits
    by (auto simp: jint_def Itoa_def num_ok_def)
qed

lemma parse_int_Itoa: "parse_int (Itoa i) = Some i"
proof (cases "i < 0")
  case True
  then show ?thesis using digits_nat_ne [of "nat (- i)"] num_acc_digits [of "nat (- i)"]
    by (simp add: Itoa_def parse_int_def)
next
  case False
  obtain c r where cr: "digits_nat (nat i) = c # r" using digits_nat_ne [of "nat i"]
    by (cases "digits_nat (nat i)") auto
  have "is_digit c" using digits_nat_digits [of "nat i"] cr by simp
  then have "c \<noteq> CHR ''-''" by (auto simp: is_digit_def)
  then show ?thesis using False cr num_acc_digits [of "nat i"] by (simp add: Itoa_def parse_int_def)
qed

lemma as_int_jint [simp]: "as_int (Some (jint i)) = Some i"
  by (simp add: jint_def parse_int_Itoa)

lemma as_int_oe [simp]: "as_int (if i = 0 then None else Some (jint i)) = Some i"
  "as_int (if i \<noteq> 0 then Some (jint i) else None) = Some i"
  by simp_all

lemma as_int_oe_nat [simp]:
  "as_int (if 0 < n then Some (jint (int n)) else None) = Some (int n)"
  by simp

lemma fld_Cons: "fld ((k', v) # r) k = orelse (fld r k) (if k' = k then Some v else None)"
  by (simp add: orelse_def)

lemmas fld_eval = fld_append fld_Cons

declare fld.simps(2) [simp del]

lemma dec_enc_Intent: "enc_Intent i = Some kvs \<Longrightarrow> dec_Intent kvs = Some i"
  by (clarsimp simp: enc_Intent_def bind_eq_Some_conv split: if_splits)
    (simp add: dec_Intent_def fld_eval parse_format_time)

lemma dec_enc_ExecutorRef: "dec_ExecutorRef (enc_ExecutorRef e) = Some e"
  by (simp add: enc_ExecutorRef_def dec_ExecutorRef_def fld_eval)

lemma dec_enc_tombstone: "enc_tombstone t = Some kvs \<Longrightarrow> dec_tombstone kvs = Some t"
  by (clarsimp simp: enc_tombstone_def bind_eq_Some_conv)
    (simp add: dec_tombstone_def fld_eval parse_format_time)

lemma dec_enc_ResultRecord: "enc_ResultRecord r = Some kvs \<Longrightarrow> dec_ResultRecord kvs = Some r"
  by (clarsimp simp: enc_ResultRecord_def bind_eq_Some_conv split: if_splits)
    (simp add: dec_ResultRecord_def fld_eval parse_format_time)

lemma wf_raw: "raw_ok r \<Longrightarrow> list_all (\<lambda>(k, v). wf_json v) (oe_raw k r)"
  by (cases r) (simp_all add: raw_ok_def oe_raw_def)

lemma wf_oe: "wf_json v \<Longrightarrow> list_all (\<lambda>(k, v). wf_json v) (oe b (k, v))"
  by (simp add: oe_def)

lemma wf_enc_Intent: "enc_Intent i = Some kvs \<Longrightarrow> list_all (\<lambda>(k, v). wf_json v) kvs"
  by (clarsimp simp: enc_Intent_def bind_eq_Some_conv wf_raw split: if_splits)

lemma wf_enc_ExecutorRef: "list_all (\<lambda>(k, v). wf_json v) (enc_ExecutorRef e)"
  by (simp add: enc_ExecutorRef_def wf_oe)

lemma wf_enc_ResultRecord: "enc_ResultRecord r = Some kvs \<Longrightarrow> list_all (\<lambda>(k, v). wf_json v) kvs"
  by (clarsimp simp: enc_ResultRecord_def bind_eq_Some_conv wf_raw wf_oe split: if_splits)

lemma wf_enc_tombstone: "enc_tombstone t = Some kvs \<Longrightarrow> list_all (\<lambda>(k, v). wf_json v) kvs"
  by (clarsimp simp: enc_tombstone_def bind_eq_Some_conv)

lemma wf_enc_ptr:
  assumes "enc_ptr k f p = Some kvs" "\<And>x l. f x = Some l \<Longrightarrow> list_all (\<lambda>(k, v). wf_json v) l"
  shows "list_all (\<lambda>(k, v). wf_json v) kvs"
  using assms by (auto simp: enc_ptr_def split: option.splits)

text \<open>A pointer field read back from a list of fields that holds it.\<close>

lemma as_ptr_enc:
  assumes "enc_ptr k f p = Some kvs" "\<And>x l. f x = Some l \<Longrightarrow> g l = Some x"
  shows "as_ptr g (fld kvs k) = Some p"
  using assms by (auto simp: enc_ptr_def fld_eval split: option.splits)

lemma fld_enc_ptr: "enc_ptr k' f p = Some kvs \<Longrightarrow> k' \<noteq> k \<Longrightarrow> fld kvs k = None"
  by (auto simp: enc_ptr_def fld_eval split: option.splits)

lemma wf_enc_logrec: "enc_logrec r = Some v \<Longrightarrow> wf_json v"
  by (clarsimp simp: enc_logrec_def bind_eq_Some_conv wf_oe)
    (intro conjI, auto elim!: wf_enc_ptr simp: wf_enc_Intent wf_enc_ExecutorRef wf_enc_ResultRecord
      wf_enc_tombstone)

lemma dec_enc_logrec:
  assumes "enc_logrec r = Some v"
  shows "dec_logrec v = Some r"
proof -
  obtain at i e s t where at: "format_time (rec_At r) = Some at"
    and i: "enc_ptr ''intent'' enc_Intent (rec_Intent r) = Some i"
    and e: "enc_ptr ''executor'' (\<lambda>x. Some (enc_ExecutorRef x)) (rec_Executor r) = Some e"
    and s: "enc_ptr ''result'' enc_ResultRecord (rec_Result r) = Some s"
    and t: "enc_ptr ''tombstone'' enc_tombstone (rec_Tombstone r) = Some t"
    and v: "v = JObj ([(''k'', JStr (Kind r))] @ oe (rec_ID r = []) (''id'', JStr (rec_ID r)) @
       [(''at'', JStr at)] @ i @ e @ s @
       oe (rec_Revision r = 0) (''rev'', jint (rec_Revision r)) @
       oe (\<not> rec_Rejected r) (''rejected'', JBool (rec_Rejected r)) @
       oe (rec_Generation r = 0) (''gen'', jint (rec_Generation r)) @ t)"
    using assms by (auto simp: enc_logrec_def bind_eq_Some_conv)
  have ptrs: "as_ptr dec_Intent (fld i ''intent'') = Some (rec_Intent r)"
    "as_ptr dec_ExecutorRef (fld e ''executor'') = Some (rec_Executor r)"
    "as_ptr dec_ResultRecord (fld s ''result'') = Some (rec_Result r)"
    "as_ptr dec_tombstone (fld t ''tombstone'') = Some (rec_Tombstone r)"
    using as_ptr_enc [OF i dec_enc_Intent] as_ptr_enc [OF e] dec_enc_ExecutorRef
      as_ptr_enc [OF s dec_enc_ResultRecord] as_ptr_enc [OF t dec_enc_tombstone]
    by auto
  show ?thesis
    unfolding v dec_logrec_def
    by (simp add: fld_eval fld_enc_ptr [OF i] fld_enc_ptr [OF e] fld_enc_ptr [OF s] fld_enc_ptr [OF t]
        ptrs parse_format_time [OF at])
qed

lemma string_bytes [simp]: "string_of (bytes_of s) = s"
proof -
  have "char_of (unat (of_nat (of_char c) :: byte)) = c" for c
  proof -
    have "(of_char c :: nat) < 256" by (rule nat_of_char_less_256)
    then show ?thesis by (simp add: unat_of_nat)
  qed
  then show ?thesis by (simp add: string_of_def bytes_of_def comp_def)
qed

lemma unmarshal_marshal: "marshal r = Some bs \<Longrightarrow> unmarshal bs = Some r"
  by (auto simp: marshal_def unmarshal_def parse_print_json wf_enc_logrec dec_enc_logrec)

lemma unmarshal_Nil: "unmarshal [] = None"
  by (simp add: unmarshal_def string_of_def parse_json_empty)

end
