(* ===== verification/Journal_Log.thy ===== *)
theory Journal_Log
  imports Journal_Codec
begin

text \<open>
  The log of the Guard journal (\<^verbatim>\<open>src/pkg/agent/journal/store.go\<close>): the framing of a record on
  disk (\<^verbatim>\<open>encodeRecord\<close>, \<^verbatim>\<open>decodeRecord\<close>), the effect of a record on the in-memory state
  (\<^verbatim>\<open>apply\<close>), and the replay of a file (\<^verbatim>\<open>replay\<close>, \<^verbatim>\<open>replayPrefixOnly\<close>).  The lemmas show
  that a framed record is read back, that a log of records replays to the fold of their effects,
  and that a record cut off anywhere is seen as a torn tail.
\<close>

section \<open>Framing\<close>

definition magic :: "byte list" where "magic = bytes_of (''KGJRNL1'' @ [CHR 0x0A])"
definition headerSize :: nat where "headerSize = 16"
definition recHeaderLen :: nat where "recHeaderLen = 8"
definition maxRecordExtra :: int where "maxRecordExtra = 2 ^ 20"

text \<open>The 16-byte file header: magic, schema version, four zero bytes.\<close>

definition log_header :: "byte list" where
  "log_header = magic @ PutUint32 (of_int SchemaVersion) @ replicate 4 0"

definition encodeRecord :: "logrec \<Rightarrow> jerror + byte list" where
  "encodeRecord r =
     (case marshal r of
        None \<Rightarrow> Inl (ErrOther ''json: unsupported value'')
      | Some payload \<Rightarrow>
          if length payload > 4294967295 then Inl ErrEntryTooLarge
          else Inr (PutUint32 (of_nat (length payload)) @ PutUint32 (crc32c payload) @ payload))"

datatype decode_error =
    TornTail
  | DeclaresBytes nat nat
  | ChecksumMismatch nat
  | NotValid nat

definition decode_error_text :: "decode_error \<Rightarrow> string" where
  "decode_error_text e =
     (case e of
        TornTail \<Rightarrow> ''torn tail''
      | DeclaresBytes off n \<Rightarrow>
          ''record at offset '' @ Itoa (int off) @ '' declares '' @ Itoa (int n) @ '' bytes''
      | ChecksumMismatch off \<Rightarrow> ''checksum mismatch at offset '' @ Itoa (int off)
      | NotValid off \<Rightarrow> ''record at offset '' @ Itoa (int off) @ '' is not valid'')"

definition decodeRecord :: "byte list \<Rightarrow> nat \<Rightarrow> int \<Rightarrow> decode_error + (logrec \<times> nat)" where
  "decodeRecord data off maxRecord =
     (let total = length data in
      if total - off < recHeaderLen then Inl TornTail
      else let len = unat (Uint32 (drop off data)); chk = Uint32 (drop (off + 4) data) in
        if int len > maxRecord then Inl (DeclaresBytes off len)
        else let fin = off + recHeaderLen + len in
          if fin > total then Inl TornTail
          else let payload = take len (drop (off + recHeaderLen) data) in
            if crc32c payload \<noteq> chk
            then Inl (if fin = total then TornTail else ChecksumMismatch off)
            else case unmarshal payload of
                None \<Rightarrow> Inl (NotValid off)
              | Some r \<Rightarrow> Inr (r, fin))"

section \<open>The effect of a record\<close>

record jmem =
  entries :: "(string, entryState) fmap"
  tombs :: "(string, tombstone) fmap"
  highGen :: int

definition empty_mem :: jmem where
  "empty_mem = \<lparr>entries = fmempty, tombs = fmempty, highGen = 0\<rparr>"

definition new_entry :: "Intent \<Rightarrow> gtime \<Rightarrow> entryState" where
  "new_entry i at = recompute \<lparr>en_Intent = i, en_State = StateIntent, en_IntentAt = at,
     en_DispatchedAt = 0, en_Executor = None, en_Results = [], en_AckedRevision = 0,
     en_Rejected = False, ackedAt = 0\<rparr>"

definition upd_entry :: "string \<Rightarrow> entryState \<Rightarrow> jmem \<Rightarrow> jmem" where
  "upd_entry k e m = m\<lparr>entries := fmupd k e (entries m)\<rparr>"

definition apply_ack :: "logrec \<Rightarrow> entryState \<Rightarrow> entryState" where
  "apply_ack r e =
     (let e1 = (if rec_Revision r > en_AckedRevision e
                then e\<lparr>en_AckedRevision := rec_Revision r, ackedAt := rec_At r\<rparr> else e);
          e2 = (if rec_Rejected r then e1\<lparr>en_Rejected := True\<rparr> else e1)
      in recompute e2)"

definition apply_log :: "logrec \<Rightarrow> jmem \<Rightarrow> string + jmem" where
  "apply_log r m =
     (if Kind r = ''gen'' then
        Inr (if rec_Generation r > highGen m then m\<lparr>highGen := rec_Generation r\<rparr> else m)
      else if Kind r = ''intent'' then
        (case rec_Intent r of
           None \<Rightarrow> Inl ''intent without identity''
         | Some i \<Rightarrow>
             if CommandID i = [] then Inl ''intent without identity''
             else if fmlookup (entries m) (CommandID i) \<noteq> None then Inl ''duplicate intent''
             else let m1 = upd_entry (CommandID i) (new_entry i (rec_At r)) m
               in Inr (if Generation i > highGen m1 then m1\<lparr>highGen := Generation i\<rparr> else m1))
      else if Kind r = ''dispatched'' then
        (case fmlookup (entries m) (rec_ID r) of
           None \<Rightarrow> Inl ''dispatched marker without intent''
         | Some e \<Rightarrow> Inr (upd_entry (rec_ID r) (recompute (e\<lparr>en_DispatchedAt := rec_At r\<rparr>)) m))
      else if Kind r = ''executor'' then
        (case (fmlookup (entries m) (rec_ID r), rec_Executor r) of
           (Some e, Some x) \<Rightarrow> Inr (upd_entry (rec_ID r) (e\<lparr>en_Executor := Some x\<rparr>) m)
         | _ \<Rightarrow> Inl ''executor record without intent'')
      else if Kind r = ''result'' then
        (case (fmlookup (entries m) (rec_ID r), rec_Result r) of
           (Some e, Some x) \<Rightarrow>
             if rr_Revision x \<noteq> int (length (en_Results e)) + 1 then Inl ''result record out of order''
             else Inr (upd_entry (rec_ID r) (recompute (e\<lparr>en_Results := en_Results e @ [x]\<rparr>)) m)
         | _ \<Rightarrow> Inl ''result record out of order'')
      else if Kind r = ''ack'' then
        (case fmlookup (entries m) (rec_ID r) of
           None \<Rightarrow> Inl ''ack for unknown revision''
         | Some e \<Rightarrow>
             if rec_Revision r < 1 \<or> rec_Revision r > int (length (en_Results e))
             then Inl ''ack for unknown revision''
             else Inr (upd_entry (rec_ID r) (apply_ack r e) m))
      else if Kind r = ''tombstone'' then
        (case rec_Tombstone r of
           None \<Rightarrow> Inl ''tombstone without identity''
         | Some t \<Rightarrow>
             if rec_ID r = [] then Inl ''tombstone without identity''
             else Inr (m\<lparr>entries := fmdrop (rec_ID r) (entries m), tombs := fmupd (rec_ID r) t (tombs m)\<rparr>))
      else Inl (''unknown record kind '' @ [CHR 0x22] @ Kind r @ [CHR 0x22]))"

fun apply_all :: "logrec list \<Rightarrow> jmem \<Rightarrow> string + jmem" where
  "apply_all [] m = Inr m"
| "apply_all (r # rs) m = (case apply_log r m of Inl e \<Rightarrow> Inl e | Inr m' \<Rightarrow> apply_all rs m')"

section \<open>Replay\<close>

function replay :: "int \<Rightarrow> byte list \<Rightarrow> nat \<Rightarrow> jmem \<Rightarrow> string + (nat \<times> bool \<times> jmem)" where
  "replay maxRecord data off m =
     (if off < length data then
        (case decodeRecord data off maxRecord of
           Inl TornTail \<Rightarrow> Inr (off, True, m)
         | Inl e \<Rightarrow> Inl (decode_error_text e)
         | Inr (r, next) \<Rightarrow>
             (case apply_log r m of
                Inl e \<Rightarrow> Inl (''record at offset '' @ Itoa (int off) @ '': '' @ e)
              | Inr m' \<Rightarrow> replay maxRecord data next m'))
      else Inr (off, False, m))"
  by pat_completeness auto

lemma decodeRecord_next: "decodeRecord data off mr = Inr (r, next) \<Longrightarrow> off + 8 \<le> next \<and> next \<le> length data"
  by (auto simp: decodeRecord_def Let_def recHeaderLen_def split: if_splits option.splits)

termination replay
  by (relation "measure (\<lambda>(mr, data, off, m). length data - off)") (auto dest!: decodeRecord_next)

declare replay.simps [simp del]

function replayPrefixOnly :: "int \<Rightarrow> byte list \<Rightarrow> nat \<Rightarrow> jmem \<Rightarrow> jmem" where
  "replayPrefixOnly maxRecord data off m =
     (if off + recHeaderLen \<le> length data then
        (case decodeRecord data off maxRecord of
           Inl e \<Rightarrow> m
         | Inr (r, next) \<Rightarrow>
             (case apply_log r m of
                Inl e \<Rightarrow> m
              | Inr m' \<Rightarrow> replayPrefixOnly maxRecord data next m'))
      else m)"
  by pat_completeness auto

termination replayPrefixOnly
  by (relation "measure (\<lambda>(mr, data, off, m). length data - off)")
    (auto simp: recHeaderLen_def dest!: decodeRecord_next)

declare replayPrefixOnly.simps [simp del]

section \<open>Reading back what was written\<close>

text \<open>The framed record, when it can be written and a reader accepts its declared length.\<close>

definition frame :: "int \<Rightarrow> logrec \<Rightarrow> byte list option" where
  "frame maxRecord r =
     (case encodeRecord r of Inl e \<Rightarrow> None
      | Inr bs \<Rightarrow> if int (length bs) > maxRecord + int recHeaderLen then None else Some bs)"

lemma encodeRecord_InrD:
  assumes "encodeRecord r = Inr bs"
  obtains p where "marshal r = Some p" "length p < 2 ^ 32"
    "bs = PutUint32 (of_nat (length p)) @ PutUint32 (crc32c p) @ p"
  using assms by (auto simp: encodeRecord_def split: option.splits if_splits)

lemma length_encodeRecord: "encodeRecord r = Inr bs \<Longrightarrow> 8 \<le> length bs"
  by (auto elim!: encodeRecord_InrD)

lemma unat_of_nat32: "n < 2 ^ 32 \<Longrightarrow> unat (of_nat n :: 32 word) = n"
  by (simp add: unat_of_nat)

lemma Uint32_put: "Uint32 (drop (length pre) (pre @ PutUint32 w @ rest)) = w"
  by (simp add: Uint32_PutUint32)

lemma Uint32_put4:
  "Uint32 (drop (length pre + 4) (pre @ PutUint32 v @ PutUint32 w @ rest)) = w"
  using Uint32_put [of "pre @ PutUint32 v" w rest] by simp

text \<open>What a reader sees of a whole record, whatever precedes and follows it.\<close>

lemma decode_encode_gen:
  assumes "encodeRecord r = Inr bs"
  shows "decodeRecord (pre @ bs @ post) (length pre) maxRecord =
    (if int (length bs) > maxRecord + int recHeaderLen
     then Inl (DeclaresBytes (length pre) (length bs - recHeaderLen))
     else Inr (r, length pre + length bs))"
proof -
  obtain p where p: "marshal r = Some p" "length p < 2 ^ 32"
    and bs: "bs = PutUint32 (of_nat (length p)) @ PutUint32 (crc32c p) @ p"
    using assms(1) by (rule encodeRecord_InrD)
  have len: "unat (Uint32 (drop (length pre) (pre @ bs @ post))) = length p"
    using Uint32_put [of pre "of_nat (length p)"] p(2) by (simp add: bs unat_of_nat32)
  have chk: "Uint32 (drop (length pre + 4) (pre @ bs @ post)) = crc32c p"
    using Uint32_put4 [of pre "of_nat (length p)" "crc32c p" "p @ post"] by (simp add: bs)
  have pay: "take (length p) (drop (length pre + recHeaderLen) (pre @ bs @ post)) = p"
    by (simp add: bs recHeaderLen_def)
  have lbs: "length bs = 8 + length p" by (simp add: bs)
  show ?thesis
    unfolding decodeRecord_def Let_def len chk pay
    using unmarshal_marshal [OF p(1)] by (simp add: lbs recHeaderLen_def)
qed

text \<open>A record that was cut off is a torn tail, wherever the cut is.\<close>

lemma decode_torn_gen:
  assumes "encodeRecord r = Inr bs" "k < length bs"
  shows "decodeRecord (pre @ take k bs) (length pre) maxRecord =
    (if int (length bs) > maxRecord + int recHeaderLen \<and> recHeaderLen \<le> k
     then Inl (DeclaresBytes (length pre) (length bs - recHeaderLen)) else Inl TornTail)"
proof (cases "k < 8")
  case True
  then show ?thesis using assms(2) by (simp add: decodeRecord_def recHeaderLen_def)
next
  case False
  obtain p where p: "marshal r = Some p" "length p < 2 ^ 32"
    and bs: "bs = PutUint32 (of_nat (length p)) @ PutUint32 (crc32c p) @ p"
    using assms(1) by (rule encodeRecord_InrD)
  have tk: "take k bs = PutUint32 (of_nat (length p)) @ PutUint32 (crc32c p) @ take (k - 8) p"
    using False by (simp add: bs)
  have len: "unat (Uint32 (drop (length pre) (pre @ take k bs))) = length p"
    using Uint32_put [of pre "of_nat (length p)"] p(2) by (simp add: tk unat_of_nat32)
  have lbs: "length bs = 8 + length p" by (simp add: bs)
  show ?thesis
    unfolding decodeRecord_def Let_def len
    using assms(2) False by (simp add: lbs recHeaderLen_def)
qed

lemma frame_SomeD:
  assumes "frame mr r = Some bs"
  shows "encodeRecord r = Inr bs" "int (length bs) \<le> mr + int recHeaderLen"
  using assms by (auto simp: frame_def split: sum.splits if_splits)

lemma decode_frame:
  "frame mr r = Some bs \<Longrightarrow>
   decodeRecord (pre @ bs @ post) (length pre) mr = Inr (r, length pre + length bs)"
  using frame_SomeD [of mr r bs] by (simp add: decode_encode_gen)

lemma decode_frame_torn:
  "frame mr r = Some bs \<Longrightarrow> k < length bs \<Longrightarrow>
   decodeRecord (pre @ take k bs) (length pre) mr = Inl TornTail"
  using frame_SomeD [of mr r bs] by (simp add: decode_torn_gen)

section \<open>A log of records\<close>

fun frames :: "int \<Rightarrow> logrec list \<Rightarrow> byte list option" where
  "frames mr [] = Some []"
| "frames mr (r # rs) =
     (case frame mr r of None \<Rightarrow> None | Some b \<Rightarrow> map_option (\<lambda>bs. b @ bs) (frames mr rs))"

lemma frames_append:
  "frames mr (xs @ ys) =
     (case frames mr xs of None \<Rightarrow> None | Some a \<Rightarrow> map_option (\<lambda>b. a @ b) (frames mr ys))"
  by (cases "frames mr ys"; induction xs) (auto split: option.split)

lemma apply_all_append:
  "apply_all (xs @ ys) m = (case apply_all xs m of Inl e \<Rightarrow> Inl e | Inr m' \<Rightarrow> apply_all ys m')"
  by (induction xs arbitrary: m) (auto split: sum.split)

lemma replay_step:
  assumes "frame mr r = Some b" "apply_log r m = Inr m'"
  shows "replay mr (pre @ b @ post) (length pre) m = replay mr (pre @ b @ post) (length pre + length b) m'"
proof -
  have "0 < length b" using length_encodeRecord [OF frame_SomeD(1) [OF assms(1)]] by linarith
  then show ?thesis
    using decode_frame [OF assms(1), of pre post] assms(2)
    by (subst replay.simps) simp
qed

lemma replay_frames_from:
  assumes "frames mr rs = Some bs" "apply_all rs m = Inr m'"
  shows "replay mr (pre @ bs @ post) (length pre) m = replay mr (pre @ bs @ post) (length pre + length bs) m'"
  using assms
proof (induction rs arbitrary: pre bs m)
  case Nil then show ?case by simp
next
  case (Cons r rs)
  obtain b cs where b: "frame mr r = Some b" "frames mr rs = Some cs" "bs = b @ cs"
    using Cons.prems(1) by (auto split: option.splits)
  obtain m1 where m1: "apply_log r m = Inr m1" "apply_all rs m1 = Inr m'"
    using Cons.prems(2) by (auto split: sum.splits)
  have "replay mr (pre @ bs @ post) (length pre) m =
        replay mr ((pre @ b) @ cs @ post) (length (pre @ b)) m1"
    using replay_step [OF b(1) m1(1), of pre "cs @ post"] b(3) by simp
  also have "\<dots> = replay mr ((pre @ b) @ cs @ post) (length (pre @ b) + length cs) m'"
    using b(2) m1(2) by (rule Cons.IH)
  finally show ?case using b(3) by (simp add: add.assoc)
qed

lemma replay_end: "replay mr data (length data) m = Inr (length data, False, m)"
  by (subst replay.simps) simp

lemma replay_frames:
  assumes "frames mr rs = Some bs" "apply_all rs m = Inr m'"
  shows "replay mr (pre @ bs) (length pre) m = Inr (length pre + length bs, False, m')"
  using replay_frames_from [OF assms, of pre "[]"] replay_end [of mr "pre @ bs" m'] by simp

lemma replay_torn:
  assumes "frames mr rs = Some bs" "apply_all rs m = Inr m'" "frame mr r = Some b" "0 < k" "k < length b"
  shows "replay mr (pre @ bs @ take k b) (length pre) m = Inr (length pre + length bs, True, m')"
proof -
  have "decodeRecord ((pre @ bs) @ take k b) (length (pre @ bs)) mr = Inl TornTail"
    using assms(3,5) by (rule decode_frame_torn)
  moreover have "replay mr (pre @ bs @ take k b) (length pre) m =
      replay mr (pre @ bs @ take k b) (length pre + length bs) m'"
    using assms(1,2) by (rule replay_frames_from)
  ultimately show ?thesis
    using assms(4,5) by (simp add: replay.simps [of mr _ "length pre + length bs"])
qed

text \<open>
  A log whose records were all encoded, with a possibly cut last one, replays to the effects of the
  whole records or is refused; it never replays to anything else.
\<close>

fun encs :: "logrec list \<Rightarrow> byte list option" where
  "encs [] = Some []"
| "encs (r # rs) =
     (case encodeRecord r of Inl e \<Rightarrow> None | Inr b \<Rightarrow> map_option (\<lambda>bs. b @ bs) (encs rs))"

lemma encs_append:
  "encs (xs @ ys) = (case encs xs of None \<Rightarrow> None | Some a \<Rightarrow> map_option (\<lambda>b. a @ b) (encs ys))"
  by (cases "encs ys"; induction xs) (auto split: option.split sum.split)

lemma frames_encs: "frames mr rs = Some bs \<Longrightarrow> encs rs = Some bs"
  by (induction rs arbitrary: bs) (auto split: option.splits dest!: frame_SomeD(1))

definition cut_record :: "byte list \<Rightarrow> bool" where
  "cut_record tail \<longleftrightarrow> tail = [] \<or> (\<exists>r b k. encodeRecord r = Inr b \<and> k < length b \<and> tail = take k b)"

lemma replay_cut_record:
  assumes "cut_record tail"
  shows "replay mr (pre @ tail) (length pre) m = Inr (length pre, tail \<noteq> [], m) \<or>
    (\<exists>e. replay mr (pre @ tail) (length pre) m = Inl e)"
  using assms unfolding cut_record_def
  by (subst (1 2) replay.simps) (auto simp: decode_torn_gen)

lemma replay_encs:
  assumes "encs rs = Some bs" "apply_all rs m = Inr m'" "cut_record tail"
  shows "replay mr (pre @ bs @ tail) (length pre) m = Inr (length pre + length bs, tail \<noteq> [], m') \<or>
    (\<exists>e. replay mr (pre @ bs @ tail) (length pre) m = Inl e)"
  using assms(1,2)
proof (induction rs arbitrary: pre bs m)
  case Nil
  then show ?case using replay_cut_record [OF assms(3)] by auto
next
  case (Cons r rs)
  obtain b cs where b: "encodeRecord r = Inr b" "encs rs = Some cs" "bs = b @ cs"
    using Cons.prems(1) by (auto split: sum.splits)
  obtain m1 where m1: "apply_log r m = Inr m1" "apply_all rs m1 = Inr m'"
    using Cons.prems(2) by (auto split: sum.splits)
  show ?case
  proof (cases "int (length b) > mr + int recHeaderLen")
    case True
    then have "decodeRecord (pre @ bs @ tail) (length pre) mr =
        Inl (DeclaresBytes (length pre) (length b - recHeaderLen))"
      using decode_encode_gen [OF b(1), of pre "cs @ tail" mr] b(3) by simp
    moreover have "0 < length b" using length_encodeRecord [OF b(1)] by linarith
    ultimately show ?thesis using b(3) by (subst (1 2) replay.simps) simp
  next
    case False
    then have f: "frame mr r = Some b" using b(1) by (simp add: frame_def)
    have eq: "replay mr (pre @ bs @ tail) (length pre) m =
        replay mr ((pre @ b) @ cs @ tail) (length (pre @ b)) m1"
      using replay_step [OF f m1(1), of pre "cs @ tail"] b(3) by simp
    show ?thesis
      using Cons.IH [OF b(2) m1(2), of "pre @ b"] eq b(3) by (simp add: add.assoc)
  qed
qed

lemma length_log_header [simp]: "length log_header = headerSize"
  by (simp add: log_header_def magic_def bytes_of_def headerSize_def)

section \<open>What every replayed memory satisfies\<close>

definition wf_entry :: "string \<Rightarrow> entryState \<Rightarrow> bool" where
  "wf_entry k e \<longleftrightarrow>
     CommandID (en_Intent e) = k \<and> k \<noteq> [] \<and> recompute e = e \<and>
     map rr_Revision (en_Results e) = map (\<lambda>i. int i + 1) [0..<length (en_Results e)] \<and>
     0 \<le> en_AckedRevision e \<and> en_AckedRevision e \<le> int (length (en_Results e)) \<and>
     (en_AckedRevision e = 0 \<longrightarrow> \<not> en_Rejected e \<and> ackedAt e = 0)"

definition wf_mem :: "jmem \<Rightarrow> bool" where
  "wf_mem m \<longleftrightarrow>
     (\<forall>k e. fmlookup (entries m) k = Some e \<longrightarrow> wf_entry k e \<and> Generation (en_Intent e) \<le> highGen m) \<and>
     0 \<le> highGen m \<and> fmlookup (tombs m) [] = None"

lemma wf_mem_empty: "wf_mem empty_mem"
  by (simp add: wf_mem_def empty_mem_def)

lemma wf_memD:
  assumes "wf_mem m" "fmlookup (entries m) k = Some e"
  shows "wf_entry k e" "Generation (en_Intent e) \<le> highGen m"
  using assms by (auto simp: wf_mem_def)

lemma wf_mem_upd:
  assumes "wf_mem m" "wf_entry k e" "Generation (en_Intent e) \<le> highGen m"
  shows "wf_mem (upd_entry k e m)"
  using assms by (auto simp: wf_mem_def upd_entry_def)

lemma wf_mem_raise: "wf_mem m \<Longrightarrow> highGen m \<le> g \<Longrightarrow> wf_mem (m\<lparr>highGen := g\<rparr>)"
  by (fastforce simp: wf_mem_def)

lemma wf_new_entry: "CommandID i \<noteq> [] \<Longrightarrow> wf_entry (CommandID i) (new_entry i t)"
  by (simp add: wf_entry_def new_entry_def)

lemma Generation_new_entry: "Generation (en_Intent (new_entry i t)) = Generation i"
  by (simp add: new_entry_def)

lemma wf_entry_dispatched: "wf_entry k e \<Longrightarrow> wf_entry k (recompute (e\<lparr>en_DispatchedAt := t\<rparr>))"
  by (simp add: wf_entry_def)

lemma recompute_executor: "recompute e = e \<Longrightarrow> recompute (e\<lparr>en_Executor := x\<rparr>) = e\<lparr>en_Executor := x\<rparr>"
  by (cases e) (auto simp: recompute_def Latest_def split: if_splits)

lemma wf_entry_executor: "wf_entry k e \<Longrightarrow> wf_entry k (e\<lparr>en_Executor := x\<rparr>)"
  by (simp add: wf_entry_def recompute_executor)

lemma wf_entry_result:
  "wf_entry k e \<Longrightarrow> rr_Revision x = int (length (en_Results e)) + 1 \<Longrightarrow>
   wf_entry k (recompute (e\<lparr>en_Results := en_Results e @ [x]\<rparr>))"
  by (auto simp: wf_entry_def)

lemma wf_entry_ack:
  "wf_entry k e \<Longrightarrow> 1 \<le> rec_Revision r \<Longrightarrow> rec_Revision r \<le> int (length (en_Results e)) \<Longrightarrow>
   wf_entry k (apply_ack r e)"
  by (auto simp: wf_entry_def apply_ack_def Let_def)

lemma en_Intent_apply_ack [simp]: "en_Intent (apply_ack r e) = en_Intent e"
  by (simp add: apply_ack_def Let_def)

text \<open>The ways in which a record takes effect.\<close>

lemma apply_log_InrE [consumes 1, case_names gen intent dispatched executor result ack tombstone]:
  assumes "apply_log r m = Inr m'"
  obtains
    "Kind r = ''gen''" "m' = m\<lparr>highGen := max (highGen m) (rec_Generation r)\<rparr>"
  | i where "Kind r = ''intent''" "rec_Intent r = Some i" "CommandID i \<noteq> []"
      "fmlookup (entries m) (CommandID i) = None"
      "m' = (upd_entry (CommandID i) (new_entry i (rec_At r)) m)
              \<lparr>highGen := max (highGen m) (Generation i)\<rparr>"
  | e where "Kind r = ''dispatched''" "fmlookup (entries m) (rec_ID r) = Some e"
      "m' = upd_entry (rec_ID r) (recompute (e\<lparr>en_DispatchedAt := rec_At r\<rparr>)) m"
  | e x where "Kind r = ''executor''" "fmlookup (entries m) (rec_ID r) = Some e"
      "rec_Executor r = Some x" "m' = upd_entry (rec_ID r) (e\<lparr>en_Executor := Some x\<rparr>) m"
  | e x where "Kind r = ''result''" "fmlookup (entries m) (rec_ID r) = Some e"
      "rec_Result r = Some x" "rr_Revision x = int (length (en_Results e)) + 1"
      "m' = upd_entry (rec_ID r) (recompute (e\<lparr>en_Results := en_Results e @ [x]\<rparr>)) m"
  | e where "Kind r = ''ack''" "fmlookup (entries m) (rec_ID r) = Some e"
      "1 \<le> rec_Revision r" "rec_Revision r \<le> int (length (en_Results e))"
      "m' = upd_entry (rec_ID r) (apply_ack r e) m"
  | t where "Kind r = ''tombstone''" "rec_Tombstone r = Some t" "rec_ID r \<noteq> []"
      "m' = m\<lparr>entries := fmdrop (rec_ID r) (entries m), tombs := fmupd (rec_ID r) t (tombs m)\<rparr>"
proof -
  have hg: "(if a < b then x\<lparr>highGen := b\<rparr> else x) = x\<lparr>highGen := max a b\<rparr>"
    if "highGen x = a" for a b :: int and x :: jmem
    using that by (cases x) (auto simp: max_def)
  consider "Kind r = ''gen''" | "Kind r = ''intent''" | "Kind r = ''dispatched''"
    | "Kind r = ''executor''" | "Kind r = ''result''" | "Kind r = ''ack''" | "Kind r = ''tombstone''"
    using assms by (fastforce simp: apply_log_def split: if_splits)
  then show thesis
    by cases (use assms in \<open>auto simp: apply_log_def Let_def hg upd_entry_def
        split: if_splits option.splits intro: that\<close>)
qed

lemma wf_mem_apply:
  assumes "wf_mem m" "apply_log r m = Inr m'"
  shows "wf_mem m'"
  using assms(2)
proof (cases rule: apply_log_InrE)
  case gen
  then show ?thesis using wf_mem_raise [OF assms(1)] by simp
next
  case (intent i)
  have "wf_mem (m\<lparr>highGen := max (highGen m) (Generation i)\<rparr>)"
    using assms(1) by (rule wf_mem_raise) simp
  then have "wf_mem (upd_entry (CommandID i) (new_entry i (rec_At r)) (m\<lparr>highGen := max (highGen m) (Generation i)\<rparr>))"
    by (rule wf_mem_upd) (use intent in \<open>auto intro: wf_new_entry simp: Generation_new_entry\<close>)
  then show ?thesis using intent by (cases m) (simp add: upd_entry_def)
next
  case (tombstone t)
  then show ?thesis using assms(1) by (auto simp: wf_mem_def)
qed (auto intro!: wf_mem_upd wf_entry_dispatched wf_entry_executor wf_entry_result wf_entry_ack
    dest: wf_memD [OF assms(1)] simp: assms(1))

lemma wf_mem_apply_all: "wf_mem m \<Longrightarrow> apply_all rs m = Inr m' \<Longrightarrow> wf_mem m'"
  by (induction rs arbitrary: m) (auto split: sum.splits dest: wf_mem_apply)

text \<open>Replaying any file, written by this program or not, gives a well-formed memory.\<close>

lemma wf_mem_replay: "wf_mem m \<Longrightarrow> replay mr data off m = Inr (good, torn, m') \<Longrightarrow> wf_mem m'"
proof (induction mr data off m rule: replay.induct)
  case (1 mr data off m)
  from "1.prems"(2) consider "m' = m" | r nxt m1 where "off < length data"
      "decodeRecord data off mr = Inr (r, nxt)" "apply_log r m = Inr m1"
      "replay mr data nxt m1 = Inr (good, torn, m')"
    by (subst (asm) replay.simps) (auto split: if_splits sum.splits decode_error.splits prod.splits)
  then show ?case
  proof cases
    case 1
    then show ?thesis using "1.prems"(1) by simp
  next
    case 2
    show ?thesis by (rule "1.IH" [OF 2(1,2) refl 2(3)]) (use "1.prems"(1) 2(3,4) wf_mem_apply in auto)
  qed
qed

lemma wf_mem_replayPrefixOnly: "wf_mem m \<Longrightarrow> wf_mem (replayPrefixOnly mr data off m)"
proof (induction mr data off m rule: replayPrefixOnly.induct)
  case (1 mr data off m)
  then show ?case
    by (subst replayPrefixOnly.simps) (auto split: sum.split prod.split simp: wf_mem_apply)
qed

end
