(* ===== verification/Journal_Store.thy ===== *)
theory Journal_Store
  imports Journal_Log "HOL-Library.Product_Lexorder"
begin

text \<open>
  The journal store (\<^verbatim>\<open>src/pkg/agent/journal/store.go\<close>).  The state is the \<^verbatim>\<open>Store\<close> struct
  together with the file system it works on: inodes with their contents and the directory entry of
  the log, so that an open handle and the name \<^verbatim>\<open>guard-journal.log\<close> may denote different files.
  Every system call has its outcome in the \<^verbatim>\<open>io\<close> argument of the operation that issues it: a
  successful call, or an error after the stated part of the effect.  A call under the store's mutex
  is one operation of the model.
\<close>

section \<open>Files\<close>

record ioerr =
  e_msg :: string
  e_nospace :: bool

record fsys =
  inodes :: "nat \<Rightarrow> byte list"
  dirent :: "nat option"
  next_ino :: nat

definition write_at :: "nat \<Rightarrow> byte list \<Rightarrow> byte list \<Rightarrow> byte list" where
  "write_at off bs data =
     take off data @ replicate (off - length data) 0 @ bs @ drop (off + length bs) data"

definition truncate_to :: "nat \<Rightarrow> byte list \<Rightarrow> byte list" where
  "truncate_to n data = take n data @ replicate (n - length data) 0"

definition set_inode :: "nat \<Rightarrow> byte list \<Rightarrow> fsys \<Rightarrow> fsys" where
  "set_inode i bs f = f\<lparr>inodes := (inodes f)(i := bs)\<rparr>"

definition os_ErrInvalid :: ioerr where
  "os_ErrInvalid = \<lparr>e_msg = ''invalid argument'', e_nospace = False\<rparr>"

text \<open>\<^verbatim>\<open>File.WriteAt\<close>: all of \<open>bs\<close>, or an error after the first \<open>k\<close> bytes of it.\<close>

definition WriteAt :: "nat option \<Rightarrow> byte list \<Rightarrow> nat \<Rightarrow> (nat \<times> ioerr) option \<Rightarrow> fsys \<Rightarrow> ioerr option \<times> fsys" where
  "WriteAt h bs off out f =
     (case h of None \<Rightarrow> (Some os_ErrInvalid, f)
      | Some i \<Rightarrow>
          (case out of
             None \<Rightarrow> (None, set_inode i (write_at off bs (inodes f i)) f)
           | Some (k, e) \<Rightarrow> (Some e, set_inode i (write_at off (take k bs) (inodes f i)) f)))"

definition Truncate :: "nat option \<Rightarrow> nat \<Rightarrow> ioerr option \<Rightarrow> fsys \<Rightarrow> ioerr option \<times> fsys" where
  "Truncate h n out f =
     (case h of None \<Rightarrow> (Some os_ErrInvalid, f)
      | Some i \<Rightarrow>
          (case out of
             None \<Rightarrow> (None, set_inode i (truncate_to n (inodes f i)) f)
           | Some e \<Rightarrow> (Some e, f)))"

section \<open>The store\<close>

record Store =
  opts :: Options
  lock_held :: bool
  handle :: "nat option"
  ssize :: nat
  mem :: jmem
  denied :: "DeniedError option"
  tornRepaired :: bool
  schema :: int
  fs :: fsys

text \<open>Outcomes of the system calls and of the clock during one operation.\<close>

record io =
  io_now :: gtime
  io_cnow :: gtime
  io_write :: "(nat \<times> ioerr) option"
  io_sync :: "ioerr option"
  io_trunc :: "ioerr option"
  io_tmp :: "ioerr option"
  io_twrite :: "nat \<Rightarrow> ioerr option"
  io_tsync :: "ioerr option"
  io_rename :: "ioerr option"
  io_dirsync :: "ioerr option"
  io_free :: "ioerr + nat"
  io_lock :: "ioerr option"
  io_read :: "ioerr option"
  io_open :: "ioerr option"
  io_stat :: "ioerr option"
  io_zwrite :: "nat \<Rightarrow> (nat \<times> ioerr) option"
  io_zsync :: "ioerr option"
  io_remove :: "ioerr option"

text \<open>The calls all succeed, the clock reads \<open>t\<close> and the volume has \<open>n\<close> free bytes.\<close>

definition good_io :: "gtime \<Rightarrow> nat \<Rightarrow> io" where
  "good_io t n = \<lparr>io_now = t, io_cnow = t, io_write = None, io_sync = None, io_trunc = None,
     io_tmp = None, io_twrite = (\<lambda>_. None), io_tsync = None, io_rename = None, io_dirsync = None,
     io_free = Inr n, io_lock = None, io_read = None, io_open = None, io_stat = None,
     io_zwrite = (\<lambda>_. None), io_zsync = None, io_remove = None\<rparr>"

definition maxRecord :: "Options \<Rightarrow> int" where
  "maxRecord o' = MaxResultBytes o' + maxRecordExtra"

definition deny :: "string \<Rightarrow> string \<Rightarrow> Store \<Rightarrow> Store" where
  "deny reason detail s = s\<lparr>denied := Some \<lparr>de_Reason = reason, de_Detail = detail\<rparr>\<rparr>"

section \<open>Opening\<close>

definition createLog :: "io \<Rightarrow> Store \<Rightarrow> ioerr option \<times> Store" where
  "createLog io s =
     (case io_open io of
        Some e \<Rightarrow> (Some e, s)
      | None \<Rightarrow>
          let i = (case dirent (fs s) of Some i \<Rightarrow> i | None \<Rightarrow> next_ino (fs s));
              f1 = (set_inode i [] (fs s))\<lparr>dirent := Some i,
                     next_ino := (if dirent (fs s) = None then Suc (next_ino (fs s)) else next_ino (fs s))\<rparr>
          in (case WriteAt (Some i) log_header 0 (io_write io) f1 of
                (Some e, f2) \<Rightarrow> (Some e, s\<lparr>fs := f2\<rparr>)
              | (None, f2) \<Rightarrow>
                  (case io_sync io of
                     Some e \<Rightarrow> (Some e, s\<lparr>fs := f2\<rparr>)
                   | None \<Rightarrow>
                       (case io_dirsync io of
                          Some e \<Rightarrow> (Some e, s\<lparr>fs := f2\<rparr>)
                        | None \<Rightarrow> (None, s\<lparr>fs := f2, handle := Some i, ssize := headerSize\<rparr>)))))"

definition create_or_deny :: "io \<Rightarrow> Store \<Rightarrow> Store" where
  "create_or_deny io s =
     (case createLog io s of
        (None, s') \<Rightarrow> s'
      | (Some e, s') \<Rightarrow> deny ReasonWriteFailed (e_msg e) s')"

definition schema_of :: "byte list \<Rightarrow> int" where
  "schema_of data = uint (Uint32 (drop (length magic) data))"

definition load_finish :: "io \<Rightarrow> nat \<Rightarrow> nat \<Rightarrow> bool \<Rightarrow> Store \<Rightarrow> Store" where
  "load_finish io i good torn s =
     (case io_open io of
        Some e \<Rightarrow> deny ReasonUnavailable (e_msg e) s
      | None \<Rightarrow>
          if torn then
            (case Truncate (Some i) good (io_trunc io) (fs s) of
               (Some e, f) \<Rightarrow> deny ReasonWriteFailed (''truncate torn tail: '' @ e_msg e) (s\<lparr>fs := f\<rparr>)
             | (None, f) \<Rightarrow>
                 (case io_sync io of
                    Some e \<Rightarrow> deny ReasonWriteFailed (''sync torn tail repair: '' @ e_msg e) (s\<lparr>fs := f\<rparr>)
                  | None \<Rightarrow> s\<lparr>fs := f, tornRepaired := True, handle := Some i, ssize := good\<rparr>))
          else s\<lparr>handle := Some i, ssize := good\<rparr>)"

definition load :: "io \<Rightarrow> Store \<Rightarrow> Store" where
  "load io s =
     (case io_read io of
        Some e \<Rightarrow> deny ReasonUnavailable (e_msg e) s
      | None \<Rightarrow>
      (case dirent (fs s) of
         None \<Rightarrow> create_or_deny io s
       | Some i \<Rightarrow>
           let data = inodes (fs s) i in
           if length data < headerSize then create_or_deny io s
           else if take (length magic) data \<noteq> magic
           then deny ReasonCorrupt ''unrecognized journal header'' s
           else let s1 = s\<lparr>schema := schema_of data\<rparr> in
             if schema s1 > SchemaVersion \<or> schema s1 < 1
             then deny ReasonSchema (''journal schema '' @ Itoa (schema s1) @
                    '', this Guard supports '' @ Itoa SchemaVersion) s1
             else (case replay (maxRecord (opts s)) data headerSize (mem s1) of
                 Inl e \<Rightarrow>
                   deny ReasonCorrupt e
                     (s1\<lparr>mem := replayPrefixOnly (maxRecord (opts s)) data headerSize empty_mem\<rparr>)
               | Inr (good, torn, m) \<Rightarrow> load_finish io i good torn (s1\<lparr>mem := m\<rparr>))))"

definition openRoot :: "io \<Rightarrow> Options \<Rightarrow> fsys \<Rightarrow> ioerr + Store" where
  "openRoot io o' f =
     (case io_lock io of
        Some e \<Rightarrow> Inl e
      | None \<Rightarrow> Inr (load io \<lparr>opts = withDefaults o', lock_held = True, handle = None, ssize = 0,
          mem = empty_mem, denied = None, tornRepaired = False, schema = SchemaVersion, fs = f\<rparr>))"

section \<open>Appending\<close>

definition failWriteLocked :: "io \<Rightarrow> ioerr \<Rightarrow> Store \<Rightarrow> jerror option \<times> Store" where
  "failWriteLocked io cause s =
     (case Truncate (handle s) (ssize s) (io_trunc io) (fs s) of
        (Some te, f) \<Rightarrow>
          let d = \<lparr>de_Reason = ReasonWriteFailed, de_Detail = e_msg cause @ ''; '' @ e_msg te\<rparr>
          in (Some (ErrDenied d), s\<lparr>fs := f, denied := Some d\<rparr>)
      | (None, f) \<Rightarrow>
          let d = \<lparr>de_Reason = (if e_nospace cause then ReasonFull else ReasonWriteFailed),
                   de_Detail = e_msg cause\<rparr>
          in (Some (ErrDenied d), s\<lparr>fs := f, denied := Some d\<rparr>))"

definition appendLocked :: "io \<Rightarrow> logrec \<Rightarrow> Store \<Rightarrow> jerror option \<times> Store" where
  "appendLocked io r0 s =
     (case denied s of
        Some d \<Rightarrow> (Some (ErrDenied d), s)
      | None \<Rightarrow>
          let r = r0\<lparr>rec_At := io_now io\<rparr> in
          (case encodeRecord r of
             Inl e \<Rightarrow> (Some e, s)
           | Inr buf \<Rightarrow>
               if int (length buf) > maxRecord (opts s) then (Some ErrEntryTooLarge, s)
               else (case WriteAt (handle s) buf (ssize s) (io_write io) (fs s) of
                   (Some e, f) \<Rightarrow> failWriteLocked io e (s\<lparr>fs := f\<rparr>)
                 | (None, f) \<Rightarrow>
                     (case io_sync io of
                        Some e \<Rightarrow> failWriteLocked io e (s\<lparr>fs := f\<rparr>)
                      | None \<Rightarrow>
                          (case apply_log r (mem s) of
                             Inl e \<Rightarrow>
                               let d = \<lparr>de_Reason = ReasonCorrupt, de_Detail = e\<rparr>
                               in (Some (ErrDenied d), s\<lparr>fs := f, denied := Some d\<rparr>)
                           | Inr m \<Rightarrow>
                               (None, s\<lparr>fs := f, mem := m, ssize := ssize s + length buf\<rparr>))))))"

definition Close :: "Store \<Rightarrow> Store" where
  "Close s = s\<lparr>handle := None, lock_held := False,
     denied := (case denied s of None \<Rightarrow>
         Some \<lparr>de_Reason = ReasonUnavailable, de_Detail = ''journal closed''\<rparr> | d \<Rightarrow> d)\<rparr>"

definition HighestGeneration :: "Store \<Rightarrow> int" where
  "HighestGeneration s = highGen (mem s)"

definition NoteGeneration :: "io \<Rightarrow> int \<Rightarrow> Store \<Rightarrow> jerror option \<times> Store" where
  "NoteGeneration io g s =
     (if g \<le> highGen (mem s) then (None, s)
      else appendLocked io ((mkrec ''gen'' [])\<lparr>rec_Generation := g\<rparr>) s)"

section \<open>Compaction\<close>

definition horizon :: "Options \<Rightarrow> entryState \<Rightarrow> gtime" where
  "horizon o' e =
     (let byAuthority = AuthorityExpiresAt (en_Intent e) + ClockMargin o';
          byAck = ackedAt e + MinTombstone o'
      in if byAck > byAuthority then byAck else byAuthority)"

text \<open>The records a surviving entry is rewritten as; payloads of acknowledged revisions are dropped.\<close>

definition strip_acked :: "int \<Rightarrow> ResultRecord \<Rightarrow> ResultRecord" where
  "strip_acked acked x = (if rr_Revision x \<le> acked then x\<lparr>rr_Payload := None\<rparr> else x)"

definition entry_records :: "string \<Rightarrow> entryState \<Rightarrow> logrec list" where
  "entry_records k e =
     [(mkrec ''intent'' [])\<lparr>rec_At := en_IntentAt e, rec_Intent := Some (en_Intent e)\<rparr>] @
     (if \<not> IsZero (en_DispatchedAt e) then [(mkrec ''dispatched'' k)\<lparr>rec_At := en_DispatchedAt e\<rparr>] else []) @
     (case en_Executor e of None \<Rightarrow> []
      | Some x \<Rightarrow> [(mkrec ''executor'' k)\<lparr>rec_At := en_DispatchedAt e, rec_Executor := Some x\<rparr>]) @
     map (\<lambda>x. (mkrec ''result'' k)\<lparr>rec_At := rr_At x, rec_Result := Some (strip_acked (en_AckedRevision e) x)\<rparr>)
       (en_Results e) @
     (if en_AckedRevision e > 0
      then [(mkrec ''ack'' k)\<lparr>rec_At := ackedAt e, rec_Revision := en_AckedRevision e, rec_Rejected := en_Rejected e\<rparr>]
      else [])"

fun compact_entries ::
  "Options \<Rightarrow> gtime \<Rightarrow> jmem \<Rightarrow> string list \<Rightarrow> logrec list \<Rightarrow> (string, tombstone) fmap
   \<Rightarrow> logrec list \<times> (string, tombstone) fmap" where
  "compact_entries o' now m [] recs tb = (recs, tb)"
| "compact_entries o' now m (k # ks) recs tb =
     (case fmlookup (entries m) k of
        None \<Rightarrow> compact_entries o' now m ks recs tb
      | Some e \<Rightarrow>
          if en_State e = StateAcked then
            compact_entries o' now m ks recs
              (if now < horizon o' e
               then fmupd k \<lparr>tb_Digest = PayloadDigest (en_Intent e), tb_ExpiresAt = horizon o' e\<rparr> tb
               else tb)
          else compact_entries o' now m ks (recs @ entry_records k e) tb)"

definition tomb_record :: "gtime \<Rightarrow> (string, tombstone) fmap \<Rightarrow> string \<Rightarrow> logrec" where
  "tomb_record now tb k = (mkrec ''tombstone'' k)\<lparr>rec_At := now, rec_Tombstone := fmlookup tb k\<rparr>"

definition compact_records :: "Options \<Rightarrow> gtime \<Rightarrow> jmem \<Rightarrow> logrec list" where
  "compact_records o' now m =
     (let recs0 = (if highGen m > 0
                   then [(mkrec ''gen'' [])\<lparr>rec_At := now, rec_Generation := highGen m\<rparr>] else []);
          tb0 = fmfilter (\<lambda>k. case fmlookup (tombs m) k of None \<Rightarrow> False | Some t \<Rightarrow> now < tb_ExpiresAt t) (tombs m);
          (recs, tb) = compact_entries o' now m (sorted_keys (entries m)) recs0 tb0
      in recs @ map (tomb_record now tb) (sorted_keys tb))"

text \<open>Writing the temporary file: the header, then each record; the \<open>n\<close>-th write may fail.\<close>

fun write_records :: "(nat \<Rightarrow> ioerr option) \<Rightarrow> nat \<Rightarrow> logrec list \<Rightarrow> byte list \<Rightarrow> jerror + byte list" where
  "write_records out n [] acc = Inr acc"
| "write_records out n (r # rs) acc =
     (case encodeRecord r of
        Inl e \<Rightarrow> Inl e
      | Inr buf \<Rightarrow>
          (case out n of
             Some e \<Rightarrow> Inl (ErrOther (e_msg e))
           | None \<Rightarrow> write_records out (Suc n) rs (acc @ buf)))"

definition write_tmp :: "(nat \<Rightarrow> ioerr option) \<Rightarrow> logrec list \<Rightarrow> jerror + byte list" where
  "write_tmp out rs =
     (case out 0 of Some e \<Rightarrow> Inl (ErrOther (e_msg e)) | None \<Rightarrow> write_records out 1 rs log_header)"

text \<open>Applying until the first error, keeping what was applied.\<close>

fun apply_seq :: "logrec list \<Rightarrow> jmem \<Rightarrow> jmem \<times> string option" where
  "apply_seq [] m = (m, None)"
| "apply_seq (r # rs) m = (case apply_log r m of Inl e \<Rightarrow> (m, Some e) | Inr m' \<Rightarrow> apply_seq rs m')"

definition rename_log :: "byte list \<Rightarrow> fsys \<Rightarrow> fsys" where
  "rename_log data f =
     (set_inode (next_ino f) data f)\<lparr>dirent := Some (next_ino f), next_ino := Suc (next_ino f)\<rparr>"

definition rebuild :: "logrec list \<Rightarrow> Store \<Rightarrow> jerror option \<times> Store" where
  "rebuild rs s =
     (let hg = highGen (mem s);
          (m, err) = apply_seq rs (empty_mem)
      in (case err of
            Some e \<Rightarrow>
              let d = \<lparr>de_Reason = ReasonCorrupt,
                       de_Detail = ''compaction produced an inconsistent journal: '' @ e\<rparr>
              in (Some (ErrDenied d), s\<lparr>mem := m, denied := Some d\<rparr>)
          | None \<Rightarrow> (None, s\<lparr>mem := (if hg > highGen m then m\<lparr>highGen := hg\<rparr> else m)\<rparr>)))"

definition compactLocked :: "io \<Rightarrow> Store \<Rightarrow> jerror option \<times> Store" where
  "compactLocked io s =
     (case denied s of
        Some d \<Rightarrow> (Some (ErrDenied d), s)
      | None \<Rightarrow>
          let records = compact_records (opts s) (io_cnow io) (mem s) in
          (case io_tmp io of
             Some e \<Rightarrow> (Some (ErrOther (e_msg e)), s)
           | None \<Rightarrow>
          (case write_tmp (io_twrite io) records of
             Inl e \<Rightarrow> (Some e, s)
           | Inr data \<Rightarrow>
          (case io_tsync io of
             Some e \<Rightarrow> (Some (ErrOther (e_msg e)), s)
           | None \<Rightarrow>
          (case io_rename io of
             Some e \<Rightarrow> (Some (ErrOther (e_msg e)), s)
           | None \<Rightarrow>
               let s1 = s\<lparr>fs := rename_log data (fs s)\<rparr> in
               (case io_dirsync io of
                  Some e \<Rightarrow> (Some (ErrOther (e_msg e)), s1)
                | None \<Rightarrow>
                    rebuild records
                      (s1\<lparr>handle := Some (next_ino (fs s)), ssize := length data\<rparr>)))))))"

definition Compact :: "io \<Rightarrow> Store \<Rightarrow> jerror option \<times> Store" where
  "Compact io s = compactLocked io s"

section \<open>Commands\<close>

definition validIntent :: "Intent \<Rightarrow> bool" where
  "validIntent i \<longleftrightarrow>
     TrimSpace (CommandID i) \<noteq> [] \<and> TrimSpace (PayloadDigest i) \<noteq> [] \<and>
     TrimSpace (TenantID i) \<noteq> [] \<and> TrimSpace (WorkerID i) \<noteq> [] \<and>
     TrimSpace (Operation i) \<noteq> [] \<and> TrimSpace (ResourceKey i) \<noteq> []"

definition reserve :: "Store \<Rightarrow> int" where
  "reserve s =
     (int (length (filter (\<lambda>k. case fmlookup (entries (mem s)) k of None \<Rightarrow> False | Some e \<Rightarrow> en_Results e = [])
        (sorted_keys (entries (mem s))))) + 1) * MaxResultBytes (opts s)"

definition reserve_volume :: "io \<Rightarrow> Store \<Rightarrow> jerror option" where
  "reserve_volume io s =
     (case io_free io of
        Inl _ \<Rightarrow> None
      | Inr available \<Rightarrow>
          if int available < reserve s + MaxResultBytes (opts s) div 4
          then Some (ErrDenied \<lparr>de_Reason = ReasonFull,
                 de_Detail = Itoa (int available) @ '' bytes free on the journal volume''\<rparr>)
          else None)"

definition reserveLocked :: "io \<Rightarrow> Store \<Rightarrow> jerror option \<times> Store" where
  "reserveLocked io s =
     (if int (ssize s) + reserve s > MaxBytes (opts s) then
        (case compactLocked io s of
           (Some e, s1) \<Rightarrow> (Some e, s1)
         | (None, s1) \<Rightarrow>
             if int (ssize s1) + reserve s1 > MaxBytes (opts s1)
             then (Some (ErrDenied \<lparr>de_Reason = ReasonFull,
                     de_Detail = ''journal '' @ Itoa (int (ssize s1)) @ '' of '' @ Itoa (MaxBytes (opts s1)) @
                       '' bytes with unacknowledged work''\<rparr>), s1)
             else (reserve_volume io s1, s1))
      else (reserve_volume io s, s))"

definition Admit :: "io \<Rightarrow> Intent \<Rightarrow> Store \<Rightarrow> (jerror + Entry \<times> bool) \<times> Store" where
  "Admit io i s =
     (if \<not> validIntent i
      then (Inl (ErrOther ''intent requires command, tenant, worker, operation, resource and payload digest''), s)
      else (case fmlookup (tombs (mem s)) (CommandID i) of
        Some t \<Rightarrow> (Inl (if tb_Digest t \<noteq> PayloadDigest i then ErrDigestConflict else ErrTombstoned), s)
      | None \<Rightarrow>
      (case fmlookup (entries (mem s)) (CommandID i) of
         Some known \<Rightarrow>
           if PayloadDigest (en_Intent known) \<noteq> PayloadDigest i then (Inl ErrDigestConflict, s)
           else (Inr (snapshot known, True), s)
       | None \<Rightarrow>
      (case denied s of
         Some d \<Rightarrow> (Inl (ErrDenied d), s)
       | None \<Rightarrow>
           if int (raw_len (Hint i)) > MaxIntentBytes (opts s) then (Inl ErrEntryTooLarge, s)
           else (case reserveLocked io s of
               (Some e, s1) \<Rightarrow> (Inl e, s1)
             | (None, s1) \<Rightarrow>
                 (case appendLocked io ((mkrec ''intent'' [])\<lparr>rec_Intent := Some i\<rparr>) s1 of
                    (Some e, s2) \<Rightarrow> (Inl e, s2)
                  | (None, s2) \<Rightarrow>
                      (case fmlookup (entries (mem s2)) (CommandID i) of
                         Some e \<Rightarrow> (Inr (snapshot e, False), s2)
                       | None \<Rightarrow> (Inl ErrNotFound, s2))))))))"

definition MarkDispatched :: "io \<Rightarrow> string \<Rightarrow> Store \<Rightarrow> jerror option \<times> Store" where
  "MarkDispatched io k s =
     (case fmlookup (entries (mem s)) k of
        None \<Rightarrow> (Some ErrNotFound, s)
      | Some e \<Rightarrow>
          if en_State e \<noteq> StateIntent then (Some ErrInvalidTransition, s)
          else appendLocked io (mkrec ''dispatched'' k) s)"

definition RecordExecutor :: "io \<Rightarrow> string \<Rightarrow> ExecutorRef \<Rightarrow> Store \<Rightarrow> jerror option \<times> Store" where
  "RecordExecutor io k ref s =
     (case fmlookup (entries (mem s)) k of
        None \<Rightarrow> (Some ErrNotFound, s)
      | Some e \<Rightarrow>
          if en_State e \<noteq> StateDispatched then (Some ErrInvalidTransition, s)
          else appendLocked io ((mkrec ''executor'' k)\<lparr>rec_Executor := Some ref\<rparr>) s)"

text \<open>The transition check of \<^verbatim>\<open>RecordResult\<close>.\<close>

definition result_allowed :: "ResultRecord \<Rightarrow> entryState \<Rightarrow> bool" where
  "result_allowed x e \<longleftrightarrow>
     (if rr_Revision x = 1 then
        (if rr_State x = ReportRejected then en_State e = StateIntent
         else if rr_State x = ReportResolved then False
         else en_State e = StateDispatched)
      else rr_Open (last (en_Results e)) \<and> rr_State x \<noteq> ReportRejected \<and>
           rr_PriorDigest x = rr_Digest (last (en_Results e)))"

definition RecordResult :: "io \<Rightarrow> string \<Rightarrow> ResultRecord \<Rightarrow> Store \<Rightarrow> jerror option \<times> Store" where
  "RecordResult io k x s =
     (if rr_State x \<notin> {ReportTerminal, ReportOutcomeUnknown, ReportRejected, ReportResolved}
      then (Some ErrInvalidTransition, s)
      else if TrimSpace (rr_Digest x) = [] then (Some (ErrOther ''result requires a digest''), s)
      else if int (raw_len (rr_Payload x)) > MaxResultBytes (opts s) then (Some ErrEntryTooLarge, s)
      else (case fmlookup (entries (mem s)) k of
          None \<Rightarrow> (Some ErrNotFound, s)
        | Some e \<Rightarrow>
            if rr_Revision x \<noteq> int (length (en_Results e)) + 1 then (Some ErrInvalidTransition, s)
            else if \<not> result_allowed x e then (Some ErrInvalidTransition, s)
            else appendLocked io ((mkrec ''result'' k)\<lparr>rec_Result := Some x\<rparr>) s))"

definition Ack :: "io \<Rightarrow> string \<Rightarrow> int \<Rightarrow> bool \<Rightarrow> Store \<Rightarrow> jerror option \<times> Store" where
  "Ack io k revision rejected s =
     (case fmlookup (entries (mem s)) k of
        None \<Rightarrow> (Some ErrNotFound, s)
      | Some e \<Rightarrow>
          if revision < 1 \<or> revision > int (length (en_Results e)) then (Some ErrInvalidTransition, s)
          else if revision \<le> en_AckedRevision e \<and> \<not> rejected then (None, s)
          else (case appendLocked io ((mkrec ''ack'' k)\<lparr>rec_Revision := revision, rec_Rejected := rejected\<rparr>) s of
              (Some er, s1) \<Rightarrow> (Some er, s1)
            | (None, s1) \<Rightarrow>
                if int (ssize s1) > CompactAfterBytes (opts s1) then (None, snd (compactLocked io s1))
                else (None, s1)))"

section \<open>Reading\<close>

definition Store_Entry :: "string \<Rightarrow> Store \<Rightarrow> Entry option" where
  "Store_Entry k s = map_option snapshot (fmlookup (entries (mem s)) k)"

text \<open>
  Oldest first.  The sort key is unique per command, so the order does not depend on the sorting
  algorithm or on the order in which the map was iterated.
\<close>

definition Entries :: "(Entry \<Rightarrow> bool) \<Rightarrow> Store \<Rightarrow> Entry list" where
  "Entries keep s =
     sort_key (\<lambda>e. (en_IntentAt e, CommandID (en_Intent e)))
       (filter keep (map snapshot (List.map_filter (fmlookup (entries (mem s))) (sorted_keys (entries (mem s))))))"

definition fences :: "string \<Rightarrow> string \<Rightarrow> Entry \<Rightarrow> bool" where
  "fences resourceKey exceptID e \<longleftrightarrow>
     \<not> (CommandID (en_Intent e) = exceptID \<or> \<not> Mutating (en_Intent e) \<or> ResourceKey (en_Intent e) \<noteq> resourceKey) \<and>
     (en_State e = StateDispatched \<or> en_State e = StateOutcomeUnknown)"

definition Fenced :: "string \<Rightarrow> string \<Rightarrow> Store \<Rightarrow> Entry list" where
  "Fenced resourceKey exceptID s = Entries (fences resourceKey exceptID) s"

record Health =
  h_State :: string
  h_Reason :: string
  h_Detail :: string
  h_SchemaVersion :: int
  h_Bytes :: int
  h_BudgetBytes :: int
  h_Entries :: nat
  h_InFlight :: nat
  h_UnackedResults :: nat
  h_UnresolvedUnknown :: nat
  h_TornTailRepaired :: bool

definition health_step :: "Entry \<Rightarrow> Health \<Rightarrow> Health" where
  "health_step e h =
     (case en_State e of
        StateIntent \<Rightarrow> h\<lparr>h_InFlight := h_InFlight h + 1\<rparr>
      | StateDispatched \<Rightarrow> h\<lparr>h_InFlight := h_InFlight h + 1\<rparr>
      | StateResultPending \<Rightarrow> h\<lparr>h_UnackedResults := h_UnackedResults h + 1\<rparr>
      | StateOutcomeUnknown \<Rightarrow>
          let h1 = h\<lparr>h_UnresolvedUnknown := h_UnresolvedUnknown h + 1\<rparr> in
          if en_AckedRevision e < int (length (en_Results e))
          then h1\<lparr>h_UnackedResults := h_UnackedResults h1 + 1\<rparr> else h1
      | StateAcked \<Rightarrow> h)"

definition Store_Health :: "Store \<Rightarrow> Health" where
  "Store_Health s =
     fold health_step (map snapshot (List.map_filter (fmlookup (entries (mem s))) (sorted_keys (entries (mem s)))))
       \<lparr>h_State = (if denied s = None then ''ok'' else ''denied''),
        h_Reason = (case denied s of None \<Rightarrow> [] | Some d \<Rightarrow> de_Reason d),
        h_Detail = (case denied s of None \<Rightarrow> [] | Some d \<Rightarrow> de_Detail d),
        h_SchemaVersion = schema s, h_Bytes = int (ssize s), h_BudgetBytes = MaxBytes (opts s),
        h_Entries = fcard (fmdom (entries (mem s))), h_InFlight = 0, h_UnackedResults = 0,
        h_UnresolvedUnknown = 0, h_TornTailRepaired = tornRepaired s\<rparr>"

section \<open>Decommissioning and handoff\<close>

text \<open>Overwriting with zeros in chunks of at most 1 MiB; the \<open>n\<close>-th write may fail.\<close>

function zeroFile :: "(nat \<Rightarrow> (nat \<times> ioerr) option) \<Rightarrow> ioerr option \<Rightarrow> nat \<Rightarrow> nat \<Rightarrow> nat \<Rightarrow> nat \<Rightarrow> fsys \<Rightarrow> ioerr option \<times> fsys" where
  "zeroFile out syn i sz n off f =
     (if off < sz then
        let chunk = min (sz - off) (2 ^ 20) in
        (case WriteAt (Some i) (replicate chunk 0) off (out n) f of
           (Some e, f') \<Rightarrow> (Some e, f')
         | (None, f') \<Rightarrow> zeroFile out syn i sz (Suc n) (off + chunk) f')
      else (syn, f))"
  by pat_completeness auto
termination
  by (relation "measure (\<lambda>(out, syn, i, sz, n, off, f). sz - off)") auto

declare zeroFile.simps [simp del]

definition destroyLogLocked :: "io \<Rightarrow> Store \<Rightarrow> jerror option \<times> Store" where
  "destroyLogLocked io s =
     (let s0 = s\<lparr>handle := None\<rparr>;
          f1 = (case (dirent (fs s0), io_stat io, io_open io) of
                  (Some i, None, None) \<Rightarrow>
                    snd (zeroFile (io_zwrite io) (io_zsync io) i (length (inodes (fs s0) i)) 0 0 (fs s0))
                | _ \<Rightarrow> fs s0)
      in (case (dirent f1, io_remove io) of
            (Some i, Some e) \<Rightarrow> (Some (ErrOther (e_msg e)), s0\<lparr>fs := f1\<rparr>)
          | _ \<Rightarrow> (None, s0\<lparr>fs := f1\<lparr>dirent := None\<rparr>, ssize := 0\<rparr>)))"

definition Decommission :: "io \<Rightarrow> Store \<Rightarrow> nat \<times> jerror option \<times> Store" where
  "Decommission io s =
     (case denied s of
        Some d \<Rightarrow> (fcard (fmdom (entries (mem s))), Some (ErrDenied d), s)
      | None \<Rightarrow>
          let ents = fmfilter (\<lambda>k. case fmlookup (entries (mem s)) k of None \<Rightarrow> False
                                   | Some e \<Rightarrow> en_State e \<noteq> StateAcked) (entries (mem s));
              s1 = s\<lparr>mem := (mem s)\<lparr>entries := ents, tombs := fmempty\<rparr>\<rparr>;
              n = fcard (fmdom ents)
          in if n > 0 then
               (if handle s1 = None then (n, Some (ErrOther ''journal is closed''), s1)
                else let (e, s2) = compactLocked io s1 in (n, e, s2))
             else let (e, s2) = destroyLogLocked io s1 in (0, e, s2))"

definition HandOff :: "io \<Rightarrow> string \<Rightarrow> Store \<Rightarrow> nat \<times> jerror option \<times> Store" where
  "HandOff io tenantID s =
     (case denied s of
        Some d \<Rightarrow> (0, Some (ErrDenied d), s)
      | None \<Rightarrow>
          if TrimSpace tenantID = [] then (0, Some (ErrOther ''a handoff names the prior tenant''), s)
          else
          let ents = fmfilter (\<lambda>k. case fmlookup (entries (mem s)) k of None \<Rightarrow> False
                                   | Some e \<Rightarrow> TenantID (en_Intent e) \<noteq> tenantID) (entries (mem s));
              removed = fcard (fmdom (entries (mem s))) - fcard (fmdom ents);
              s1 = s\<lparr>mem := (mem s)\<lparr>entries := ents, tombs := fmempty\<rparr>\<rparr>
          in if fcard (fmdom ents) = 0 then
               let (e, s2) = destroyLogLocked io s1 in (removed, e, s2)
             else if handle s1 = None then (removed, Some (ErrOther ''journal is closed''), s1)
             else (case (dirent (fs s1), io_open io) of
                 (None, _) \<Rightarrow> (removed, Some (ErrOther ''file does not exist''), s1)
               | (_, Some e) \<Rightarrow> (removed, Some (ErrOther (e_msg e)), s1)
               | (Some old, None) \<Rightarrow>
                   (case io_stat io of
                      Some e \<Rightarrow> (removed, Some (ErrOther (e_msg e)), s1)
                    | None \<Rightarrow>
                        (case compactLocked io s1 of
                           (Some e, s2) \<Rightarrow> (removed, Some e, s2)
                         | (None, s2) \<Rightarrow>
                             let (ze, f) = zeroFile (io_zwrite io) (io_zsync io) old
                                   (length (inodes (fs s1) old)) 0 0 (fs s2)
                             in (removed, map_option (\<lambda>e. ErrOther (e_msg e)) ze, s2\<lparr>fs := f\<rparr>)))))"

end
