(* ===== verification/Journal_Compaction.thy ===== *)
theory Journal_Compaction
  imports Journal_Store
begin

text \<open>
  Compaction of the journal (\<^verbatim>\<open>compactLocked\<close>): a specification of the memory it should leave,
  and the refinement lemma that re-applying the rewritten records to an empty memory gives exactly
  that.  The specification keeps every entry that is not settled (its acknowledged payloads
  dropped), turns settled entries into tombstones until their horizon, and keeps the generation.
\<close>

section \<open>Specification\<close>

definition strip_entry :: "entryState \<Rightarrow> entryState" where
  "strip_entry e = e\<lparr>en_Results := map (strip_acked (en_AckedRevision e)) (en_Results e)\<rparr>"

definition survives :: "jmem \<Rightarrow> string \<Rightarrow> bool" where
  "survives m k \<longleftrightarrow> (\<exists>e. fmlookup (entries m) k = Some e \<and> en_State e \<noteq> StateAcked)"

definition compact_tomb :: "Options \<Rightarrow> gtime \<Rightarrow> jmem \<Rightarrow> string \<Rightarrow> tombstone option" where
  "compact_tomb o' now m k =
     (case fmlookup (entries m) k of
        Some e \<Rightarrow>
          if en_State e = StateAcked \<and> now < horizon o' e
          then Some \<lparr>tb_Digest = PayloadDigest (en_Intent e), tb_ExpiresAt = horizon o' e\<rparr>
          else None
      | None \<Rightarrow>
          (case fmlookup (tombs m) k of
             Some t \<Rightarrow> if now < tb_ExpiresAt t then Some t else None
           | None \<Rightarrow> None))"

definition compact_to :: "Options \<Rightarrow> gtime \<Rightarrow> jmem \<Rightarrow> jmem \<Rightarrow> bool" where
  "compact_to o' now m m' \<longleftrightarrow>
     (\<forall>k. fmlookup (entries m') k =
        (if survives m k then map_option strip_entry (fmlookup (entries m) k) else None)) \<and>
     (\<forall>k. fmlookup (tombs m') k = compact_tomb o' now m k) \<and>
     highGen m' = highGen m"

text \<open>No command has both an entry and a tombstone.\<close>

definition disj_mem :: "jmem \<Rightarrow> bool" where
  "disj_mem m \<longleftrightarrow> (\<forall>k. fmlookup (tombs m) k \<noteq> None \<longrightarrow> fmlookup (entries m) k = None)"

section \<open>Rewriting one entry\<close>

lemma strip_acked_fields [simp]:
  "rr_Revision (strip_acked a x) = rr_Revision x"
  "rr_Digest (strip_acked a x) = rr_Digest x"
  "rr_State (strip_acked a x) = rr_State x"
  "rr_Open (strip_acked a x) = rr_Open x"
  by (simp_all add: strip_acked_def rr_Open_def)

lemma upd_entry_twice [simp]: "upd_entry k e (upd_entry k e' m) = upd_entry k e m"
  by (simp add: upd_entry_def)

lemma lookup_upd_entry [simp]:
  "fmlookup (entries (upd_entry k e m)) j = (if j = k then Some e else fmlookup (entries m) j)"
  "tombs (upd_entry k e m) = tombs m"
  "highGen (upd_entry k e m) = highGen m"
  by (simp_all add: upd_entry_def)

lemma recompute_twice_upd [simp]:
  "recompute ((recompute e)\<lparr>en_Results := xs\<rparr>) = recompute (e\<lparr>en_Results := xs\<rparr>)"
  "recompute ((recompute e)\<lparr>en_DispatchedAt := t\<rparr>) = recompute (e\<lparr>en_DispatchedAt := t\<rparr>)"
  by (simp_all add: recompute_def Latest_def split: option.split)

definition result_recs :: "string \<Rightarrow> int \<Rightarrow> ResultRecord list \<Rightarrow> logrec list" where
  "result_recs k a xs =
     map (\<lambda>x. (mkrec ''result'' k)\<lparr>rec_At := rr_At x, rec_Result := Some (strip_acked a x)\<rparr>) xs"

lemma apply_result:
  assumes "fmlookup (entries m) k = Some e" "rr_Revision x = int (length (en_Results e)) + 1"
  shows "apply_log ((mkrec ''result'' k)\<lparr>rec_At := t, rec_Result := Some x\<rparr>) m =
    Inr (upd_entry k (recompute (e\<lparr>en_Results := en_Results e @ [x]\<rparr>)) m)"
  using assms by (simp add: apply_log_def mkrec_def)

lemma apply_results:
  assumes "fmlookup (entries m) k = Some e" "recompute e = e"
    "map rr_Revision xs = map (\<lambda>i. int i + 1) [length (en_Results e)..<length (en_Results e) + length xs]"
  shows "apply_all (result_recs k a xs) m =
    Inr (upd_entry k (recompute (e\<lparr>en_Results := en_Results e @ map (strip_acked a) xs\<rparr>)) m)"
  using assms
proof (induction xs arbitrary: e m)
  case Nil
  then have "upd_entry k e m = m"
    by (cases m) (auto simp: upd_entry_def intro!: fmap_ext)
  then show ?case using Nil by (simp add: result_recs_def)
next
  case (Cons x xs)
  let ?e = "recompute (e\<lparr>en_Results := en_Results e @ [strip_acked a x]\<rparr>)"
  have rev: "rr_Revision x = int (length (en_Results e)) + 1"
    "map rr_Revision xs = map (\<lambda>i. int i + 1) [Suc (length (en_Results e))..<Suc (length (en_Results e)) + length xs]"
    using Cons.prems(3) by (simp_all add: upt_conv_Cons del: upt_Suc)
  have "apply_all (result_recs k a (x # xs)) m = apply_all (result_recs k a xs) (upd_entry k ?e m)"
    using apply_result [OF Cons.prems(1), of "strip_acked a x"] rev(1) by (simp add: result_recs_def)
  also have "\<dots> = Inr (upd_entry k (recompute (?e\<lparr>en_Results := en_Results ?e @ map (strip_acked a) xs\<rparr>))
      (upd_entry k ?e m))"
    by (rule Cons.IH) (use rev(2) in simp_all)
  finally show ?case by simp
qed

lemma entry_records_eq:
  "entry_records k e =
     [(mkrec ''intent'' [])\<lparr>rec_At := en_IntentAt e, rec_Intent := Some (en_Intent e)\<rparr>] @
     (if en_DispatchedAt e \<noteq> 0 then [(mkrec ''dispatched'' k)\<lparr>rec_At := en_DispatchedAt e\<rparr>] else []) @
     (case en_Executor e of None \<Rightarrow> []
      | Some x \<Rightarrow> [(mkrec ''executor'' k)\<lparr>rec_At := en_DispatchedAt e, rec_Executor := Some x\<rparr>]) @
     result_recs k (en_AckedRevision e) (en_Results e) @
     (if en_AckedRevision e > 0
      then [(mkrec ''ack'' k)\<lparr>rec_At := ackedAt e, rec_Revision := en_AckedRevision e, rec_Rejected := en_Rejected e\<rparr>]
      else [])"
  by (simp add: entry_records_def result_recs_def IsZero_def)

text \<open>The entry before its results are applied.\<close>

definition bare_entry :: "entryState \<Rightarrow> entryState" where
  "bare_entry e = recompute \<lparr>en_Intent = en_Intent e, en_State = StateIntent, en_IntentAt = en_IntentAt e,
     en_DispatchedAt = en_DispatchedAt e, en_Executor = en_Executor e, en_Results = [],
     en_AckedRevision = 0, en_Rejected = False, ackedAt = 0\<rparr>"

lemma apply_bare:
  assumes "wf_entry k e" "fmlookup (entries m) k = None" "Generation (en_Intent e) \<le> highGen m"
  shows "apply_all
    ([(mkrec ''intent'' [])\<lparr>rec_At := en_IntentAt e, rec_Intent := Some (en_Intent e)\<rparr>] @
     (if en_DispatchedAt e \<noteq> 0 then [(mkrec ''dispatched'' k)\<lparr>rec_At := en_DispatchedAt e\<rparr>] else []) @
     (case en_Executor e of None \<Rightarrow> []
      | Some x \<Rightarrow> [(mkrec ''executor'' k)\<lparr>rec_At := en_DispatchedAt e, rec_Executor := Some x\<rparr>])) m =
    Inr (upd_entry k (bare_entry e) m)"
proof -
  have k: "CommandID (en_Intent e) = k" "k \<noteq> []" using assms(1) by (auto simp: wf_entry_def)
  show ?thesis
    using assms(2,3) k
    by (cases "en_Executor e")
      (auto simp: apply_log_def mkrec_def new_entry_def bare_entry_def recompute_def Latest_def IsZero_def)
qed

lemma recompute_strip:
  assumes "wf_entry k e"
  shows "recompute (strip_entry e) = strip_entry e"
proof -
  have "recompute e = e" using assms by (simp add: wf_entry_def)
  then show ?thesis
    by (cases e) (auto simp: strip_entry_def recompute_def Latest_def last_map split: if_splits)
qed

lemma bare_recompute:
  "recompute ((bare_entry e)\<lparr>en_Results := xs\<rparr>) =
   recompute \<lparr>en_Intent = en_Intent e, en_State = StateIntent, en_IntentAt = en_IntentAt e,
     en_DispatchedAt = en_DispatchedAt e, en_Executor = en_Executor e, en_Results = xs,
     en_AckedRevision = 0, en_Rejected = False, ackedAt = 0\<rparr>"
  by (simp add: bare_entry_def)

lemma recompute_acked:
  "recompute ((recompute e)\<lparr>en_AckedRevision := a, ackedAt := t\<rparr>) =
   recompute (e\<lparr>en_AckedRevision := a, ackedAt := t\<rparr>)"
  "recompute ((recompute e)\<lparr>en_AckedRevision := a, ackedAt := t, en_Rejected := b\<rparr>) =
   recompute (e\<lparr>en_AckedRevision := a, ackedAt := t, en_Rejected := b\<rparr>)"
  by (simp_all add: recompute_def Latest_def)

lemma recompute_any_State: "recompute (e\<lparr>en_State := s\<rparr>) = recompute e"
  by (simp add: recompute_def Latest_def)

lemma apply_ack_bare:
  assumes "0 < en_AckedRevision e"
  shows "apply_ack ((mkrec ''ack'' k)\<lparr>rec_At := ackedAt e, rec_Revision := en_AckedRevision e, rec_Rejected := en_Rejected e\<rparr>)
      (recompute ((bare_entry e)\<lparr>en_Results := map (strip_acked (en_AckedRevision e)) (en_Results e)\<rparr>)) =
    recompute (strip_entry e)"
proof -
  have "recompute (strip_entry e) = recompute (strip_entry e\<lparr>en_State := StateIntent\<rparr>)"
    by (simp only: recompute_any_State)
  then show ?thesis
    using assms unfolding bare_recompute apply_ack_def Let_def
    by (cases e) (simp add: mkrec_def recompute_acked strip_entry_def)
qed

lemma unacked_bare:
  assumes "wf_entry k e" "\<not> 0 < en_AckedRevision e"
  shows "recompute ((bare_entry e)\<lparr>en_Results := map (strip_acked (en_AckedRevision e)) (en_Results e)\<rparr>) =
    recompute (strip_entry e)"
proof -
  have "recompute (strip_entry e) = recompute (strip_entry e\<lparr>en_State := StateIntent\<rparr>)"
    by (simp only: recompute_any_State)
  moreover have "en_AckedRevision e = 0" "ackedAt e = 0" "\<not> en_Rejected e"
    using assms by (auto simp: wf_entry_def)
  ultimately show ?thesis
    unfolding bare_recompute by (cases e) (simp add: strip_entry_def)
qed

lemma apply_entry_records:
  assumes "wf_entry k e" "fmlookup (entries m) k = None" "Generation (en_Intent e) \<le> highGen m"
  shows "apply_all (entry_records k e) m = Inr (upd_entry k (strip_entry e) m)"
proof -
  let ?a = "en_AckedRevision e"
  define A where "A =
    [(mkrec ''intent'' [])\<lparr>rec_At := en_IntentAt e, rec_Intent := Some (en_Intent e)\<rparr>] @
     (if en_DispatchedAt e \<noteq> 0 then [(mkrec ''dispatched'' k)\<lparr>rec_At := en_DispatchedAt e\<rparr>] else []) @
     (case en_Executor e of None \<Rightarrow> []
      | Some x \<Rightarrow> [(mkrec ''executor'' k)\<lparr>rec_At := en_DispatchedAt e, rec_Executor := Some x\<rparr>])"
  define ack where "ack = (mkrec ''ack'' k)\<lparr>rec_At := ackedAt e, rec_Revision := ?a, rec_Rejected := en_Rejected e\<rparr>"
  define e1 where "e1 = recompute ((bare_entry e)\<lparr>en_Results := map (strip_acked ?a) (en_Results e)\<rparr>)"
  have split: "entry_records k e = A @ result_recs k ?a (en_Results e) @ (if ?a > 0 then [ack] else [])"
    by (simp only: entry_records_eq A_def ack_def append_assoc)
  have A: "apply_all A m = Inr (upd_entry k (bare_entry e) m)"
    unfolding A_def using assms by (rule apply_bare)
  have res: "apply_all (result_recs k ?a (en_Results e)) (upd_entry k (bare_entry e) m) = Inr (upd_entry k e1 m)"
    using apply_results [of "upd_entry k (bare_entry e) m" k "bare_entry e" "en_Results e" ?a] assms(1)
    by (simp add: wf_entry_def bare_entry_def e1_def)
  have len: "length (en_Results e1) = length (en_Results e)" by (simp add: e1_def)
  have ack: "apply_all (if ?a > 0 then [ack] else []) (upd_entry k e1 m) =
      Inr (upd_entry k (recompute (strip_entry e)) m)"
  proof (cases "?a > 0")
    case True
    then have "apply_ack ack e1 = recompute (strip_entry e)"
      unfolding ack_def e1_def by (rule apply_ack_bare)
    moreover have "apply_log ack (upd_entry k e1 m) = Inr (upd_entry k (apply_ack ack e1) (upd_entry k e1 m))"
      using True assms(1) len by (simp add: apply_log_def wf_entry_def ack_def mkrec_def)
    ultimately show ?thesis using True by simp
  next
    case False
    then show ?thesis using unacked_bare [OF assms(1)] by (simp add: e1_def)
  qed
  show ?thesis
    unfolding split using A res ack recompute_strip [OF assms(1)] by (simp add: apply_all_append)
qed

section \<open>Rewriting the log\<close>

definition survivor_records :: "jmem \<Rightarrow> string \<Rightarrow> logrec list" where
  "survivor_records m k =
     (case fmlookup (entries m) k of None \<Rightarrow> []
      | Some e \<Rightarrow> if en_State e = StateAcked then [] else entry_records k e)"

definition add_tomb :: "Options \<Rightarrow> gtime \<Rightarrow> jmem \<Rightarrow> string \<Rightarrow> (string, tombstone) fmap \<Rightarrow> (string, tombstone) fmap" where
  "add_tomb o' now m k tb =
     (case fmlookup (entries m) k of None \<Rightarrow> tb
      | Some e \<Rightarrow>
          if en_State e = StateAcked \<and> now < horizon o' e
          then fmupd k \<lparr>tb_Digest = PayloadDigest (en_Intent e), tb_ExpiresAt = horizon o' e\<rparr> tb else tb)"

lemma compact_entries_eq:
  "compact_entries o' now m ks recs tb =
     (recs @ concat (map (survivor_records m) ks), fold (add_tomb o' now m) ks tb)"
  by (induction ks arbitrary: recs tb) (auto simp: survivor_records_def add_tomb_def split: option.split)

lemma fold_add_tomb:
  "distinct ks \<Longrightarrow> fmlookup (fold (add_tomb o' now m) ks tb) k =
     (if k \<in> set ks then fmlookup (add_tomb o' now m k tb) k else fmlookup tb k)"
proof (induction ks arbitrary: tb)
  case (Cons j ks)
  have other: "fmlookup (add_tomb o' now m k (add_tomb o' now m j tb)) k = fmlookup (add_tomb o' now m k tb) k"
    if "j \<noteq> k" using that by (auto simp: add_tomb_def split: option.split)
  have self: "fmlookup (add_tomb o' now m j tb) k = fmlookup tb k" if "j \<noteq> k"
    using that by (auto simp: add_tomb_def split: option.split)
  show ?case using Cons other self by auto
qed simp

lemma in_fmdom_iff: "k \<in> fset (fmdom m) \<longleftrightarrow> fmlookup m k \<noteq> None"
  by (metis fmdom_notD fmdom_notI)

lemma apply_survivors:
  assumes "wf_mem m" "distinct ks" "\<forall>k\<in>set ks. fmlookup (entries m0) k = None" "highGen m0 = highGen m"
  shows "\<exists>m1. apply_all (concat (map (survivor_records m) ks)) m0 = Inr m1 \<and>
    (\<forall>k. fmlookup (entries m1) k =
       (if k \<in> set ks \<and> survives m k then map_option strip_entry (fmlookup (entries m) k)
        else fmlookup (entries m0) k)) \<and>
    tombs m1 = tombs m0 \<and> highGen m1 = highGen m"
  using assms(2-4)
proof (induction ks arbitrary: m0)
  case Nil
  then show ?case by simp
next
  case (Cons j ks)
  show ?case
  proof (cases "survives m j")
    case False
    then have no: "survivor_records m j = []"
      by (auto simp: survivor_records_def survives_def split: option.split)
    have "\<exists>m1. apply_all (concat (map (survivor_records m) ks)) m0 = Inr m1 \<and>
      (\<forall>k. fmlookup (entries m1) k =
         (if k \<in> set ks \<and> survives m k then map_option strip_entry (fmlookup (entries m) k)
          else fmlookup (entries m0) k)) \<and> tombs m1 = tombs m0 \<and> highGen m1 = highGen m"
      using Cons.prems by (intro Cons.IH) auto
    then show ?thesis using no False Cons.prems by (auto 4 4)
  next
    case True
    then obtain e where e: "fmlookup (entries m) j = Some e" "en_State e \<noteq> StateAcked"
      by (auto simp: survives_def)
    have ap: "apply_all (survivor_records m j) m0 = Inr (upd_entry j (strip_entry e) m0)"
      using e Cons.prems wf_memD [OF assms(1) e(1)]
      by (simp add: survivor_records_def apply_entry_records)
    have "\<exists>m1. apply_all (concat (map (survivor_records m) ks)) (upd_entry j (strip_entry e) m0) = Inr m1 \<and>
      (\<forall>k. fmlookup (entries m1) k =
         (if k \<in> set ks \<and> survives m k then map_option strip_entry (fmlookup (entries m) k)
          else fmlookup (entries (upd_entry j (strip_entry e) m0)) k)) \<and>
      tombs m1 = tombs (upd_entry j (strip_entry e) m0) \<and> highGen m1 = highGen m"
      using Cons.prems by (intro Cons.IH) auto
    then show ?thesis using ap True e(1) Cons.prems(1) by (auto simp: apply_all_append)
  qed
qed

lemma apply_tombs:
  assumes "\<forall>k\<in>set ks. k \<noteq> [] \<and> fmlookup tb k \<noteq> None"
  shows "\<exists>m1. apply_all (map (tomb_record now tb) ks) m0 = Inr m1 \<and>
    (\<forall>k. fmlookup (entries m1) k = (if k \<in> set ks then None else fmlookup (entries m0) k)) \<and>
    (\<forall>k. fmlookup (tombs m1) k = (if k \<in> set ks then fmlookup tb k else fmlookup (tombs m0) k)) \<and>
    highGen m1 = highGen m0"
  using assms
proof (induction ks arbitrary: m0)
  case Nil
  then show ?case by simp
next
  case (Cons j ks)
  then obtain t where t: "fmlookup tb j = Some t" "j \<noteq> []" by auto
  define m1 where "m1 = m0\<lparr>entries := fmdrop j (entries m0), tombs := fmupd j t (tombs m0)\<rparr>"
  have "apply_log (tomb_record now tb j) m0 = Inr m1"
    using t by (simp add: apply_log_def tomb_record_def mkrec_def m1_def)
  moreover obtain m2 where "apply_all (map (tomb_record now tb) ks) m1 = Inr m2"
    "\<forall>k. fmlookup (entries m2) k = (if k \<in> set ks then None else fmlookup (entries m1) k)"
    "\<forall>k. fmlookup (tombs m2) k = (if k \<in> set ks then fmlookup tb k else fmlookup (tombs m1) k)"
    "highGen m2 = highGen m1"
    using Cons.IH [of m1] Cons.prems by auto
  ultimately show ?case using t by (auto simp: m1_def)
qed

text \<open>The refinement: the rewritten log, applied to an empty memory, is the specified memory.\<close>

lemma compaction_refines:
  assumes "wf_mem m" "disj_mem m"
  shows "\<exists>m'. apply_all (compact_records o' now m) empty_mem = Inr m' \<and> compact_to o' now m m'"
proof -
  define gen where "gen = (if highGen m > 0
    then [(mkrec ''gen'' [])\<lparr>rec_At := now, rec_Generation := highGen m\<rparr>] else [])"
  define tb0 where "tb0 = fmfilter (\<lambda>k. case fmlookup (tombs m) k of None \<Rightarrow> False
    | Some t \<Rightarrow> now < tb_ExpiresAt t) (tombs m)"
  define tb where "tb = fold (add_tomb o' now m) (sorted_keys (entries m)) tb0"
  have recs: "compact_records o' now m =
      gen @ concat (map (survivor_records m) (sorted_keys (entries m))) @ map (tomb_record now tb) (sorted_keys tb)"
    by (simp add: compact_records_def compact_entries_eq Let_def gen_def tb_def tb0_def)
  have tb: "fmlookup tb k = compact_tomb o' now m k" for k
    using assms(2) unfolding tb_def compact_tomb_def
    by (auto simp: fold_add_tomb in_fmdom_iff add_tomb_def tb0_def disj_mem_def split: option.split)
  have key: "k \<noteq> []" if "compact_tomb o' now m k = Some t" for k t
    using that assms(1) by (auto simp: compact_tomb_def wf_mem_def wf_entry_def split: option.splits if_splits)
  have excl: "\<not> survives m k" if "compact_tomb o' now m k = Some t" for k t
    using that by (auto simp: compact_tomb_def survives_def split: option.splits if_splits)
  define m0 where "m0 = empty_mem\<lparr>highGen := highGen m\<rparr>"
  have "0 \<le> highGen m" using assms(1) by (simp add: wf_mem_def)
  then have g: "apply_all gen empty_mem = Inr m0"
    by (auto simp: gen_def m0_def empty_mem_def apply_log_def mkrec_def)
  obtain m1 where m1: "apply_all (concat (map (survivor_records m) (sorted_keys (entries m)))) m0 = Inr m1"
    "\<forall>k. fmlookup (entries m1) k =
       (if k \<in> fset (fmdom (entries m)) \<and> survives m k then map_option strip_entry (fmlookup (entries m) k)
        else fmlookup (entries m0) k)" "tombs m1 = tombs m0" "highGen m1 = highGen m"
    using apply_survivors [OF assms(1), of "sorted_keys (entries m)" m0] by (auto simp: m0_def empty_mem_def)
  obtain m2 where m2: "apply_all (map (tomb_record now tb) (sorted_keys tb)) m1 = Inr m2"
    "\<forall>k. fmlookup (entries m2) k = (if k \<in> fset (fmdom tb) then None else fmlookup (entries m1) k)"
    "\<forall>k. fmlookup (tombs m2) k = (if k \<in> fset (fmdom tb) then fmlookup tb k else fmlookup (tombs m1) k)"
    "highGen m2 = highGen m1"
    using apply_tombs [of "sorted_keys tb" tb now m1] key by (force simp: in_fmdom_iff tb)
  have "compact_to o' now m m2"
    using m1(2-4) m2(2-4) excl
    by (auto simp: compact_to_def in_fmdom_iff tb m0_def empty_mem_def survives_def)
  then show ?thesis using g m1(1) m2(1) by (auto simp: recs apply_all_append)
qed

end
