(* ===== verification/Journal_Safety.thy ===== *)
theory Journal_Safety
  imports Journal_Compaction
begin

text \<open>
  Safety of the journal across crashes.  The invariants relate the memory of a running store to the
  bytes of the log, and a step relation interleaves the operations of the store, with any outcome
  of their system calls, with crashes and reopenings.  The main lemma says that a command whose
  dispatch was made durable is known to every later incarnation of the store until its authority,
  with the clock margin, has expired.
\<close>

section \<open>Invariants\<close>

definition holds_log :: "byte list \<Rightarrow> logrec list \<Rightarrow> byte list \<Rightarrow> bool" where
  "holds_log data rs tail \<longleftrightarrow> (\<exists>bs. encs rs = Some bs \<and> data = log_header @ bs @ tail)"

text \<open>A dispatched command is settled by time, or the memory still knows it.\<close>

definition known :: "Options \<Rightarrow> gtime \<Rightarrow> jmem \<Rightarrow> string \<Rightarrow> gtime \<Rightarrow> bool" where
  "known o' c m k h \<longleftrightarrow>
     h \<le> c \<or>
     (\<exists>e. fmlookup (entries m) k = Some e \<and> en_State e \<noteq> StateIntent \<and>
        h \<le> AuthorityExpiresAt (en_Intent e) + ClockMargin o') \<or>
     (\<exists>t. fmlookup (tombs m) k = Some t \<and> h \<le> tb_ExpiresAt t)"

definition good_mem :: "Options \<Rightarrow> (string \<times> gtime) list \<Rightarrow> gtime \<Rightarrow> jmem \<Rightarrow> bool" where
  "good_mem o' D c m \<longleftrightarrow> wf_mem m \<and> disj_mem m \<and> (\<forall>(k, h) \<in> set D. known o' c m k h)"

definition disk_inv :: "Options \<Rightarrow> (string \<times> gtime) list \<Rightarrow> gtime \<Rightarrow> fsys \<Rightarrow> bool" where
  "disk_inv o' D c f \<longleftrightarrow>
     (case dirent f of
        None \<Rightarrow> good_mem o' D c empty_mem
      | Some i \<Rightarrow> i < next_ino f \<and>
          ((length (inodes f i) < headerSize \<and> good_mem o' D c empty_mem) \<or>
           (\<exists>rs tail m. holds_log (inodes f i) rs tail \<and> cut_record tail \<and>
              apply_all rs empty_mem = Inr m \<and> good_mem o' D c m)))"

definition live :: "Options \<Rightarrow> (string \<times> gtime) list \<Rightarrow> gtime \<Rightarrow> Store \<Rightarrow> bool" where
  "live o' D c s \<longleftrightarrow>
     (\<exists>i rs. handle s = Some i \<and> dirent (fs s) = Some i \<and> i < next_ino (fs s) \<and>
        holds_log (inodes (fs s) i) rs [] \<and> apply_all rs empty_mem = Inr (mem s) \<and>
        ssize s = length (inodes (fs s) i) \<and> good_mem o' D c (mem s))"

definition store_inv :: "Options \<Rightarrow> (string \<times> gtime) list \<Rightarrow> gtime \<Rightarrow> Store \<Rightarrow> bool" where
  "store_inv o' D c s \<longleftrightarrow> opts s = o' \<and> disk_inv o' D c (fs s) \<and> (denied s = None \<longrightarrow> live o' D c s)"

lemma known_mono: "known o' c m k h \<Longrightarrow> c \<le> c' \<Longrightarrow> known o' c' m k h"
  by (auto simp: known_def)

lemma good_mem_mono: "good_mem o' D c m \<Longrightarrow> c \<le> c' \<Longrightarrow> good_mem o' D c' m"
  by (auto simp: good_mem_def intro: known_mono)

lemma disk_inv_mono: "disk_inv o' D c f \<Longrightarrow> c \<le> c' \<Longrightarrow> disk_inv o' D c' f"
  unfolding disk_inv_def by (cases "dirent f"; simp; blast intro: good_mem_mono)

lemma live_mono: "live o' D c s \<Longrightarrow> c \<le> c' \<Longrightarrow> live o' D c' s"
  by (auto simp: live_def intro: good_mem_mono)

lemma store_inv_mono: "store_inv o' D c s \<Longrightarrow> c \<le> c' \<Longrightarrow> store_inv o' D c' s"
  by (auto simp: store_inv_def intro: disk_inv_mono live_mono)

lemma cut_record_Nil [simp]: "cut_record []"
  by (simp add: cut_record_def)

lemma live_disk_inv: "live o' D c s \<Longrightarrow> disk_inv o' D c (fs s)"
  by (fastforce simp: live_def disk_inv_def)

lemma store_inv_live: "opts s = o' \<Longrightarrow> live o' D c s \<Longrightarrow> store_inv o' D c s"
  by (simp add: store_inv_def live_disk_inv)

section \<open>Files\<close>

lemma write_at_end: "write_at (length data) bs data = data @ bs"
  by (simp add: write_at_def)

lemma truncate_to_prefix: "truncate_to (length a) (a @ b) = a"
  by (simp add: truncate_to_def)

lemma set_inode_simps [simp]:
  "inodes (set_inode i bs f) i = bs"
  "dirent (set_inode i bs f) = dirent f"
  "next_ino (set_inode i bs f) = next_ino f"
  by (simp_all add: set_inode_def)

lemma holds_log_snoc:
  assumes "holds_log data rs []" "encodeRecord r = Inr b"
  shows "holds_log (data @ b) (rs @ [r]) []"
  using assms by (auto simp: holds_log_def encs_append)

lemma holds_log_cut:
  "holds_log data rs [] \<Longrightarrow> holds_log (data @ tail) rs tail"
  by (auto simp: holds_log_def)

section \<open>Appending\<close>

text \<open>
  What the log may hold once a record was handed to the operating system: nothing of it, a part
  of it, or all of it.
\<close>

lemma disk_inv_partial:
  assumes "dirent f = Some i" "i < next_ino f" "holds_log data rs []" "inodes f i = data @ take k b"
    "encodeRecord r = Inr b" "apply_all rs empty_mem = Inr m" "apply_log r m = Inr m'"
    "good_mem o' D c m" "good_mem o' D c m'"
  shows "disk_inv o' D c f"
proof (cases "k < length b")
  case True
  then have "cut_record (take k b)" using assms(5) by (auto simp: cut_record_def)
  then show ?thesis
    using assms holds_log_cut [OF assms(3), of "take k b"] by (auto simp: disk_inv_def)
next
  case False
  have "apply_all (rs @ [r]) empty_mem = Inr m'" using assms(6,7) by (simp add: apply_all_append)
  then show ?thesis
    using assms False holds_log_snoc [OF assms(3,5)] cut_record_Nil by (fastforce simp: disk_inv_def)
qed

lemma failWriteLocked_inv:
  assumes "live o' D c s" "opts s = o'" "handle s = Some i" "encodeRecord r = Inr b"
    "apply_log r (mem s) = Inr m'" "good_mem o' D c m'"
  shows "store_inv o' D c (snd (failWriteLocked io e (s\<lparr>fs := set_inode i (inodes (fs s) i @ take k b) (fs s)\<rparr>)))"
proof -
  let ?f = "set_inode i (inodes (fs s) i @ take k b) (fs s)"
  obtain rs where l: "dirent (fs s) = Some i" "i < next_ino (fs s)" "holds_log (inodes (fs s) i) rs []"
    "apply_all rs empty_mem = Inr (mem s)" "ssize s = length (inodes (fs s) i)" "good_mem o' D c (mem s)"
    using assms(1,3) by (auto simp: live_def)
  show ?thesis
  proof (cases "io_trunc io")
    case None
    have "set_inode i (truncate_to (ssize s) (inodes ?f i)) ?f = fs s"
      by (simp add: l(5) truncate_to_prefix set_inode_def)
    then show ?thesis
      using None assms(2,3) live_disk_inv [OF assms(1)]
      by (simp add: failWriteLocked_def Truncate_def store_inv_def Let_def)
  next
    case (Some te)
    have "disk_inv o' D c ?f"
      by (rule disk_inv_partial [OF _ _ l(3) _ assms(4) l(4) assms(5) l(6) assms(6), where i = i and k = k])
        (simp_all add: l(1,2))
    then show ?thesis
      using Some assms(2,3) by (simp add: failWriteLocked_def Truncate_def store_inv_def Let_def)
  qed
qed

text \<open>The ways an append on an open log can end.\<close>

lemma appendLocked_cases:
  assumes "denied s = None" "handle s = Some i" "ssize s = length (inodes (fs s) i)"
    "apply_log (r\<lparr>rec_At := io_now io\<rparr>) (mem s) = Inr m'"
  obtains (refused) e where "appendLocked io r s = (Some e, s)"
  | (failed) b k e where "encodeRecord (r\<lparr>rec_At := io_now io\<rparr>) = Inr b"
      "appendLocked io r s = failWriteLocked io e (s\<lparr>fs := set_inode i (inodes (fs s) i @ take k b) (fs s)\<rparr>)"
  | (durable) b where "encodeRecord (r\<lparr>rec_At := io_now io\<rparr>) = Inr b" "int (length b) \<le> maxRecord (opts s)"
      "appendLocked io r s = (None, s\<lparr>fs := set_inode i (inodes (fs s) i @ b) (fs s), mem := m',
         ssize := ssize s + length b\<rparr>)"
proof (cases "encodeRecord (r\<lparr>rec_At := io_now io\<rparr>)")
  case (Inl e)
  then have "appendLocked io r s = (Some e, s)" using assms(1) by (simp add: appendLocked_def)
  then show thesis by (rule refused)
next
  case (Inr b)
  show thesis
  proof (cases "int (length b) > maxRecord (opts s)")
    case True
    then have "appendLocked io r s = (Some ErrEntryTooLarge, s)"
      using Inr assms(1) by (simp add: appendLocked_def)
    then show thesis by (rule refused)
  next
    case False
    show thesis
    proof (cases "io_write io")
      case (Some ke)
      obtain k e where "ke = (k, e)" by (cases ke)
      then have "appendLocked io r s =
          failWriteLocked io e (s\<lparr>fs := set_inode i (inodes (fs s) i @ take k b) (fs s)\<rparr>)"
        using Some Inr False assms by (simp add: appendLocked_def WriteAt_def write_at_end)
      then show thesis by (rule failed [OF Inr])
    next
      case None
      then show thesis
        using Inr False assms failed [OF Inr, of _ "length b"] durable [OF Inr]
        by (cases "io_sync io") (simp_all add: appendLocked_def WriteAt_def write_at_end)
    qed
  qed
qed

lemma denied_failWriteLocked: "fst (failWriteLocked io e s) \<noteq> None"
  by (auto simp: failWriteLocked_def Let_def split: prod.split option.split)

lemma appendLocked_inv:
  assumes "live o' D c s" "opts s = o'" "denied s = None"
    "apply_log (r\<lparr>rec_At := io_now io\<rparr>) (mem s) = Inr m'" "good_mem o' D c m'"
  shows "store_inv o' D c (snd (appendLocked io r s)) \<and> (fst (appendLocked io r s) = None \<longrightarrow>
    mem (snd (appendLocked io r s)) = m' \<and> denied (snd (appendLocked io r s)) = None)"
proof -
  obtain i rs where l: "handle s = Some i" "dirent (fs s) = Some i" "i < next_ino (fs s)"
    "holds_log (inodes (fs s) i) rs []" "apply_all rs empty_mem = Inr (mem s)"
    "ssize s = length (inodes (fs s) i)" "good_mem o' D c (mem s)"
    using assms(1) by (auto simp: live_def)
  show ?thesis
    using assms(3) l(1,6) assms(4)
  proof (cases rule: appendLocked_cases)
    case refused
    then show ?thesis using assms(1,2) by (simp add: store_inv_live)
  next
    case failed
    then show ?thesis
      using failWriteLocked_inv [OF assms(1,2) l(1) failed(1) assms(4,5)] by (simp add: denied_failWriteLocked)
  next
    case (durable b)
    have "apply_all (rs @ [r\<lparr>rec_At := io_now io\<rparr>]) empty_mem = Inr m'"
      using l(5) assms(4) by (simp add: apply_all_append)
    then have "live o' D c (s\<lparr>fs := set_inode i (inodes (fs s) i @ b) (fs s), mem := m', ssize := ssize s + length b\<rparr>)"
      using l holds_log_snoc [OF l(4) durable(1)] assms(5) by (auto simp: live_def)
    then show ?thesis using durable assms(2,3) by (simp add: store_inv_live)
  qed
qed

section \<open>Records keep what is known\<close>

lemma State_of_wf:
  assumes "recompute e = e"
  shows "en_State e = StateIntent \<longleftrightarrow> en_Results e = [] \<and> en_DispatchedAt e = 0"
  using recompute_State [of e] assms by (auto split: if_splits)

lemma known_upd:
  assumes "known o' c m k h" "fmlookup (entries m) j = Some e" "en_Intent e' = en_Intent e"
    "en_State e \<noteq> StateIntent \<Longrightarrow> en_State e' \<noteq> StateIntent"
  shows "known o' c (upd_entry j e' m) k h"
  using assms by (auto simp: known_def)

lemma known_cong:
  "entries m' = entries m \<Longrightarrow> tombs m' = tombs m \<Longrightarrow> known o' c m' k h = known o' c m k h"
  by (simp add: known_def)

lemma disj_upd:
  "disj_mem m \<Longrightarrow> fmlookup (entries m) j \<noteq> None \<or> fmlookup (tombs m) j = None \<Longrightarrow> disj_mem (upd_entry j e m)"
  by (auto simp: disj_mem_def)

lemma good_mem_upd:
  assumes "good_mem o' D c m" "fmlookup (entries m) j = Some e" "en_Intent e' = en_Intent e"
    "en_State e \<noteq> StateIntent \<Longrightarrow> en_State e' \<noteq> StateIntent" "wf_mem (upd_entry j e' m)"
  shows "good_mem o' D c (upd_entry j e' m)"
  using assms by (auto simp: good_mem_def intro: known_upd disj_upd)

lemma good_mem_apply:
  assumes "good_mem o' D c m" "apply_log r m = Inr m'" "Kind r \<noteq> ''tombstone''"
    "\<And>i. Kind r = ''intent'' \<Longrightarrow> rec_Intent r = Some i \<Longrightarrow> fmlookup (tombs m) (CommandID i) = None"
    "Kind r = ''dispatched'' \<Longrightarrow> rec_At r \<noteq> 0"
  shows "good_mem o' D c m'"
proof -
  have g: "wf_mem m" "disj_mem m" "\<And>k h. (k, h) \<in> set D \<Longrightarrow> known o' c m k h"
    using assms(1) by (auto simp: good_mem_def)
  have wf: "wf_mem m'" using g(1) assms(2) by (rule wf_mem_apply)
  have st: "en_State e = StateIntent \<longleftrightarrow> en_Results e = [] \<and> en_DispatchedAt e = 0"
    if "fmlookup (entries m) k = Some e" for k e
    using wf_memD(1) [OF g(1) that] by (simp add: wf_entry_def State_of_wf)
  show ?thesis
    using assms(2)
  proof (cases rule: apply_log_InrE)
    case gen
    have "disj_mem m'" using g(2) gen by (simp add: disj_mem_def)
    moreover have "known o' c m' k h" if "(k, h) \<in> set D" for k h
      using g(3) [OF that] known_cong [of m' m] gen by simp
    ultimately show ?thesis using wf by (auto simp: good_mem_def)
  next
    case (intent i)
    have "disj_mem m'" using g(2) intent assms(4) by (auto simp: disj_mem_def)
    moreover have "known o' c m' k h" if "(k, h) \<in> set D" for k h
      using g(3) [OF that] intent by (auto simp: known_def)
    ultimately show ?thesis using wf by (auto simp: good_mem_def)
  next
    case (dispatched e)
    show ?thesis unfolding dispatched(3)
      using assms(1) dispatched(2)
      by (rule good_mem_upd) (use dispatched wf assms(5) in \<open>simp_all add: recompute_State\<close>)
  next
    case (executor e x)
    show ?thesis unfolding executor(4)
      using assms(1) executor(2) by (rule good_mem_upd) (use executor wf in simp_all)
  next
    case (result e x)
    show ?thesis unfolding result(5)
      using assms(1) result(2) by (rule good_mem_upd) (use result wf in \<open>simp_all add: recompute_State\<close>)
  next
    case (ack e)
    have "en_Results e \<noteq> []" using ack(3,4) by auto
    then show ?thesis unfolding ack(5)
      using assms(1) ack(2)
      by (intro good_mem_upd [OF assms(1) ack(2)])
        (use ack wf in \<open>simp_all add: apply_ack_def Let_def recompute_State\<close>)
  next
    case tombstone
    then show ?thesis using assms(3) by simp
  qed
qed

section \<open>Compaction\<close>

lemma write_records_encs:
  "write_records out n rs acc = Inr data \<Longrightarrow> \<exists>bs. encs rs = Some bs \<and> data = acc @ bs"
  by (induction rs arbitrary: n acc) (fastforce split: sum.splits option.splits)+

lemma write_tmp_log: "write_tmp out rs = Inr data \<Longrightarrow> holds_log data rs []"
  unfolding write_tmp_def holds_log_def by (auto split: option.splits dest: write_records_encs)

lemma apply_seq_all: "apply_all rs m = Inr m' \<Longrightarrow> apply_seq rs m = (m', None)"
  by (induction rs arbitrary: m) (auto split: sum.splits)

lemma horizon_bounds:
  "AuthorityExpiresAt (en_Intent e) + ClockMargin o' \<le> horizon o' e"
  "ackedAt e + MinTombstone o' \<le> horizon o' e"
  by (simp_all add: horizon_def Let_def)

lemma strip_entry_fields [simp]:
  "en_Intent (strip_entry e) = en_Intent e"
  "en_State (strip_entry e) = en_State e"
  "en_AckedRevision (strip_entry e) = en_AckedRevision e"
  "length (en_Results (strip_entry e)) = length (en_Results e)"
  "en_DispatchedAt (strip_entry e) = en_DispatchedAt e"
  by (simp_all add: strip_entry_def)

lemma compact_known:
  assumes "compact_to o' now m m'" "disj_mem m" "known o' c m k h" "c \<le> c'" "now \<le> c'"
  shows "known o' c' m' k h"
proof -
  have m': "fmlookup (entries m') k = (if survives m k then map_option strip_entry (fmlookup (entries m) k) else None)"
    "fmlookup (tombs m') k = compact_tomb o' now m k"
    using assms(1) by (auto simp: compact_to_def)
  from assms(3) consider "h \<le> c"
    | e where "fmlookup (entries m) k = Some e" "en_State e \<noteq> StateIntent"
        "h \<le> AuthorityExpiresAt (en_Intent e) + ClockMargin o'"
    | t where "fmlookup (tombs m) k = Some t" "h \<le> tb_ExpiresAt t"
    by (auto simp: known_def)
  then show ?thesis
  proof cases
    case 1
    then show ?thesis using assms(4) by (simp add: known_def)
  next
    case (2 e)
    have "h \<le> horizon o' e" using 2(3) horizon_bounds(1) [of e o'] by simp
    then show ?thesis
      using 2 m' assms(5) by (auto simp: known_def survives_def compact_tomb_def)
  next
    case (3 t)
    then have "fmlookup (entries m) k = None" using assms(2) by (auto simp: disj_mem_def)
    then show ?thesis using 3 m' assms(5) by (auto simp: known_def compact_tomb_def survives_def)
  qed
qed

lemma good_mem_compact:
  assumes "good_mem o' D c m" "apply_all (compact_records o' now m) empty_mem = Inr m'"
    "compact_to o' now m m'" "c \<le> c'" "now \<le> c'"
  shows "good_mem o' D c' m'"
proof -
  have "wf_mem m'" using wf_mem_empty assms(2) by (rule wf_mem_apply_all)
  moreover have "disj_mem m'"
    using assms(3) by (auto simp: disj_mem_def compact_to_def compact_tomb_def survives_def
        split: option.splits if_splits)
  ultimately show ?thesis
    using assms(1,3-5) compact_known by (fastforce simp: good_mem_def)
qed

text \<open>A compaction that reached its end, or one that left the store as it was.\<close>

lemma compactLocked_cases:
  assumes "wf_mem (mem s)" "disj_mem (mem s)" "denied s = None" "io_dirsync io = None"
  obtains (kept) e where "compactLocked io s = (Some e, s)"
  | (rewritten) data m' where
      "holds_log data (compact_records (opts s) (io_cnow io) (mem s)) []"
      "apply_all (compact_records (opts s) (io_cnow io) (mem s)) empty_mem = Inr m'"
      "compact_to (opts s) (io_cnow io) (mem s) m'"
      "compactLocked io s = (None, s\<lparr>fs := rename_log data (fs s), handle := Some (next_ino (fs s)),
         ssize := length data, mem := m'\<rparr>)"
proof -
  let ?rs = "compact_records (opts s) (io_cnow io) (mem s)"
  obtain m' where m': "apply_all ?rs empty_mem = Inr m'" "compact_to (opts s) (io_cnow io) (mem s) m'"
    using compaction_refines [OF assms(1,2)] by blast
  have hg: "\<not> highGen m' < highGen (mem s)" using m'(2) by (simp add: compact_to_def)
  consider (a) e where "compactLocked io s = (Some e, s)"
    | (b) data where "write_tmp (io_twrite io) ?rs = Inr data" "compactLocked io s =
        rebuild ?rs (s\<lparr>fs := rename_log data (fs s), handle := Some (next_ino (fs s)), ssize := length data\<rparr>)"
    using assms(3,4) unfolding compactLocked_def Let_def
    by (cases "io_tmp io"; cases "write_tmp (io_twrite io) ?rs"; cases "io_tsync io"; cases "io_rename io") auto
  then show thesis
  proof cases
    case a
    then show thesis by (rule kept)
  next
    case (b data)
    show thesis
      by (rule rewritten [OF write_tmp_log [OF b(1)] m'])
        (use b(2) hg apply_seq_all [OF m'(1)] in \<open>simp add: rebuild_def\<close>)
  qed
qed

lemma compactLocked_inv:
  assumes "live o' D c s" "opts s = o'" "denied s = None" "io_dirsync io = None"
    "c \<le> c'" "io_cnow io \<le> c'"
  shows "live o' D c' (snd (compactLocked io s)) \<and> opts (snd (compactLocked io s)) = o' \<and>
    denied (snd (compactLocked io s)) = None"
proof -
  have g: "good_mem o' D c (mem s)" using assms(1) by (auto simp: live_def)
  then have w: "wf_mem (mem s)" "disj_mem (mem s)" by (auto simp: good_mem_def)
  from w assms(3,4) show ?thesis
  proof (cases rule: compactLocked_cases)
    case kept
    then show ?thesis using assms live_mono by auto
  next
    case (rewritten data m')
    have "good_mem o' D c' m'"
      using good_mem_compact [OF g _ _ assms(5,6)] rewritten(2,3) assms(2) by simp
    then show ?thesis
      using rewritten assms(2,3) by (auto simp: live_def rename_log_def)
  qed
qed

section \<open>Opening\<close>

lemma headerSize_le_log: "holds_log data rs tail \<Longrightarrow> headerSize \<le> length data"
  by (auto simp: holds_log_def)

lemma header_read:
  "take (length magic) (log_header @ x) = magic"
  "schema_of (log_header @ x) = SchemaVersion"
proof -
  show "take (length magic) (log_header @ x) = magic" by (simp add: log_header_def)
  show "schema_of (log_header @ x) = SchemaVersion"
    using Uint32_put [of magic "of_int SchemaVersion" "replicate 4 0 @ x"]
    by (simp add: schema_of_def log_header_def SchemaVersion_def)
qed

text \<open>Reading a file that starts with the header.\<close>

lemma load_log:
  assumes "io_read io = None" "dirent (fs s) = Some i" "inodes (fs s) i = log_header @ rest" "mem s = empty_mem"
  shows "load io s =
    (case replay (maxRecord (opts s)) (inodes (fs s) i) headerSize empty_mem of
       Inl e \<Rightarrow> deny ReasonCorrupt e (s\<lparr>schema := SchemaVersion,
         mem := replayPrefixOnly (maxRecord (opts s)) (inodes (fs s) i) headerSize empty_mem\<rparr>)
     | Inr (good, torn, m) \<Rightarrow> load_finish io i good torn (s\<lparr>schema := SchemaVersion, mem := m\<rparr>))"
proof -
  define data where "data = log_header @ rest"
  have data: "\<not> length data < headerSize" "take (length magic) data = magic" "schema_of data = SchemaVersion"
    "\<not> SchemaVersion < 1"
    unfolding data_def using header_read [of rest] by (simp_all add: SchemaVersion_def)
  have inode: "inodes (fs s) i = data" using assms(3) by (simp add: data_def)
  show ?thesis unfolding inode using inode data assms(1,2,4) by (simp add: load_def Let_def)
qed

lemma createLog_inv:
  assumes "good_mem o' D c empty_mem" "mem s = empty_mem" "opts s = o'"
    "case dirent (fs s) of None \<Rightarrow> True | Some i \<Rightarrow> i < next_ino (fs s) \<and> length (inodes (fs s) i) < headerSize"
  shows "store_inv o' D c (create_or_deny io s)"
proof -
  define i where "i = (case dirent (fs s) of Some i \<Rightarrow> i | None \<Rightarrow> next_ino (fs s))"
  define f1 where "f1 = (set_inode i [] (fs s))\<lparr>dirent := Some i,
    next_ino := (if dirent (fs s) = None then Suc (next_ino (fs s)) else next_ino (fs s))\<rparr>"
  have f1: "i < next_ino f1" "dirent f1 = Some i" "inodes f1 i = []"
    using assms(4) by (auto simp: f1_def i_def split: option.splits)
  have old: "disk_inv o' D c (fs s)"
    using assms(1,4) by (auto simp: disk_inv_def split: option.splits)
  have part: "disk_inv o' D c (set_inode i (take k log_header) f1)" for k
  proof (cases "k < headerSize")
    case True
    then show ?thesis using f1 assms(1) by (simp add: disk_inv_def)
  next
    case False
    then have "holds_log (take k log_header) [] []" by (simp add: holds_log_def)
    then show ?thesis using f1 assms(1) cut_record_Nil by (fastforce simp: disk_inv_def)
  qed
  have full: "disk_inv o' D c (set_inode i log_header f1)" using part [of headerSize] by simp
  have "live o' D c (s\<lparr>fs := set_inode i log_header f1, handle := Some i, ssize := headerSize\<rparr>)"
    using f1 assms(1,2) by (auto simp: live_def holds_log_def intro!: exI [of _ "[]"])
  moreover have "createLog io s =
      (case io_open io of Some e \<Rightarrow> (Some e, s)
       | None \<Rightarrow> (case WriteAt (Some i) log_header 0 (io_write io) f1 of
           (Some e, f2) \<Rightarrow> (Some e, s\<lparr>fs := f2\<rparr>)
         | (None, f2) \<Rightarrow> (case io_sync io of Some e \<Rightarrow> (Some e, s\<lparr>fs := f2\<rparr>)
             | None \<Rightarrow> (case io_dirsync io of Some e \<Rightarrow> (Some e, s\<lparr>fs := f2\<rparr>)
                 | None \<Rightarrow> (None, s\<lparr>fs := f2, handle := Some i, ssize := headerSize\<rparr>)))))"
    by (simp only: createLog_def Let_def f1_def i_def)
  ultimately show ?thesis
    using assms(3) old part full f1(3)
    by (auto simp: create_or_deny_def WriteAt_def write_at_def deny_def store_inv_def split: option.splits)
qed

lemma load_finish_inv:
  assumes "opts s = o'" "dirent (fs s) = Some i" "i < next_ino (fs s)" "inodes (fs s) i = log_header @ bs @ tail"
    "encs rs = Some bs" "cut_record tail" "apply_all rs empty_mem = Inr (mem s)" "good_mem o' D c (mem s)"
  shows "store_inv o' D c (load_finish io i (headerSize + length bs) (tail \<noteq> []) s)"
proof -
  let ?f = "set_inode i (log_header @ bs) (fs s)"
  have old: "disk_inv o' D c (fs s)"
    using assms(2-8) by (fastforce simp: disk_inv_def holds_log_def)
  have trunc: "truncate_to (headerSize + length bs) (log_header @ bs @ tail) = log_header @ bs"
    using truncate_to_prefix [of "log_header @ bs" tail] by simp
  have cut: "live o' D c (s\<lparr>fs := ?f, tornRepaired := True, handle := Some i, ssize := headerSize + length bs\<rparr>)"
    using assms by (auto simp: live_def holds_log_def)
  have whole: "tail = [] \<Longrightarrow> live o' D c (s\<lparr>handle := Some i, ssize := headerSize + length bs\<rparr>)"
    using assms by (auto simp: live_def holds_log_def)
  have new: "disk_inv o' D c ?f" using live_disk_inv [OF cut] by simp
  show ?thesis
    using assms(1,4) old new cut whole
    by (auto simp: load_finish_def deny_def Truncate_def trunc store_inv_def split: option.split)
qed

lemma load_inv:
  assumes "disk_inv o' D c (fs s)" "mem s = empty_mem" "opts s = o'"
  shows "store_inv o' D c (load io s)"
proof (cases "io_read io")
  case (Some e)
  then show ?thesis using assms by (simp add: load_def deny_def store_inv_def)
next
  case None
  show ?thesis
  proof (cases "dirent (fs s)")
    case dir: None
    then have "good_mem o' D c empty_mem" using assms(1) by (simp add: disk_inv_def)
    then have "store_inv o' D c (create_or_deny io s)"
      using assms(2,3) by (rule createLog_inv) (simp add: dir)
    then show ?thesis using None dir by (simp add: load_def)
  next
    case (Some i)
    from assms(1) Some consider "length (inodes (fs s) i) < headerSize" "good_mem o' D c empty_mem" "i < next_ino (fs s)"
      | rs tail m bs where "encs rs = Some bs" "inodes (fs s) i = log_header @ bs @ tail" "cut_record tail"
          "apply_all rs empty_mem = Inr m" "good_mem o' D c m" "i < next_ino (fs s)"
      by (auto simp: disk_inv_def holds_log_def)
    then show ?thesis
    proof cases
      case 1
      have "store_inv o' D c (create_or_deny io s)"
        using 1(2) assms(2,3) by (rule createLog_inv) (simp add: Some 1)
      then show ?thesis using 1(1) None Some by (simp add: load_def)
    next
      case 2
      let ?s1 = "s\<lparr>schema := SchemaVersion\<rparr>"
      have ld: "load io s =
          (case replay (maxRecord (opts s)) (inodes (fs s) i) headerSize empty_mem of
             Inl e \<Rightarrow> deny ReasonCorrupt e
               (?s1\<lparr>mem := replayPrefixOnly (maxRecord (opts s)) (inodes (fs s) i) headerSize empty_mem\<rparr>)
           | Inr (good, torn, m) \<Rightarrow> load_finish io i good torn (?s1\<lparr>mem := m\<rparr>))"
        by (rule load_log) (use None Some assms(2) 2(2) in simp_all)
      have "store_inv o' D c (load_finish io i (headerSize + length bs) (tail \<noteq> []) (?s1\<lparr>mem := m\<rparr>))"
        by (rule load_finish_inv [where rs = rs]) (use assms(3) Some 2 in simp_all)
      then show ?thesis
        using ld assms(1,3) replay_encs [OF 2(1,4,3), of "maxRecord (opts s)" log_header] 2(2)
        by (auto simp: store_inv_def deny_def)
    qed
  qed
qed

lemma openRoot_inv:
  assumes "openRoot io o0 f = Inr s" "disk_inv (withDefaults o0) D c f"
  shows "store_inv (withDefaults o0) D c s"
  using assms by (auto simp: openRoot_def intro!: load_inv split: option.splits)

section \<open>Operations\<close>

lemma appendLocked_denied: "denied s = Some d \<Longrightarrow> appendLocked io r s = (Some (ErrDenied d), s)"
  by (simp add: appendLocked_def)

lemma store_invD:
  assumes "store_inv o' D c s" "denied s = None"
  shows "live o' D c s" "opts s = o'" "good_mem o' D c (mem s)" "wf_mem (mem s)"
  using assms by (auto simp: store_inv_def live_def good_mem_def)

text \<open>Appending a record the memory accepts, other than a tombstone.\<close>

lemma append_op_inv:
  assumes "store_inv o' D c s" "Kind r \<noteq> ''tombstone''" "Kind r = ''dispatched'' \<Longrightarrow> io_now io \<noteq> 0"
    "\<And>i. Kind r = ''intent'' \<Longrightarrow> rec_Intent r = Some i \<Longrightarrow> fmlookup (tombs (mem s)) (CommandID i) = None"
    "apply_log (r\<lparr>rec_At := io_now io\<rparr>) (mem s) = Inr m'"
  shows "store_inv o' D c (snd (appendLocked io r s)) \<and> (fst (appendLocked io r s) = None \<longrightarrow>
    mem (snd (appendLocked io r s)) = m' \<and> denied (snd (appendLocked io r s)) = None)"
proof (cases "denied s")
  case (Some d)
  then show ?thesis using assms(1) by (simp add: appendLocked_denied)
next
  case None
  note l = store_invD [OF assms(1) None]
  have "good_mem o' D c m'"
    by (rule good_mem_apply [OF l(3) assms(5)]) (use assms(2-4) in auto)
  then show ?thesis by (rule appendLocked_inv [OF l(1,2) None assms(5)])
qed

lemma NoteGeneration_inv:
  assumes "store_inv o' D c s"
  shows "store_inv o' D c (snd (NoteGeneration io g s))"
proof -
  let ?r = "(mkrec ''gen'' [])\<lparr>rec_Generation := g\<rparr>"
  obtain m' where "apply_log (?r\<lparr>rec_At := io_now io\<rparr>) (mem s) = Inr m'"
    by (simp add: apply_log_def mkrec_def)
  then show ?thesis
    using append_op_inv [OF assms, of ?r io m'] assms by (simp add: NoteGeneration_def mkrec_def)
qed

lemma MarkDispatched_inv:
  assumes "store_inv o' D c s" "io_now io \<noteq> 0"
  shows "store_inv o' D c (snd (MarkDispatched io k s))"
    and "fst (MarkDispatched io k s) = None \<Longrightarrow> \<exists>e e'. fmlookup (entries (mem s)) k = Some e \<and>
      en_State e = StateIntent \<and> fmlookup (entries (mem (snd (MarkDispatched io k s)))) k = Some e' \<and>
      en_Intent e' = en_Intent e \<and> en_State e' = StateDispatched \<and> denied s = None \<and>
      denied (snd (MarkDispatched io k s)) = None"
proof -
  have "store_inv o' D c (snd (MarkDispatched io k s)) \<and> (fst (MarkDispatched io k s) = None \<longrightarrow>
      (\<exists>e e'. fmlookup (entries (mem s)) k = Some e \<and>
      en_State e = StateIntent \<and> fmlookup (entries (mem (snd (MarkDispatched io k s)))) k = Some e' \<and>
      en_Intent e' = en_Intent e \<and> en_State e' = StateDispatched \<and> denied s = None \<and>
      denied (snd (MarkDispatched io k s)) = None))"
  proof (cases "\<exists>e. fmlookup (entries (mem s)) k = Some e \<and> en_State e = StateIntent")
    case False
    then show ?thesis using assms(1) by (auto simp: MarkDispatched_def split: option.split)
  next
    case True
    then obtain e where e: "fmlookup (entries (mem s)) k = Some e" "en_State e = StateIntent" by blast
    let ?r = "mkrec ''dispatched'' k"
    let ?e = "recompute (e\<lparr>en_DispatchedAt := io_now io\<rparr>)"
    have ap: "apply_log (?r\<lparr>rec_At := io_now io\<rparr>) (mem s) = Inr (upd_entry k ?e (mem s))"
      using e(1) by (simp add: apply_log_def mkrec_def)
    have "en_State ?e = StateDispatched" if "denied s = None"
    proof -
      have "recompute e = e" using store_invD(4) [OF assms(1) that] e(1) by (auto simp: wf_mem_def wf_entry_def)
      then have "en_Results e = []" using State_of_wf e(2) by blast
      then show ?thesis using assms(2) by (simp add: recompute_State)
    qed
    moreover have "denied s = None" if "fst (appendLocked io ?r s) = None"
      using that appendLocked_denied [of s _ io ?r] by (cases "denied s") auto
    ultimately show ?thesis
      using append_op_inv [OF assms(1), of ?r io, OF _ _ _ ap] assms(2) e
      by (auto simp: MarkDispatched_def mkrec_def)
  qed
  then show "store_inv o' D c (snd (MarkDispatched io k s))"
    and "fst (MarkDispatched io k s) = None \<Longrightarrow> \<exists>e e'. fmlookup (entries (mem s)) k = Some e \<and>
      en_State e = StateIntent \<and> fmlookup (entries (mem (snd (MarkDispatched io k s)))) k = Some e' \<and>
      en_Intent e' = en_Intent e \<and> en_State e' = StateDispatched \<and> denied s = None \<and>
      denied (snd (MarkDispatched io k s)) = None"
    by blast+
qed

lemma RecordExecutor_inv:
  assumes "store_inv o' D c s"
  shows "store_inv o' D c (snd (RecordExecutor io k x s))"
proof (cases "\<exists>e. fmlookup (entries (mem s)) k = Some e \<and> en_State e = StateDispatched")
  case False
  then show ?thesis using assms by (auto simp: RecordExecutor_def split: option.split)
next
  case True
  then obtain e where e: "fmlookup (entries (mem s)) k = Some e" "en_State e = StateDispatched" by blast
  let ?r = "(mkrec ''executor'' k)\<lparr>rec_Executor := Some x\<rparr>"
  have "apply_log (?r\<lparr>rec_At := io_now io\<rparr>) (mem s) = Inr (upd_entry k (e\<lparr>en_Executor := Some x\<rparr>) (mem s))"
    using e(1) by (simp add: apply_log_def mkrec_def)
  from append_op_inv [OF assms _ _ _ this] show ?thesis
    using e by (simp add: RecordExecutor_def mkrec_def)
qed

lemma RecordResult_inv:
  assumes "store_inv o' D c s"
  shows "store_inv o' D c (snd (RecordResult io k x s))"
proof (cases "\<exists>e. fmlookup (entries (mem s)) k = Some e \<and> rr_Revision x = int (length (en_Results e)) + 1")
  case False
  then show ?thesis using assms by (auto simp: RecordResult_def split: option.split)
next
  case True
  then obtain e where e: "fmlookup (entries (mem s)) k = Some e" "rr_Revision x = int (length (en_Results e)) + 1"
    by blast
  let ?r = "(mkrec ''result'' k)\<lparr>rec_Result := Some x\<rparr>"
  have "apply_log (?r\<lparr>rec_At := io_now io\<rparr>) (mem s) =
      Inr (upd_entry k (recompute (e\<lparr>en_Results := en_Results e @ [x]\<rparr>)) (mem s))"
    using e by (simp add: apply_log_def mkrec_def)
  from append_op_inv [OF assms _ _ _ this] show ?thesis
    using e assms by (auto simp: RecordResult_def mkrec_def)
qed

lemma Compact_inv:
  assumes "store_inv o' D c s" "io_dirsync io = None" "c \<le> c'" "io_cnow io \<le> c'"
  shows "store_inv o' D c' (snd (compactLocked io s))"
proof (cases "denied s")
  case None
  then show ?thesis
    using compactLocked_inv [OF store_invD(1,2) [OF assms(1) None] None assms(2-4)] store_inv_live by blast
next
  case (Some d)
  then show ?thesis using assms store_inv_mono by (simp add: compactLocked_def)
qed

lemma Ack_inv:
  assumes "store_inv o' D c s" "io_dirsync io = None" "c \<le> c'" "io_cnow io \<le> c'"
  shows "store_inv o' D c' (snd (Ack io k v b s))"
proof (cases "\<exists>e. fmlookup (entries (mem s)) k = Some e \<and> 1 \<le> v \<and> v \<le> int (length (en_Results e))")
  case False
  then have "snd (Ack io k v b s) = s" by (auto simp: Ack_def split: option.split)
  then show ?thesis using assms store_inv_mono by simp
next
  case True
  then obtain e where e: "fmlookup (entries (mem s)) k = Some e" "1 \<le> v" "v \<le> int (length (en_Results e))"
    by blast
  let ?r = "(mkrec ''ack'' k)\<lparr>rec_Revision := v, rec_Rejected := b\<rparr>"
  have "apply_log (?r\<lparr>rec_At := io_now io\<rparr>) (mem s) =
      Inr (upd_entry k (apply_ack (?r\<lparr>rec_At := io_now io\<rparr>) e) (mem s))"
    using e by (simp add: apply_log_def mkrec_def)
  from append_op_inv [OF assms(1) _ _ _ this]
  have inv: "store_inv o' D c (snd (appendLocked io ?r s))" by (simp add: mkrec_def)
  note inv' = store_inv_mono [OF inv assms(3)] Compact_inv [OF inv assms(2-4)]
  have "snd (Ack io k v b s) \<in> {s, snd (appendLocked io ?r s), snd (compactLocked io (snd (appendLocked io ?r s)))}"
    using e by (auto simp: Ack_def split: prod.split option.split)
  then show ?thesis using inv' store_inv_mono [OF assms(1,3)] by auto
qed

lemma reserveLocked_snd: "snd (reserveLocked io s) \<in> {s, snd (compactLocked io s)}"
  by (auto simp: reserveLocked_def split: prod.split option.split)

text \<open>A command the store does not know is not known after a compaction either.\<close>

lemma compactLocked_fresh:
  assumes "store_inv o' D c s" "denied s = None" "io_dirsync io = None"
    "fmlookup (entries (mem s)) k = None" "fmlookup (tombs (mem s)) k = None"
  shows "fmlookup (entries (mem (snd (compactLocked io s)))) k = None \<and>
    fmlookup (tombs (mem (snd (compactLocked io s)))) k = None"
proof -
  have w: "wf_mem (mem s)" "disj_mem (mem s)"
    using store_invD [OF assms(1,2)] by (auto simp: good_mem_def)
  from w assms(2,3) show ?thesis
    by (cases rule: compactLocked_cases)
      (use assms(4,5) in \<open>auto simp: compact_to_def compact_tomb_def survives_def\<close>)
qed

lemma Admit_inv:
  assumes "store_inv o' D c s" "io_dirsync io = None" "c \<le> c'" "io_cnow io \<le> c'"
  shows "store_inv o' D c' (snd (Admit io i s))"
proof (cases "validIntent i \<and> denied s = None \<and> fmlookup (tombs (mem s)) (CommandID i) = None \<and>
    fmlookup (entries (mem s)) (CommandID i) = None")
  case False
  then have "snd (Admit io i s) = s" by (auto simp: Admit_def split: option.split)
  then show ?thesis using assms store_inv_mono by simp
next
  case True
  let ?s1 = "snd (reserveLocked io s)"
  let ?r = "(mkrec ''intent'' [])\<lparr>rec_Intent := Some i\<rparr>"
  have inv1: "store_inv o' D c' ?s1"
    using reserveLocked_snd [of io s] Compact_inv [OF assms] store_inv_mono [OF assms(1,3)] by auto
  have fresh: "fmlookup (entries (mem ?s1)) (CommandID i) = None" "fmlookup (tombs (mem ?s1)) (CommandID i) = None"
    using reserveLocked_snd [of io s] compactLocked_fresh [OF assms(1) _ assms(2)] True by auto
  have id: "CommandID i \<noteq> []" using True by (auto simp: validIntent_def)
  obtain m' where "apply_log (?r\<lparr>rec_At := io_now io\<rparr>) (mem ?s1) = Inr m'"
    using fresh id by (simp add: apply_log_def mkrec_def Let_def)
  from append_op_inv [OF inv1 _ _ _ this]
  have inv2: "store_inv o' D c' (snd (appendLocked io ?r ?s1))" using fresh by (auto simp: mkrec_def)
  have "snd (Admit io i s) \<in> {s, ?s1, snd (appendLocked io ?r ?s1)}"
    by (auto simp: Admit_def split: option.split prod.split)
  then show ?thesis using inv1 inv2 store_inv_mono [OF assms(1,3)] by auto
qed

lemma Close_inv: "store_inv o' D c s \<Longrightarrow> store_inv o' D c (Close s)"
  by (auto simp: store_inv_def Close_def split: option.splits)

section \<open>Runs with crashes\<close>

text \<open>
  The operations of one process, interleaved with crashes and reopenings.  The ghost field records
  every dispatch that was reported durable, with the instant until which it must not be repeated.
  The clock never runs backwards.  \<^verbatim>\<open>Decommission\<close> and \<^verbatim>\<open>HandOff\<close>, which end the journal,
  are not steps.
\<close>

datatype jop =
    OpAdmit Intent
  | OpNote int
  | OpMark string
  | OpExecutor string ExecutorRef
  | OpResult string ResultRecord
  | OpAck string int bool
  | OpCompact
  | OpClose

definition run_op :: "io \<Rightarrow> jop \<Rightarrow> Store \<Rightarrow> Store" where
  "run_op io op s =
     (case op of
        OpAdmit i \<Rightarrow> snd (Admit io i s)
      | OpNote g \<Rightarrow> snd (NoteGeneration io g s)
      | OpMark k \<Rightarrow> snd (MarkDispatched io k s)
      | OpExecutor k x \<Rightarrow> snd (RecordExecutor io k x s)
      | OpResult k x \<Rightarrow> snd (RecordResult io k x s)
      | OpAck k v b \<Rightarrow> snd (Ack io k v b s)
      | OpCompact \<Rightarrow> snd (Compact io s)
      | OpClose \<Rightarrow> Close s)"

text \<open>The end of a command's authority, with the clock margin, read off its entry.\<close>

definition authority_end :: "Store \<Rightarrow> string \<Rightarrow> gtime" where
  "authority_end s k =
     (case fmlookup (entries (mem s)) k of
        None \<Rightarrow> 0 | Some e \<Rightarrow> AuthorityExpiresAt (en_Intent e) + ClockMargin (opts s))"

definition note_dispatch :: "io \<Rightarrow> jop \<Rightarrow> Store \<Rightarrow> (string \<times> gtime) list \<Rightarrow> (string \<times> gtime) list" where
  "note_dispatch io op s D =
     (case op of
        OpMark k \<Rightarrow> if fst (MarkDispatched io k s) = None then (k, authority_end s k) # D else D
      | _ \<Rightarrow> D)"

record jworld =
  proc :: "Store option"
  jdisk :: fsys
  jclock :: gtime
  dispatches :: "(string \<times> gtime) list"

definition jinit :: "jworld \<Rightarrow> bool" where
  "jinit w \<longleftrightarrow> proc w = None \<and> dirent (jdisk w) = None \<and> 0 < jclock w \<and> dispatches w = []"

inductive jstep :: "Options \<Rightarrow> jworld \<Rightarrow> jworld \<Rightarrow> bool" for o' where
  op: "proc w = Some s \<Longrightarrow> io_dirsync io = None \<Longrightarrow> jclock w \<le> io_now io \<Longrightarrow> io_now io \<le> c' \<Longrightarrow>
       io_cnow io \<le> c' \<Longrightarrow>
       jstep o' w (w\<lparr>proc := Some (run_op io op s), jclock := c',
         dispatches := note_dispatch io op s (dispatches w)\<rparr>)"
| crash: "proc w = Some s \<Longrightarrow> jstep o' w (w\<lparr>proc := None, jdisk := fs s\<rparr>)"
| reopen: "proc w = None \<Longrightarrow> openRoot io o' (jdisk w) = Inr s \<Longrightarrow> jclock w \<le> c' \<Longrightarrow>
       jstep o' w (w\<lparr>proc := Some s, jclock := c'\<rparr>)"

inductive_cases jstepE: "jstep o' w w'"

definition jinv :: "Options \<Rightarrow> jworld \<Rightarrow> bool" where
  "jinv o' w \<longleftrightarrow> 0 < jclock w \<and>
     (case proc w of
        None \<Rightarrow> disk_inv (withDefaults o') (dispatches w) (jclock w) (jdisk w)
      | Some s \<Rightarrow> store_inv (withDefaults o') (dispatches w) (jclock w) s)"

lemma good_mem_empty: "good_mem o' [] c empty_mem"
  using wf_mem_empty by (simp add: good_mem_def disj_mem_def) (simp add: empty_mem_def)

lemma jinit_inv: "jinit w \<Longrightarrow> jinv o' w"
  by (simp add: jinit_def jinv_def disk_inv_def good_mem_empty)

lemma live_known:
  "live o' D c s \<Longrightarrow> known o' c (mem s) k h \<Longrightarrow> live o' ((k, h) # D) c s"
  by (auto simp: live_def good_mem_def)

lemma run_op_inv:
  assumes "store_inv o' D c s" "io_dirsync io = None" "0 < c" "c \<le> io_now io" "io_now io \<le> c'" "io_cnow io \<le> c'"
  shows "store_inv o' (note_dispatch io op s D) c' (run_op io op s)"
proof -
  have c: "c \<le> c'" using assms(4,5) by simp
  note mono = store_inv_mono [OF _ c]
  have mark: "store_inv o' (note_dispatch io (OpMark k) s D) c' (snd (MarkDispatched io k s))" for k
  proof (cases "fst (MarkDispatched io k s) = None")
    case False
    then show ?thesis
      using MarkDispatched_inv(1) [OF assms(1)] assms(3,4) by (auto simp: note_dispatch_def intro: mono)
  next
    case True
    have n: "io_now io \<noteq> 0" using assms(3,4) by simp
    let ?s = "snd (MarkDispatched io k s)"
    obtain e e' where e: "fmlookup (entries (mem s)) k = Some e" "denied s = None"
      "fmlookup (entries (mem ?s)) k = Some e'" "en_Intent e' = en_Intent e" "en_State e' = StateDispatched"
      "denied ?s = None"
      using MarkDispatched_inv(2) [OF assms(1) n True] by blast
    have inv: "store_inv o' D c' ?s" using mono MarkDispatched_inv(1) [OF assms(1) n] .
    have "authority_end s k = AuthorityExpiresAt (en_Intent e) + ClockMargin o'"
      using e(1) store_invD(2) [OF assms(1) e(2)] by (simp add: authority_end_def)
    then have "known o' c' (mem ?s) k (authority_end s k)"
      using e(3-5) by (auto simp: known_def)
    then have "live o' ((k, authority_end s k) # D) c' ?s"
      using live_known [OF store_invD(1) [OF inv e(6)]] by simp
    then show ?thesis
      using True store_invD(2) [OF inv e(6)] by (simp add: note_dispatch_def store_inv_live)
  qed
  show ?thesis
    using mark assms(1,2,6) c
    by (cases op) (auto simp: run_op_def note_dispatch_def Compact_def
        intro: mono Admit_inv NoteGeneration_inv RecordExecutor_inv RecordResult_inv Ack_inv Compact_inv Close_inv)
qed

lemma store_inv_disk: "store_inv o' D c s \<Longrightarrow> disk_inv o' D c (fs s)"
  by (simp add: store_inv_def)

lemma jstep_inv: "jinv o' w \<Longrightarrow> jstep o' w w' \<Longrightarrow> jinv o' w'"
  by (erule jstepE)
    (auto simp: jinv_def intro: run_op_inv store_inv_disk store_inv_mono openRoot_inv)

interpretation journal: invariant_system jinit "jstep o'" "jinv o'" for o'
  by unfold_locales (auto intro: jinit_inv jstep_inv)

text \<open>What a store that can still dispatch knows of earlier dispatches.\<close>

lemma dispatch_fresh:
  assumes "jinv o' w" "proc w = Some s" "fst (MarkDispatched io k s) = None" "(k, h) \<in> set (dispatches w)"
  shows "h \<le> jclock w"
proof -
  have inv: "store_inv (withDefaults o') (dispatches w) (jclock w) s"
    using assms(1,2) by (simp add: jinv_def)
  obtain e where e: "fmlookup (entries (mem s)) k = Some e" "en_State e = StateIntent"
    "fst (appendLocked io (mkrec ''dispatched'' k) s) = None"
    using assms(3) by (auto simp: MarkDispatched_def split: option.splits if_splits)
  have d: "denied s = None"
    using e(3) appendLocked_denied [of s _ io] by (cases "denied s") auto
  have "good_mem (withDefaults o') (dispatches w) (jclock w) (mem s)"
    using store_invD(3) [OF inv d] .
  then show ?thesis
    using assms(4) e(1,2) by (fastforce simp: good_mem_def known_def disj_mem_def)
qed

end
