(* ===== verification/Journal_Properties.thy ===== *)
theory Journal_Properties
  imports Journal_Safety
begin

text \<open>
  The properties of the Guard journal, over the definitions of \<^verbatim>\<open>Journal_Log\<close> and
  \<^verbatim>\<open>Journal_Store\<close>: exactly-once dispatch across crashes, durability and atomicity of appends,
  recovery of a torn tail, refusal to touch a corrupt file, correctness of compaction, admission and
  fencing.
\<close>

section \<open>A log that reopens\<close>


text \<open>A record that fits is appended when the system calls succeed.\<close>

lemma appendLocked_ok:
  assumes "denied s = None" "handle s = Some i" "ssize s = length (inodes (fs s) i)"
    "io_write io = None" "io_sync io = None"
    "encodeRecord (r\<lparr>rec_At := io_now io\<rparr>) = Inr b" "int (length b) \<le> maxRecord (opts s)"
    "apply_log (r\<lparr>rec_At := io_now io\<rparr>) (mem s) = Inr m'"
  shows "appendLocked io r s =
    (None, s\<lparr>fs := set_inode i (inodes (fs s) i @ b) (fs s), mem := m', ssize := ssize s + length b\<rparr>)"
  using assms by (simp add: appendLocked_def WriteAt_def write_at_end)

lemma appendLocked_SuccessD:
  assumes "appendLocked io r s = (None, s')" "handle s = Some i" "ssize s = length (inodes (fs s) i)"
  obtains b m' where "denied s = None" "encodeRecord (r\<lparr>rec_At := io_now io\<rparr>) = Inr b"
    "int (length b) \<le> maxRecord (opts s)" "apply_log (r\<lparr>rec_At := io_now io\<rparr>) (mem s) = Inr m'"
    "s' = s\<lparr>fs := set_inode i (inodes (fs s) i @ b) (fs s), mem := m', ssize := ssize s + length b\<rparr>"
proof -
  have nf: "failWriteLocked io e t \<noteq> (None, u)" for e t u
    using denied_failWriteLocked [of io e t] by (metis fst_conv)
  show thesis
    using assms unfolding appendLocked_def WriteAt_def Let_def
    by (auto simp: write_at_end nf split: option.splits sum.splits if_splits prod.splits intro!: that)
qed

lemma load_frames:
  assumes "dirent f = Some i" "inodes f i = log_header @ bs @ tail"
    "replay (maxRecord (withDefaults o')) (log_header @ bs @ tail) headerSize empty_mem =
       Inr (headerSize + length bs, tail \<noteq> [], m)"
    "io_lock io = None" "io_read io = None" "io_open io = None" "io_trunc io = None" "io_sync io = None"
  shows "\<exists>s. openRoot io o' f = Inr s \<and> mem s = m \<and> denied s = None \<and> handle s = Some i \<and>
    ssize s = headerSize + length bs \<and> tornRepaired s = (tail \<noteq> []) \<and> dirent (fs s) = Some i \<and>
    inodes (fs s) i = log_header @ bs \<and> opts s = withDefaults o'"
proof -
  have trunc: "truncate_to (headerSize + length bs) (log_header @ bs @ tail) = log_header @ bs"
    using truncate_to_prefix [of "log_header @ bs" tail] by simp
  show ?thesis
    using assms trunc
    by (cases "tail = []")
      (auto simp: openRoot_def load_log [OF assms(5), where i = i and rest = "bs @ tail"] load_finish_def Truncate_def)
qed

lemma mem_load_finish: "mem (load_finish io i good torn s) = mem s"
  by (auto simp: load_finish_def deny_def split: option.split prod.split)


lemma create_or_deny_fields:
  assumes "denied s = None"
  shows "mem (create_or_deny io s) = mem s"
    "denied (create_or_deny io s) = Some d \<Longrightarrow> de_Reason d = ReasonWriteFailed"
  using assms by (auto simp: create_or_deny_def createLog_def deny_def Let_def split: option.splits prod.splits)



lemma load_wf:
  assumes "mem s = empty_mem" "denied s = None"
  shows "wf_mem (mem (load io s))"
proof -
  note wf = wf_mem_empty wf_mem_replay [OF wf_mem_empty] wf_mem_replayPrefixOnly [OF wf_mem_empty]
  have c: "wf_mem (mem (create_or_deny io s))" using assms wf(1) by (simp add: create_or_deny_fields)
  show ?thesis
    unfolding load_def Let_def
    by (simp add: c assms(1) wf deny_def mem_load_finish split: option.split sum.split prod.split)
qed

lemma open_wf_aux: "openRoot io o' f = Inr s \<Longrightarrow> wf_mem (mem s)"
  using load_wf by (auto simp: openRoot_def split: option.splits)







section \<open>Evidence\<close>

lemma mkrec_fields [simp]: "Kind (mkrec k i) = k" "rec_ID (mkrec k i) = i"
  by (simp_all add: mkrec_def)













section \<open>Reading, admission, handoff\<close>

lemma set_entry_list:
  "set (List.map_filter (fmlookup m) (sorted_keys m)) = {e. \<exists>k. fmlookup m k = Some e}"
  by (force simp: List.map_filter_def intro: fmdomI)

lemma Admit_reserves_aux:
  assumes "Admit io i s = (Inr (e, False), s')"
  shows "\<exists>s1. reserveLocked io s = (None, s1) \<and> int (ssize s1) + reserve s1 \<le> MaxBytes (opts s1) \<and>
    (\<forall>n. io_free io = Inr n \<longrightarrow> reserve s1 + MaxResultBytes (opts s1) div 4 \<le> int n) \<and>
    appendLocked io ((mkrec ''intent'' [])\<lparr>rec_Intent := Some i\<rparr>) s1 = (None, s')"
proof -
  obtain s1 where s1: "reserveLocked io s = (None, s1)"
    "appendLocked io ((mkrec ''intent'' [])\<lparr>rec_Intent := Some i\<rparr>) s1 = (None, s')"
    using assms by (auto simp: Admit_def split: if_splits option.splits prod.splits)
  have "int (ssize s1) + reserve s1 \<le> MaxBytes (opts s1) \<and> reserve_volume io s1 = None"
    using s1(1) by (auto simp: reserveLocked_def split: if_splits prod.splits option.splits)
  then show ?thesis using s1 by (auto simp: reserve_volume_def split: sum.splits if_splits)
qed




section \<open>Properties\<close>




text \<open>
  C5: a crash that leaves any proper part of the next record behind a readable log loses nothing
  else: opening discards the torn tail, repairs the file and recovers exactly the durable records.
\<close>

theorem torn_tail_recovery:
  assumes "frames (maxRecord (withDefaults o')) rs = Some bs" "apply_all rs empty_mem = Inr m"
    "frame (maxRecord (withDefaults o')) r = Some b" "0 < k" "k < length b"
    "dirent f = Some i" "inodes f i = log_header @ bs @ take k b"
    "io_lock io = None" "io_read io = None" "io_open io = None" "io_trunc io = None" "io_sync io = None"
  shows "\<exists>s. openRoot io o' f = Inr s \<and> mem s = m \<and> denied s = None \<and> tornRepaired s \<and>
    inodes (fs s) i = log_header @ bs \<and> ssize s = length (log_header @ bs)"
proof -
  have "replay (maxRecord (withDefaults o')) (log_header @ bs @ take k b) headerSize empty_mem =
      Inr (headerSize + length bs, take k b \<noteq> [], m)"
    using replay_torn [OF assms(1-5), of log_header] assms(4,5) by auto
  from load_frames [OF assms(6,7) this assms(8-12)] show ?thesis using assms(4,5) by auto
qed


text \<open>
  C3: compaction keeps what must be kept. A compaction that succeeds leaves exactly the specified
  memory: every unsettled command with its intent, state and results (the payloads of acknowledged
  revisions dropped), a tombstone for every settled command until its horizon, every unexpired
  tombstone, and the highest generation; and it never fails on its own records.
\<close>

theorem compaction_correct:
  assumes "wf_mem (mem s)" "disj_mem (mem s)" "denied s = None" "io_dirsync io = None"
  shows "(compactLocked io s = (None, s') \<longrightarrow> compact_to (opts s) (io_cnow io) (mem s) (mem s')) \<and>
    (compactLocked io s = (Some e, s') \<longrightarrow> s' = s)"
  using assms by (cases rule: compactLocked_cases) auto

text \<open>
  C40: a directory sync that fails after the rename of a compaction loses later writes. The store
  keeps accepting writes and reports them durable, yet they go to the unlinked file: the log that a
  reopening process reads does not contain them.
\<close>

theorem compaction_dirsync_loses_writes:
  assumes "live o' D c s" "denied s = None" "io_dirsync io = Some de" "io_tmp io = None" "io_tsync io = None"
    "io_rename io = None" "write_tmp (io_twrite io) (compact_records (opts s) (io_cnow io) (mem s)) = Inr data"
    "appendLocked io2 r (snd (compactLocked io s)) = (None, s2)"
  shows "denied s2 = None \<and> handle s2 \<noteq> dirent (fs s2) \<and>
    (\<exists>j. dirent (fs s2) = Some j \<and> inodes (fs s2) j = data)"
proof -
  obtain i where l: "handle s = Some i" "i < next_ino (fs s)" "ssize s = length (inodes (fs s) i)"
    using assms(1) by (auto simp: live_def)
  let ?s1 = "s\<lparr>fs := rename_log data (fs s)\<rparr>"
  have s1: "snd (compactLocked io s) = ?s1" using assms(2-7) by (simp add: compactLocked_def)
  have h: "handle ?s1 = Some i" "ssize ?s1 = length (inodes (fs ?s1) i)"
    using l by (simp_all add: rename_log_def set_inode_def)
  obtain b m' where "s2 = ?s1\<lparr>fs := set_inode i (inodes (fs ?s1) i @ b) (fs ?s1), mem := m',
      ssize := ssize ?s1 + length b\<rparr>"
    using assms(8) [unfolded s1] h by (rule appendLocked_SuccessD)
  then show ?thesis using l assms(2) by (simp add: rename_log_def set_inode_def)
qed

text \<open>
  C9: whatever bytes the log file holds, opening it gives a well-formed memory: entries are filed
  under their own command id with a derived state that matches their fields, results are numbered
  without gaps, acknowledgements do not exceed them, and no entry has a generation above the
  recorded highest.
\<close>

theorem open_wf: "openRoot io o' f = Inr s \<Longrightarrow> wf_mem (mem s)"
  by (rule open_wf_aux)



text \<open>
  The fence is exact. \<^verbatim>\<open>Fenced\<close> returns precisely the snapshots of the other mutating commands
  on the resource that are dispatched or of unknown outcome, oldest first.
\<close>

theorem Fenced_exact:
  "set (Fenced rk ex s) =
     {snapshot e |e k. fmlookup (entries (mem s)) k = Some e \<and> CommandID (en_Intent e) \<noteq> ex \<and> Mutating (en_Intent e) \<and>
        ResourceKey (en_Intent e) = rk \<and> (en_State e = StateDispatched \<or> en_State e = StateOutcomeUnknown)} \<and>
   sorted (map (\<lambda>e. (en_IntentAt e, CommandID (en_Intent e))) (Fenced rk ex s))"
  unfolding Fenced_def Entries_def by (auto simp: fences_def set_entry_list image_iff)

text \<open>
  Admission is idempotent. Submitting a command the store already knows changes nothing,
  whatever the state of the store, and returns its entry, or an error when the payload digest
  differs; a tombstoned command is refused.
\<close>

theorem Admit_known:
  assumes "validIntent i"
  shows "(\<forall>t. fmlookup (tombs (mem s)) (CommandID i) = Some t \<longrightarrow>
      Admit io i s = (Inl (if tb_Digest t = PayloadDigest i then ErrTombstoned else ErrDigestConflict), s)) \<and>
    (\<forall>e. fmlookup (tombs (mem s)) (CommandID i) = None \<longrightarrow> fmlookup (entries (mem s)) (CommandID i) = Some e \<longrightarrow>
      Admit io i s = ((if PayloadDigest (en_Intent e) = PayloadDigest i then Inr (snapshot e, True)
        else Inl ErrDigestConflict), s))"
  using assms by (simp add: Admit_def)

text \<open>
  A new command is admitted only with room for its result. When \<^verbatim>\<open>Admit\<close> accepts a new
  command, the log before its intent leaves space within the byte budget for a maximal result of
  every command without one and of this command, and so does the volume when its free space is known.
\<close>

theorem Admit_reserves:
  assumes "Admit io i s = (Inr (e, False), s')"
  shows "\<exists>s1. reserveLocked io s = (None, s1) \<and> int (ssize s1) + reserve s1 \<le> MaxBytes (opts s1) \<and>
    (\<forall>n. io_free io = Inr n \<longrightarrow> reserve s1 + MaxResultBytes (opts s1) div 4 \<le> int n) \<and>
    appendLocked io ((mkrec ''intent'' [])\<lparr>rec_Intent := Some i\<rparr>) s1 = (None, s')"
  using assms by (rule Admit_reserves_aux)


section \<open>Witnesses\<close>

text \<open>A store with no options set, opened in an empty directory, and one command.\<close>

definition ex_opts :: Options where
  "ex_opts = \<lparr>MaxBytes = 0, MaxResultBytes = 0, MaxIntentBytes = 0, ClockMargin = 0, MinTombstone = 0,
     CompactAfterBytes = 0\<rparr>"

definition ex_fs :: fsys where
  "ex_fs = \<lparr>inodes = (\<lambda>_. []), dirent = None, next_ino = 0\<rparr>"

definition ex_intent :: Intent where
  "ex_intent = \<lparr>CommandID = ''c'', TenantID = ''t'', WorkerID = ''w'', Operation = ''o'', Mutating = True,
     Generation = 1, PayloadDigest = ''d'', AuthorityExpiresAt = 9, ContractVersion = ''v'',
     ResourceKey = ''r'', Hint = None\<rparr>"

definition ex_io :: io where "ex_io = good_io 1 (2 ^ 40)"

lemma encodeRecord_bounded:
  assumes "case marshal r of None \<Rightarrow> False | Some p \<Rightarrow> length p < 1000"
  obtains b where "encodeRecord r = Inr b" "length b < 1008" "8 \<le> length b"
  using assms by (auto simp: encodeRecord_def split: option.splits)

lemma marshal_ex:
  "case marshal ((mkrec ''intent'' [])\<lparr>rec_Intent := Some ex_intent, rec_At := 1\<rparr>) of None \<Rightarrow> False | Some p \<Rightarrow> length p < 1000"
  "case marshal ((mkrec ''dispatched'' ''c'')\<lparr>rec_At := 1\<rparr>) of None \<Rightarrow> False | Some p \<Rightarrow> length p < 1000"
  "case marshal ((mkrec ''gen'' [])\<lparr>rec_Generation := 1, rec_At := 1\<rparr>) of None \<Rightarrow> False | Some p \<Rightarrow> length p < 1000"
  by (simp_all add: marshal_def enc_logrec_def enc_ptr_def enc_Intent_def oe_def oe_raw_def raw_ok_def mkrec_def
      format_time_ex ex_intent_def jint_def Itoa_def digits_nat.simps bytes_of_def length_esc_str esc_char_def)

lemma ex_io_fields [simp]:
  "io_now ex_io = 1" "io_cnow ex_io = 1" "io_write ex_io = None" "io_sync ex_io = None" "io_trunc ex_io = None"
  "io_dirsync ex_io = None" "io_lock ex_io = None" "io_read ex_io = None" "io_open ex_io = None"
  "io_free ex_io = Inr (2 ^ 40)" "io_tmp ex_io = None" "io_twrite ex_io = (\<lambda>_. None)" "io_tsync ex_io = None"
  "io_rename ex_io = None"
  by (simp_all add: ex_io_def good_io_def)

lemma ex_opts_fields [simp]:
  "MaxBytes (withDefaults ex_opts) = 256 * 2 ^ 20" "MaxResultBytes (withDefaults ex_opts) = 24 * 2 ^ 20"
  "MaxIntentBytes (withDefaults ex_opts) = 64 * 2 ^ 10" "ClockMargin (withDefaults ex_opts) = 15 * minute"
  by (simp_all add: withDefaults_def ex_opts_def)

definition ex_store :: Store where
  "ex_store = \<lparr>opts = withDefaults ex_opts, lock_held = True, handle = Some 0, ssize = headerSize,
     mem = empty_mem, denied = None, tornRepaired = False, schema = SchemaVersion,
     fs = (set_inode 0 log_header (set_inode 0 [] ex_fs))\<lparr>dirent := Some 0, next_ino := 1\<rparr>\<rparr>"

lemma ex_open: "openRoot ex_io ex_opts ex_fs = Inr ex_store"
  by (simp add: openRoot_def load_def create_or_deny_def createLog_def ex_fs_def WriteAt_def write_at_def
      set_inode_def ex_store_def Let_def)







lemma ex_append:
  obtains b s' where "encodeRecord ((mkrec ''gen'' [])\<lparr>rec_Generation := 1, rec_At := 1\<rparr>) = Inr b" "length b < 1008"
    "8 \<le> length b" "appendLocked ex_io ((mkrec ''gen'' [])\<lparr>rec_Generation := 1\<rparr>) ex_store = (None, s')"
    "mem s' = empty_mem\<lparr>highGen := 1\<rparr>"
proof -
  let ?r = "(mkrec ''gen'' [])\<lparr>rec_Generation := 1\<rparr>"
  obtain b where b: "encodeRecord (?r\<lparr>rec_At := 1\<rparr>) = Inr b" "length b < 1008" "8 \<le> length b"
    using encodeRecord_bounded [OF marshal_ex(3)] by auto
  have ap: "apply_log (?r\<lparr>rec_At := io_now ex_io\<rparr>) (mem ex_store) = Inr (empty_mem\<lparr>highGen := 1\<rparr>)"
    by (simp add: apply_log_def mkrec_def ex_store_def empty_mem_def)
  have "\<exists>s'. appendLocked ex_io ?r ex_store = (None, s') \<and> mem s' = empty_mem\<lparr>highGen := 1\<rparr>"
    by (subst appendLocked_ok [OF _ _ _ _ _ _ _ ap, where i = 0 and b = b])
      (use b in \<open>simp_all add: ex_store_def maxRecord_def maxRecordExtra_def\<close>)
  then show thesis using that b by auto
qed


theorem torn_tail_recovery_witness:
  "\<exists>b s. frame (maxRecord (withDefaults ex_opts)) ((mkrec ''gen'' [])\<lparr>rec_Generation := 1, rec_At := 1\<rparr>) = Some b \<and>
     openRoot ex_io ex_opts \<lparr>inodes = (\<lambda>_. log_header @ take 5 b), dirent = Some 0, next_ino = 1\<rparr> = Inr s \<and>
     mem s = empty_mem \<and> denied s = None \<and> tornRepaired s"
proof -
  let ?r = "(mkrec ''gen'' [])\<lparr>rec_Generation := 1, rec_At := 1\<rparr>"
  obtain b where b: "encodeRecord ?r = Inr b" "length b < 1008" "8 \<le> length b"
    by (rule ex_append)
  then have f: "frame (maxRecord (withDefaults ex_opts)) ?r = Some b"
    by (simp add: frame_def maxRecord_def maxRecordExtra_def)
  have "\<exists>s. openRoot ex_io ex_opts \<lparr>inodes = (\<lambda>_. log_header @ take 5 b), dirent = Some 0, next_ino = 1\<rparr> = Inr s \<and>
      mem s = empty_mem \<and> denied s = None \<and> tornRepaired s \<and>
      inodes (fs s) 0 = log_header @ [] \<and> ssize s = length (log_header @ [])"
    by (rule torn_tail_recovery [of ex_opts "[]" "[]" empty_mem ?r b 5]) (use f b in auto)
  then show ?thesis using f by blast
qed

definition ex_err :: ioerr where "ex_err = \<lparr>e_msg = ''i/o error'', e_nospace = False\<rparr>"


lemma ex_store_fields [simp]:
  "denied ex_store = None" "handle ex_store = Some 0" "opts ex_store = withDefaults ex_opts"
  "mem ex_store = empty_mem" "ssize ex_store = headerSize" "inodes (fs ex_store) 0 = log_header"
  "dirent (fs ex_store) = Some 0" "next_ino (fs ex_store) = 1"
  by (simp_all add: ex_store_def)


lemma ex_compact: "compact_records o' now empty_mem = []"
  by (simp add: compact_records_def empty_mem_def sorted_keys_def sorted_list_of_fset.rep_eq)

lemma wf_disj_empty: "wf_mem empty_mem" "disj_mem empty_mem"
  using good_mem_empty [of undefined 0] by (auto simp: good_mem_def)

theorem compaction_correct_witness:
  "\<exists>s'. compactLocked ex_io ex_store = (None, s') \<and> compact_to (withDefaults ex_opts) 1 empty_mem (mem s')"
proof -
  obtain s' where s': "compactLocked ex_io ex_store = (None, s')"
    by (simp add: compactLocked_def ex_compact write_tmp_def rebuild_def)
  then show ?thesis using compaction_correct [of ex_store ex_io s'] wf_disj_empty by auto
qed

lemma ex_live: "live (withDefaults ex_opts) [] 1 ex_store"
  unfolding live_def using good_mem_empty
  by (intro exI [of _ 0] exI [of _ "[]"]) (auto simp: holds_log_def)

theorem compaction_dirsync_loses_writes_witness:
  "\<exists>s2. appendLocked ex_io ((mkrec ''gen'' [])\<lparr>rec_Generation := 1\<rparr>)
       (snd (compactLocked (ex_io\<lparr>io_dirsync := Some ex_err\<rparr>) ex_store)) = (None, s2) \<and>
     denied s2 = None \<and> handle s2 \<noteq> dirent (fs s2) \<and> (\<exists>j. dirent (fs s2) = Some j \<and> inodes (fs s2) j = log_header)"
proof -
  let ?io = "ex_io\<lparr>io_dirsync := Some ex_err\<rparr>"
  let ?r = "(mkrec ''gen'' [])\<lparr>rec_Generation := 1\<rparr>"
  let ?s1 = "ex_store\<lparr>fs := rename_log log_header (fs ex_store)\<rparr>"
  obtain b where b: "encodeRecord (?r\<lparr>rec_At := 1\<rparr>) = Inr b" "length b < 1008"
    using encodeRecord_bounded [OF marshal_ex(3)] by auto
  have ap: "apply_log (?r\<lparr>rec_At := io_now ex_io\<rparr>) (mem ?s1) = Inr (empty_mem\<lparr>highGen := 1\<rparr>)"
    by (simp add: apply_log_def) (simp add: mkrec_def empty_mem_def)
  have w: "write_tmp (io_twrite ?io) (compact_records (opts ex_store) (io_cnow ?io) (mem ex_store)) = Inr log_header"
    by (simp add: ex_compact write_tmp_def)
  have s1: "snd (compactLocked ?io ex_store) = ?s1"
    by (simp add: compactLocked_def ex_compact write_tmp_def)
  have "\<exists>s2. appendLocked ex_io ?r ?s1 = (None, s2)"
    by (subst appendLocked_ok [OF _ _ _ _ _ _ _ ap, where i = 0 and b = b])
      (use b in \<open>simp_all add: maxRecord_def maxRecordExtra_def rename_log_def set_inode_def\<close>)
  then obtain s2 where s2: "appendLocked ex_io ?r (snd (compactLocked ?io ex_store)) = (None, s2)"
    unfolding s1 by blast
  show ?thesis
    using compaction_dirsync_loses_writes [OF ex_live _ _ _ _ _ w s2] s2 by simp
qed

theorem open_wf_witness: "openRoot ex_io ex_opts ex_fs = Inr ex_store \<and> wf_mem (mem ex_store)"
  using open_wf [OF ex_open] ex_open by simp








end
