(* ===== verification/Go_Float.thy ===== *)
theory Go_Float
  imports TS_Prelude "HOL-Library.Log_Nat"
begin

text \<open>
  \<^verbatim>\<open>float64\<close> arithmetic as the components use it: a result of normal magnitude is the exact one rounded to
  a significand of 53 bits.
\<close>

text \<open>
  The exact result is rounded to the nearest multiple of the unit in its last place, ties to even.
  Converting to an integer truncates towards zero.
\<close>

definition round_half_even :: "rat \<Rightarrow> int" where
  "round_half_even x =
     (let n = \<lfloor>x\<rfloor>; d = x - of_int n
      in if d < 1 / 2 then n else if d > 1 / 2 then n + 1 else if even n then n else n + 1)"

definition pow2 :: "int \<Rightarrow> rat" where
  "pow2 e = (if e \<ge> 0 then 2 ^ nat e else 1 / 2 ^ nat (- e))"

definition ulp_exp :: "rat \<Rightarrow> int" where
  "ulp_exp x =
     (let (n, d) = quotient_of \<bar>x\<bar>; e = int (floorlog 2 (nat n)) - int (floorlog 2 (nat d))
      in (if of_int n \<ge> of_int d * pow2 e then e else e - 1) - 52)"

definition round53 :: "rat \<Rightarrow> rat" where
  "round53 x = (if x = 0 then 0 else of_int (round_half_even (x / pow2 (ulp_exp x))) * pow2 (ulp_exp x))"

definition trunc_int :: "rat \<Rightarrow> int" where
  "trunc_int x = (if x \<ge> 0 then \<lfloor>x\<rfloor> else \<lceil>x\<rceil>)"

lemma pow2_nonneg: "pow2 (int k) = 2 ^ k"
  by (simp add: pow2_def)

lemma pow2_neg: "pow2 (- int k) = 1 / 2 ^ k"
  by (simp add: pow2_def)

text \<open>Integers below \<open>2 ^ 53\<close> are exactly representable.\<close>

lemma round_half_even_int: "round_half_even (of_int n) = n"
  by (simp add: round_half_even_def)

lemma floorlog_bounds2:
  assumes "0 < n" "n < 2 ^ 53"
  shows "2 ^ (floorlog 2 n - 1) \<le> n" "1 \<le> floorlog 2 n" "floorlog 2 n \<le> 53"
proof -
  show "2 ^ (floorlog 2 n - 1) \<le> n" using floorlog_bounds [of n 2] assms(1) by simp
  show "1 \<le> floorlog 2 n" using assms(1) by (simp add: floorlog_def)
  show "floorlog 2 n \<le> 53"
    using floorlog_leI [of n 2 53] assms(2) by simp
qed

lemma ulp_exp_int:
  assumes "n \<noteq> 0" "\<bar>n\<bar> < 2 ^ 53"
  shows "\<exists>k. ulp_exp (of_int n) = - int k"
proof -
  define l where "l = floorlog 2 (nat \<bar>n\<bar>)"
  have b: "0 < nat \<bar>n\<bar>" "nat \<bar>n\<bar> < 2 ^ 53" using assms by auto
  note fl = floorlog_bounds2 [OF b, folded l_def]
  have q: "quotient_of \<bar>of_int n :: rat\<bar> = (\<bar>n\<bar>, 1)"
    using quotient_of_int [of "\<bar>n\<bar>"] by (simp add: of_int_def)
  have e: "int l - int (floorlog 2 (Suc 0)) = int (l - 1)" using fl(2) by (simp add: floorlog_def)
  have "(2 :: int) ^ (l - 1) \<le> \<bar>n\<bar>"
    using fl(1) by (metis abs_ge_zero int_nat_eq of_nat_le_iff of_nat_numeral of_nat_power)
  then have "(2 :: rat) ^ (l - 1) \<le> of_int \<bar>n\<bar>"
    by (metis of_int_le_iff of_int_numeral of_int_power)
  then have "ulp_exp (of_int n) = int (l - 1) - 52"
    by (simp add: ulp_exp_def q e pow2_nonneg Let_def flip: l_def del: of_nat_diff)
  also have "\<dots> = - int (53 - l)" using fl(2,3) by simp
  finally show ?thesis by blast
qed

lemma round53_int:
  assumes "\<bar>n\<bar> < 2 ^ 53"
  shows "round53 (of_int n) = of_int n"
proof (cases "n = 0")
  case False
  then obtain k where k: "ulp_exp (of_int n) = - int k" using ulp_exp_int assms by blast
  have "(of_int n :: rat) / pow2 (- int k) = of_int (n * 2 ^ k)"
    by (simp add: pow2_neg)
  then have "round_half_even (of_int n / pow2 (- int k)) = n * 2 ^ k"
    using round_half_even_int by metis
  then show ?thesis using False by (simp add: round53_def k pow2_neg)
qed (simp add: round53_def)

end
