(* ===== verification/Job_Errors.thy ===== *)
theory Job_Errors
  imports Go_Float
begin

text \<open>
  Errors and delays of the job queue (\<^verbatim>\<open>src/pkg/jobs/errors.go\<close>,
  \<^verbatim>\<open>src/pkg/jobs/execution_defer.go\<close>): the error values a handler or the durable claim may
  return, with Go's unwrapping of wrapped errors; their classification for retries; the retry
  policy, whose floating-point product is rounded to the 53-bit significand of \<^verbatim>\<open>float64\<close>; and the
  backoff and alert cadence of jobs that wait for their execution claim.
\<close>

section \<open>Error values\<close>

datatype ErrorCategory =
    ErrorCategoryUnknown
  | ErrorCategoryTransient
  | ErrorCategoryPermanent
  | ErrorCategoryConfiguration
  | ErrorCategoryResource

fun ErrorCategory_String :: "ErrorCategory \<Rightarrow> string" where
  "ErrorCategory_String ErrorCategoryTransient = ''transient''"
| "ErrorCategory_String ErrorCategoryPermanent = ''permanent''"
| "ErrorCategory_String ErrorCategoryConfiguration = ''configuration''"
| "ErrorCategory_String ErrorCategoryResource = ''resource''"
| "ErrorCategory_String ErrorCategoryUnknown = ''unknown''"

text \<open>
  \<open>ErrText\<close> is an error from \<^verbatim>\<open>errors.New\<close>; \<open>ErrWrap\<close> one from \<^verbatim>\<open>fmt.Errorf\<close> with \<^verbatim>\<open>%w\<close>; the
  others are the package's typed and sentinel errors.
\<close>

datatype gerr =
    ErrText string
  | ErrWrap string gerr
  | JobWaitError string string duration "gerr option"
  | EnrollmentPending string gerr
  | JobError "gerr option" ErrorCategory bool
  | ProvisionError string string string "gerr option"
  | ErrExecutionTargetBusy
  | ErrExecutionNodeMaintenance
  | ErrExecutionSnapshotFenced
  | ErrExecutionClaimFenced
  | ErrAutoDeployAdmissionTimeout
  | AdvancedOperationDenied string string
  | AdvancedOperationUnavailable string "gerr option"
  | AdvancedPrerequisite string "gerr option"
  | StackKitLifecycleFailed string string
  | TypedStackKitOperation string string string bool gtime "gerr option"

fun Unwrap :: "gerr \<Rightarrow> gerr option" where
  "Unwrap (ErrWrap _ e) = Some e"
| "Unwrap (JobWaitError _ _ _ c) = c"
| "Unwrap (EnrollmentPending _ w) = Some w"
| "Unwrap (JobError o' _ _) = o'"
| "Unwrap (ProvisionError _ _ _ c) = c"
| "Unwrap (AdvancedOperationUnavailable _ c) = c"
| "Unwrap (AdvancedPrerequisite _ c) = c"
| "Unwrap (TypedStackKitOperation _ _ _ _ _ c) = c"
| "Unwrap ErrExecutionNodeMaintenance = Some ErrExecutionTargetBusy"
| "Unwrap _ = None"

fun Error_text :: "gerr \<Rightarrow> string" where
  "Error_text (ErrText s) = s"
| "Error_text (ErrWrap s _) = s"
| "Error_text (JobWaitError _ m _ c) =
     (if TrimSpace m \<noteq> [] then TrimSpace m
      else case c of Some e \<Rightarrow> Error_text e | None \<Rightarrow> ''job is waiting'')"
| "Error_text (EnrollmentPending _ w) = Error_text w"
| "Error_text (JobError o' _ _) = (case o' of Some e \<Rightarrow> Error_text e | None \<Rightarrow> ''unknown job error'')"
| "Error_text (ProvisionError _ m _ _) = m"
| "Error_text ErrExecutionTargetBusy = ''job execution target is busy''"
| "Error_text ErrExecutionNodeMaintenance = ''job execution target is busy: node under server maintenance''"
| "Error_text ErrExecutionSnapshotFenced = ''job execution snapshot is fenced by durable state''"
| "Error_text ErrExecutionClaimFenced = ''job execution claim is fenced by durable state''"
| "Error_text ErrAutoDeployAdmissionTimeout = ''auto-deploy canonical Guard admission timed out''"
| "Error_text (AdvancedOperationDenied r op) = ''StackKits denied Advanced operation '' @ op @ '': '' @ r"
| "Error_text (AdvancedOperationUnavailable op c) =
     ''Advanced operation '' @ op @ '' is not dispatchable: '' @
       (case c of Some e \<Rightarrow> Error_text e | None \<Rightarrow> ''<nil>'')"
| "Error_text (AdvancedPrerequisite p c) =
     ''managed rollout requires Advanced Mode, but '' @ p @ '' is missing: '' @
       (case c of Some e \<Rightarrow> Error_text e | None \<Rightarrow> ''<nil>'')"
| "Error_text (TypedStackKitOperation op cid _ _ _ c) =
     ''typed StackKits '' @ op @ '' command '' @ cid @ '' failed: '' @ (case c of Some e \<Rightarrow> Error_text e | None \<Rightarrow> ''<nil>'')"
| "Error_text (StackKitLifecycleFailed op r) =
     (if r = ''upgrade_kit_unsupported''
      then ''StackKits refused the upgrade: the StackKit's upgrade policy does not support an in-place upgrade (upgrade_kit_unsupported)''
      else ''StackKits '' @ op @ '' stopped: '' @ r)"

text \<open>The chain of an error, and the first error on it that a test accepts (\<^verbatim>\<open>errors.As\<close>, \<^verbatim>\<open>errors.Is\<close>).\<close>

function chain :: "gerr \<Rightarrow> gerr list" where
  "chain e = e # (case Unwrap e of None \<Rightarrow> [] | Some e' \<Rightarrow> chain e')"
  by pat_completeness auto

lemma size_Unwrap: "Unwrap e = Some e' \<Longrightarrow> size e' < size e + (if e = ErrExecutionNodeMaintenance then 1 else 0)"
  by (cases e rule: Unwrap.cases) auto

termination chain
proof (relation "measure (\<lambda>e. 2 * size e + (if e = ErrExecutionNodeMaintenance then 1 else 0))", simp)
  fix e e' assume "Unwrap e = Some e'"
  then show "(e', e) \<in> measure (\<lambda>e. 2 * size e + (if e = ErrExecutionNodeMaintenance then 1 else 0))"
    by (cases e rule: Unwrap.cases) auto
qed

declare chain.simps [simp del]

definition errors_Is :: "gerr \<Rightarrow> gerr \<Rightarrow> bool" where
  "errors_Is e t \<longleftrightarrow> t \<in> set (chain e)"

definition asJobWaitError :: "gerr \<Rightarrow> (string \<times> string \<times> duration \<times> gerr option) option" where
  "asJobWaitError e = (case find (\<lambda>x. case x of JobWaitError _ _ _ _ \<Rightarrow> True | _ \<Rightarrow> False) (chain e) of
     Some (JobWaitError r m d c) \<Rightarrow> Some (r, m, d, c) | _ \<Rightarrow> None)"

definition asJobError :: "gerr \<Rightarrow> (ErrorCategory \<times> bool) option" where
  "asJobError e = (case find (\<lambda>x. case x of JobError _ _ _ \<Rightarrow> True | _ \<Rightarrow> False) (chain e) of
     Some (JobError _ cat r) \<Rightarrow> Some (cat, r) | _ \<Rightarrow> None)"

definition asProvisionError :: "gerr \<Rightarrow> gerr option" where
  "asProvisionError e = find (\<lambda>x. case x of ProvisionError _ _ _ _ \<Rightarrow> True | _ \<Rightarrow> False) (chain e)"

definition asLifecycleFailed :: "gerr \<Rightarrow> (string \<times> string) option" where
  "asLifecycleFailed e = (case find (\<lambda>x. case x of StackKitLifecycleFailed _ _ \<Rightarrow> True | _ \<Rightarrow> False) (chain e) of
     Some (StackKitLifecycleFailed op r) \<Rightarrow> Some (op, r) | _ \<Rightarrow> None)"

definition asTypedOperation :: "gerr \<Rightarrow> (string \<times> bool \<times> gtime) option" where
  "asTypedOperation e = (case find (\<lambda>x. case x of TypedStackKitOperation _ _ _ _ _ _ \<Rightarrow> True | _ \<Rightarrow> False) (chain e) of
     Some (TypedStackKitOperation _ _ r b t _) \<Rightarrow> Some (r, b, t) | _ \<Rightarrow> None)"

definition advancedFailureReason :: "gerr \<Rightarrow> (string \<times> string) option" where
  "advancedFailureReason e =
     (case find (\<lambda>x. case x of AdvancedOperationDenied _ _ \<Rightarrow> True | _ \<Rightarrow> False) (chain e) of
        Some (AdvancedOperationDenied r op) \<Rightarrow> Some (r, op)
      | _ \<Rightarrow>
     (case find (\<lambda>x. case x of AdvancedOperationUnavailable _ _ \<Rightarrow> True | _ \<Rightarrow> False) (chain e) of
        Some (AdvancedOperationUnavailable op _) \<Rightarrow> Some (''advanced_operation_unavailable'', op)
      | _ \<Rightarrow>
     (case find (\<lambda>x. case x of AdvancedPrerequisite _ _ \<Rightarrow> True | _ \<Rightarrow> False) (chain e) of
        Some _ \<Rightarrow> Some (''advanced_prerequisite_missing'', [])
      | None \<Rightarrow> None)))"

section \<open>Constructors\<close>

definition WaitReasonManagedRuntimeEnrollment :: string where
  "WaitReasonManagedRuntimeEnrollment = ''waiting_enrollment''"
definition WaitReasonManagedRuntimeProvider :: string where
  "WaitReasonManagedRuntimeProvider = ''waiting_provider_provision''"
definition WaitReasonCanonicalGuardEvidence :: string where
  "WaitReasonCanonicalGuardEvidence = ''waiting_canonical_guard''"
definition defaultJobWaitResumeDelay :: duration where
  "defaultJobWaitResumeDelay = 5 * second"

definition newManagedRuntimeEnrollmentPendingError :: "string \<Rightarrow> duration \<Rightarrow> gerr option \<Rightarrow> gerr" where
  "newManagedRuntimeEnrollmentPendingError leaseID resumeAfter cause =
     (let l = TrimSpace leaseID;
          d = (if resumeAfter \<le> 0 then defaultJobWaitResumeDelay else resumeAfter);
          msg = (if l \<noteq> [] then ''Managed VM lease '' @ l @ '' is still enrolling; the next rollout check is scheduled.''
                 else ''Managed VM enrollment is still pending; the next rollout check is scheduled.'')
      in EnrollmentPending l (JobWaitError WaitReasonManagedRuntimeEnrollment msg d cause))"

definition NewJobError :: "gerr \<Rightarrow> ErrorCategory \<Rightarrow> gerr" where
  "NewJobError e c = JobError (Some e) c (c = ErrorCategoryTransient \<or> c = ErrorCategoryResource)"

definition NewTransientError :: "gerr \<Rightarrow> gerr" where "NewTransientError e = NewJobError e ErrorCategoryTransient"
definition NewPermanentError :: "gerr \<Rightarrow> gerr" where "NewPermanentError e = NewJobError e ErrorCategoryPermanent"
definition NewConfigError :: "gerr \<Rightarrow> gerr" where "NewConfigError e = NewJobError e ErrorCategoryConfiguration"
definition NewResourceError :: "gerr \<Rightarrow> gerr" where "NewResourceError e = NewJobError e ErrorCategoryResource"

definition wrapProvisionError :: "string \<Rightarrow> string \<Rightarrow> string \<Rightarrow> gerr" where
  "wrapProvisionError step message details = ProvisionError step message details None"

definition wrapProvisionCause :: "string \<Rightarrow> gerr option \<Rightarrow> string \<Rightarrow> gerr" where
  "wrapProvisionCause step cause details =
     (case cause of None \<Rightarrow> wrapProvisionError step ''provision failed'' details
      | Some c \<Rightarrow> ProvisionError step (Error_text c) details (Some c))"

section \<open>Classification\<close>

definition transientPatterns :: "string list" where
  "transientPatterns = [''timeout'', ''connection refused'', ''connection reset'', ''temporary'', ''try again'',
     ''rate limit'', ''too many requests'', ''service unavailable'', ''503'', ''504'', ''network unreachable'']"
definition permanentPatterns :: "string list" where
  "permanentPatterns = [''not found'', ''permission denied'', ''access denied'', ''unauthorized'', ''forbidden'',
     ''invalid'', ''malformed'', ''unsupported'']"
definition configPatterns :: "string list" where
  "configPatterns = [''missing'', ''required'', ''configuration'', ''config'', ''not set'', ''not configured'']"
definition resourcePatterns :: "string list" where
  "resourcePatterns = [''resource'', ''quota'', ''limit exceeded'', ''insufficient'', ''out of memory'', ''disk full'']"

definition ClassifyError :: "gerr option \<Rightarrow> ErrorCategory" where
  "ClassifyError e =
     (case e of None \<Rightarrow> ErrorCategoryUnknown
      | Some x \<Rightarrow>
          let msg = ToLower (Error_text x) in
          if list_ex (Contains msg) transientPatterns then ErrorCategoryTransient
          else if list_ex (Contains msg) permanentPatterns then ErrorCategoryPermanent
          else if list_ex (Contains msg) configPatterns then ErrorCategoryConfiguration
          else if list_ex (Contains msg) resourcePatterns then ErrorCategoryResource
          else ErrorCategoryUnknown)"

definition IsRetryable :: "gerr option \<Rightarrow> bool" where
  "IsRetryable e =
     (case e of None \<Rightarrow> False
      | Some x \<Rightarrow>
          (case asJobError x of
             Some (_, r) \<Rightarrow> r
           | None \<Rightarrow> ClassifyError e = ErrorCategoryTransient \<or> ClassifyError e = ErrorCategoryResource))"

section \<open>Retry policy\<close>

record RetryPolicy =
  rp_MaxAttempts :: int
  rp_InitialDelay :: duration
  rp_MaxDelay :: duration
  rp_BackoffMultiplier :: rat

definition DefaultRetryPolicy :: RetryPolicy where
  "DefaultRetryPolicy = \<lparr>rp_MaxAttempts = 3, rp_InitialDelay = second, rp_MaxDelay = 30 * second,
     rp_BackoffMultiplier = 2\<rparr>"

text \<open>The loop of \<^verbatim>\<open>CalculateDelay\<close>, with \<open>n\<close> iterations left.\<close>

fun delay_loop :: "RetryPolicy \<Rightarrow> nat \<Rightarrow> duration \<Rightarrow> duration" where
  "delay_loop p 0 d = d"
| "delay_loop p (Suc n) d =
     (let d' = trunc_int (round53 (round53 (of_int d) * rp_BackoffMultiplier p))
      in if d' > rp_MaxDelay p then rp_MaxDelay p else delay_loop p n d')"

definition CalculateDelay :: "RetryPolicy \<Rightarrow> int \<Rightarrow> duration" where
  "CalculateDelay p attempt =
     (if attempt \<le> 0 then rp_InitialDelay p else delay_loop p (nat (attempt - 1)) (rp_InitialDelay p))"

section \<open>Waiting for an execution claim\<close>

definition ExecutionDeferBaseInterval :: duration where "ExecutionDeferBaseInterval = second"
definition ExecutionDeferMaxInterval :: duration where "ExecutionDeferMaxInterval = 30 * second"
definition ExecutionDeferAlertAfter :: duration where "ExecutionDeferAlertAfter = 5 * minute"
definition ExecutionDeferAlertEvery :: duration where "ExecutionDeferAlertEvery = 5 * minute"

lemmas defer_defs = ExecutionDeferBaseInterval_def ExecutionDeferMaxInterval_def
  ExecutionDeferAlertAfter_def ExecutionDeferAlertEvery_def

record ExecutionDeferReport =
  dr_JobID :: string
  dr_JobType :: string
  dr_TargetType :: string
  dr_TargetID :: string
  dr_WaitReason :: string
  dr_Attempts :: nat
  dr_WaitingFor :: duration
  dr_NextRetryIn :: duration

record executionDeferState =
  firstDeferredAt :: gtime
  lastAlertedAt :: gtime
  defer_attempts :: nat
  defer_reason :: string

type_synonym defer_map = "(string, executionDeferState) fmap"

fun defer_loop :: "nat \<Rightarrow> duration \<Rightarrow> duration" where
  "defer_loop 0 d = d"
| "defer_loop (Suc n) d =
     (if 2 * d \<ge> ExecutionDeferMaxInterval then ExecutionDeferMaxInterval else defer_loop n (2 * d))"

definition executionDeferBackoff :: "nat \<Rightarrow> duration" where
  "executionDeferBackoff attempts =
     defer_loop (max attempts 1 - 1) ExecutionDeferBaseInterval"

text \<open>\<^verbatim>\<open>Duration.Round\<close> to whole seconds, halfway values away from zero.\<close>

definition round_second :: "duration \<Rightarrow> duration" where
  "round_second d =
     (if d \<ge> 0 then (d + second div 2) div second * second
      else - ((- d + second div 2) div second * second))"

definition noteExecutionDefer ::
  "string \<Rightarrow> string \<Rightarrow> gtime \<Rightarrow> defer_map \<Rightarrow> duration \<times> ExecutionDeferReport option \<times> defer_map" where
  "noteExecutionDefer jobID reason now defers =
     (let fresh = \<lparr>firstDeferredAt = now, lastAlertedAt = 0, defer_attempts = 0, defer_reason = reason\<rparr>;
          st0 = (case fmlookup defers jobID of
                   None \<Rightarrow> fresh
                 | Some st \<Rightarrow> if defer_reason st \<noteq> reason then fresh else st);
          st = st0\<lparr>defer_attempts := defer_attempts st0 + 1\<rparr>;
          backoff = executionDeferBackoff (defer_attempts st);
          waitingFor = now - firstDeferredAt st
      in if waitingFor < ExecutionDeferAlertAfter then (backoff, None, fmupd jobID st defers)
         else if \<not> IsZero (lastAlertedAt st) \<and> now - lastAlertedAt st < ExecutionDeferAlertEvery
         then (backoff, None, fmupd jobID st defers)
         else (backoff,
               Some \<lparr>dr_JobID = jobID, dr_JobType = [], dr_TargetType = [], dr_TargetID = [], dr_WaitReason = reason, dr_Attempts = defer_attempts st,
                     dr_WaitingFor = round_second waitingFor, dr_NextRetryIn = backoff\<rparr>,
               fmupd jobID (st\<lparr>lastAlertedAt := now\<rparr>) defers))"

definition clearExecutionDefer :: "string \<Rightarrow> defer_map \<Rightarrow> defer_map" where
  "clearExecutionDefer jobID defers = fmdrop jobID defers"

section \<open>Lemmas\<close>

text \<open>One doubling of a delay below the bound of exact integers.\<close>

lemma default_double:
  assumes "0 \<le> d" "d < 2 ^ 52"
  shows "trunc_int (round53 (round53 (of_int d) * rp_BackoffMultiplier DefaultRetryPolicy)) = 2 * d"
proof -
  have "round53 (of_int d) * rp_BackoffMultiplier DefaultRetryPolicy = of_int (2 * d)"
    using round53_int [of d] assms by (simp add: DefaultRetryPolicy_def)
  then have "round53 (round53 (of_int d) * rp_BackoffMultiplier DefaultRetryPolicy) = of_int (2 * d)"
    using round53_int [of "2 * d"] assms by simp
  then show ?thesis using assms floor_of_int [of "2 * d", where 'a = rat] by (simp add: trunc_int_def)
qed

lemma mul_pow_ge: "0 \<le> (d :: int) \<Longrightarrow> d \<le> 2 ^ n * d"
  using mult_right_mono [of 1 "2 ^ n" d] by simp

lemma delay_loop_default:
  assumes "0 \<le> d" "d \<le> 30 * second"
  shows "delay_loop DefaultRetryPolicy n d = min (2 ^ n * d) (30 * second)"
  using assms
proof (induction n arbitrary: d)
  case 0
  then show ?case by simp
next
  case (Suc n)
  have d: "d < 2 ^ 52" using Suc.prems(2) by (simp add: second_def)
  have ge: "2 * d \<le> 2 ^ Suc n * d" using mul_pow_ge [of "2 * d" n] Suc.prems(1) by (simp add: mult.assoc mult.left_commute)
  show ?case
  proof (cases "2 * d > 30 * second")
    case True
    then have "delay_loop DefaultRetryPolicy (Suc n) d = 30 * second"
      using default_double [OF Suc.prems(1) d] by (simp add: Let_def) (simp add: DefaultRetryPolicy_def)
    then show ?thesis using True ge by simp
  next
    case False
    then have "delay_loop DefaultRetryPolicy (Suc n) d = delay_loop DefaultRetryPolicy n (2 * d)"
      using default_double [OF Suc.prems(1) d] by (simp add: Let_def) (simp add: DefaultRetryPolicy_def)
    also have "\<dots> = min (2 ^ n * (2 * d)) (30 * second)"
      using Suc.prems False by (intro Suc.IH) auto
    finally show ?thesis by (simp add: mult.left_commute mult.commute)
  qed
qed

lemma defer_loop_min:
  assumes "0 \<le> d" "d < ExecutionDeferMaxInterval"
  shows "defer_loop n d = min (2 ^ n * d) ExecutionDeferMaxInterval"
  using assms
proof (induction n arbitrary: d)
  case (Suc n)
  have "2 * d \<le> 2 ^ Suc n * d" using mul_pow_ge [of "2 * d" n] Suc.prems(1) by (simp add: mult.assoc mult.left_commute)
  then show ?case using Suc by (simp add: ac_simps)
qed simp

lemma executionDeferBackoff_eq:
  "executionDeferBackoff n = min (2 ^ (max n 1 - 1) * second) (30 * second)"
  using defer_loop_min [of ExecutionDeferBaseInterval "max n 1 - 1"]
  by (simp add: executionDeferBackoff_def defer_defs second_def)

lemma chain_ErrWrap [simp]: "chain (ErrWrap s e) = ErrWrap s e # chain e"
  by (subst chain.simps) simp

lemma asJobError_ErrWrap [simp]: "asJobError (ErrWrap s e) = asJobError e"
  by (simp add: asJobError_def)

lemma asJobError_JobError [simp]: "asJobError (JobError o' c r) = Some (c, r)"
  by (simp add: asJobError_def chain.simps [of "JobError o' c r"])

end
