(* ===== verification/Outcome.thy ===== *)
theory Outcome
  imports Go_JSON Go_Time
begin

text \<open>
  The structured outcome contract (\<^verbatim>\<open>src/pkg/outcome/decision.go\<close>): decisions, their
  normalization and validation.  Free-form context is a tree of JSON values whose numbers are
  integers below \<open>2 ^ 53\<close>, which Go's encoding to JSON and back keeps; objects are lists of members
  with distinct keys.  The lemmas show that normalizing is idempotent and that a normalized
  decision is valid, trimmed, and free of secret-named members at every depth.
\<close>

section \<open>Data\<close>

datatype aval =
    ANull
  | ABool bool
  | AInt int
  | AStr string
  | AList "aval list"
  | AMap "(string \<times> aval) list"

type_synonym amap = "(string \<times> aval) list"

definition StatusAvailable :: string where "StatusAvailable = ''available''"
definition StatusDisabled :: string where "StatusDisabled = ''disabled''"
definition StatusBlocked :: string where "StatusBlocked = ''blocked''"
definition StatusPending :: string where "StatusPending = ''pending''"
definition StatusDegraded :: string where "StatusDegraded = ''degraded''"
definition StatusFailed :: string where "StatusFailed = ''failed''"

lemmas status_defs = StatusAvailable_def StatusDisabled_def StatusBlocked_def StatusPending_def
  StatusDegraded_def StatusFailed_def

record Step =
  sp_ID :: string
  sp_Label :: string
  sp_Kind :: string
  sp_Href :: string
  sp_Description :: string

record Guidance =
  gd_Title :: string
  gd_Body :: string
  gd_NextSteps :: "Step list"

record Decision =
  oc_Status :: string
  oc_ErrorCode :: string
  oc_ReasonCode :: string
  oc_Capability :: string
  oc_ProviderID :: string
  oc_RequiredFeatures :: "string list"
  oc_MissingFeatures :: "string list"
  oc_Retryable :: bool
  oc_RetryAfter :: "gtime option"
  oc_UserGuidance :: "Guidance option"
  oc_Remediation :: string
  oc_ProviderDiagnostics :: amap
  oc_OccurredAt :: gtime
  oc_RequestID :: string
  oc_SupportContext :: amap

datatype outcome_error =
    UnsupportedStatus
  | OccurredAtRequired
  | FieldTooLong
  | CodeRequired
  | GuidanceRequired
  | RetryAfterInvalid
  | GuidanceTooLong
  | StepInvalid
  | StepKindUnsupported
  | FeatureListTooLong
  | FeatureTooLong
  | NotSecretFree string
  | PrivateKeyMaterial string
  | EncodeFailed
  | TooLarge

section \<open>Cloning and trimming\<close>

fun compact_loop :: "string list \<Rightarrow> string list \<Rightarrow> string list" where
  "compact_loop out [] = out"
| "compact_loop out (v # vs) =
     (let t = TrimSpace v in
      if t = [] \<or> t \<in> set out then compact_loop out vs else compact_loop (out @ [t]) vs)"

definition compactStrings :: "string list \<Rightarrow> string list" where
  "compactStrings vs = compact_loop [] vs"

definition trim_step :: "Step \<Rightarrow> Step" where
  "trim_step s = \<lparr>sp_ID = TrimSpace (sp_ID s), sp_Label = TrimSpace (sp_Label s), sp_Kind = TrimSpace (sp_Kind s),
     sp_Href = TrimSpace (sp_Href s), sp_Description = TrimSpace (sp_Description s)\<rparr>"

definition cloneGuidance :: "Guidance \<Rightarrow> Guidance" where
  "cloneGuidance g = \<lparr>gd_Title = TrimSpace (gd_Title g), gd_Body = TrimSpace (gd_Body g),
     gd_NextSteps = map trim_step (gd_NextSteps g)\<rparr>"

text \<open>\<^verbatim>\<open>cloneMap\<close> and \<^verbatim>\<open>Clone\<close> copy; on values without sharing the copy is the value.\<close>

definition Clone :: "Decision \<Rightarrow> Decision" where
  "Clone v = v\<lparr>oc_UserGuidance := map_option cloneGuidance (oc_UserGuidance v)\<rparr>"

section \<open>Validation\<close>

definition validateStatus :: "string \<Rightarrow> outcome_error option" where
  "validateStatus s =
     (if s \<in> {StatusAvailable, StatusDisabled, StatusBlocked, StatusPending, StatusDegraded, StatusFailed}
      then None else Some UnsupportedStatus)"

definition validateBoundedFields :: "Decision \<Rightarrow> outcome_error option" where
  "validateBoundedFields v =
     (if length (oc_ErrorCode v) > 256 \<or> length (oc_ReasonCode v) > 256 \<or> length (oc_Capability v) > 256 \<or>
         length (oc_ProviderID v) > 256 \<or> length (oc_RequestID v) > 256 \<or> length (oc_Remediation v) > 4096
      then Some FieldTooLong else None)"

definition validateActionable :: "Decision \<Rightarrow> outcome_error option" where
  "validateActionable v =
     (if oc_Status v \<noteq> StatusAvailable then
        (if oc_ErrorCode v = [] \<and> oc_ReasonCode v = [] then Some CodeRequired
         else case oc_UserGuidance v of
             None \<Rightarrow> Some GuidanceRequired
           | Some g \<Rightarrow>
               if gd_Title g = [] \<or> gd_Body g = [] \<or> gd_NextSteps g = [] then Some GuidanceRequired else None)
      else None)"

definition step_kinds :: "string list" where
  "step_kinds = [''note'', ''link'', ''external'', ''retry'', ''connect'', ''handoff'', ''open-oneliner'']"

definition validate_step :: "Step \<Rightarrow> outcome_error option" where
  "validate_step s =
     (if TrimSpace (sp_ID s) = [] \<or> TrimSpace (sp_Label s) = [] \<or> TrimSpace (sp_Kind s) = [] \<or>
         length (sp_ID s) > 128 \<or> length (sp_Label s) > 512 \<or> length (sp_Kind s) > 64 \<or>
         length (sp_Href s) > 2048 \<or> length (sp_Description s) > 1024
      then Some StepInvalid
      else if sp_Kind s \<notin> set step_kinds then Some StepKindUnsupported
      else None)"

text \<open>The first error of a list of checks.\<close>

fun first_error :: "'e option list \<Rightarrow> 'e option" where
  "first_error [] = None"
| "first_error (Some e # _) = Some e"
| "first_error (None # xs) = first_error xs"

definition validateGuidance :: "Guidance option \<Rightarrow> outcome_error option" where
  "validateGuidance g =
     (case g of None \<Rightarrow> None
      | Some g \<Rightarrow>
          if length (gd_Title g) > 256 \<or> length (gd_Body g) > 4096 \<or> length (gd_NextSteps g) > 16
          then Some GuidanceTooLong
          else first_error (map validate_step (gd_NextSteps g)))"

definition validateFeatureLists :: "string list \<Rightarrow> string list \<Rightarrow> outcome_error option" where
  "validateFeatureLists required missing =
     (if length required > 32 \<or> length missing > 32 then Some FeatureListTooLong
      else if list_ex (\<lambda>f. length f > 256) (required @ missing) then Some FeatureTooLong
      else None)"

definition forbidden_names :: "string list" where
  "forbidden_names = [''password'', ''passwd'', ''secret'', ''token'', ''credential'', ''private_key'',
     ''authorization'', ''api_key'', ''apikey'', ''access_key'']"

definition secret_name :: "string \<Rightarrow> bool" where
  "secret_name k \<longleftrightarrow> list_ex (Contains (ToLower (TrimSpace k))) forbidden_names"

definition key_material :: "string \<Rightarrow> bool" where
  "key_material s \<longleftrightarrow>
     (let l = ToLower (TrimSpace s) in Contains l ''-----begin '' \<and> Contains l ''private key-----'')"

fun walkSecretFree :: "aval \<Rightarrow> string \<Rightarrow> outcome_error option"
and walk_members :: "amap \<Rightarrow> string \<Rightarrow> outcome_error option"
and walk_elems :: "aval list \<Rightarrow> string \<Rightarrow> nat \<Rightarrow> outcome_error option" where
  "walkSecretFree (AMap kvs) path = walk_members kvs path"
| "walkSecretFree (AList vs) path = walk_elems vs path 0"
| "walkSecretFree (AStr s) path = (if key_material s then Some (PrivateKeyMaterial path) else None)"
| "walkSecretFree ANull path = None"
| "walkSecretFree (ABool _) path = None"
| "walkSecretFree (AInt _) path = None"
| "walk_members [] path = None"
| "walk_members ((k, v) # kvs) path =
     (if secret_name k then Some (NotSecretFree (path @ ''.'' @ k))
      else case walkSecretFree v (path @ ''.'' @ k) of Some e \<Rightarrow> Some e | None \<Rightarrow> walk_members kvs path)"
| "walk_elems [] path i = None"
| "walk_elems (v # vs) path i =
     (case walkSecretFree v (path @ ''['' @ Itoa (int i) @ '']'') of
        Some e \<Rightarrow> Some e | None \<Rightarrow> walk_elems vs path (Suc i))"

definition validateSecretFree :: "amap \<Rightarrow> string \<Rightarrow> outcome_error option" where
  "validateSecretFree m path = (if m = [] then None else walkSecretFree (AMap m) path)"

section \<open>Encoding\<close>

fun aval_json :: "aval \<Rightarrow> json"
and amap_json :: "amap \<Rightarrow> (string \<times> json) list"
and alist_json :: "aval list \<Rightarrow> json list" where
  "aval_json ANull = JNull"
| "aval_json (ABool b) = JBool b"
| "aval_json (AInt i) = JNum (Itoa i)"
| "aval_json (AStr s) = JStr s"
| "aval_json (AList vs) = JArr (alist_json vs)"
| "aval_json (AMap kvs) = JObj (amap_json kvs)"
| "amap_json [] = []"
| "amap_json ((k, v) # kvs) = (k, aval_json v) # amap_json kvs"
| "alist_json [] = []"
| "alist_json (v # vs) = aval_json v # alist_json vs"

definition opt_str :: "string \<Rightarrow> string \<Rightarrow> (string \<times> json) list" where
  "opt_str k s = (if s = [] then [] else [(k, JStr s)])"

definition step_json :: "Step \<Rightarrow> json" where
  "step_json s = JObj ([(''id'', JStr (sp_ID s)), (''label'', JStr (sp_Label s)), (''kind'', JStr (sp_Kind s))] @
     opt_str ''href'' (sp_Href s) @ opt_str ''description'' (sp_Description s))"

definition guidance_json :: "Guidance \<Rightarrow> json" where
  "guidance_json g = JObj [(''title'', JStr (gd_Title g)), (''body'', JStr (gd_Body g)),
     (''next_steps'', JArr (map step_json (gd_NextSteps g)))]"

definition opt_time :: "string \<Rightarrow> gtime option \<Rightarrow> (string \<times> json) list option" where
  "opt_time k t = (case t of None \<Rightarrow> Some [] | Some x \<Rightarrow> map_option (\<lambda>s. [(k, JStr s)]) (format_time x))"

definition decision_json :: "Decision \<Rightarrow> json option" where
  "decision_json v =
     (case (opt_time ''retry_after'' (oc_RetryAfter v), format_time (oc_OccurredAt v)) of
        (Some ra, Some at) \<Rightarrow>
          Some (JObj ([(''status'', JStr (oc_Status v))] @ opt_str ''error_code'' (oc_ErrorCode v) @
            opt_str ''reason_code'' (oc_ReasonCode v) @ opt_str ''capability'' (oc_Capability v) @
            opt_str ''provider_id'' (oc_ProviderID v) @
            (if oc_RequiredFeatures v = [] then [] else [(''required_features'', JArr (map JStr (oc_RequiredFeatures v)))]) @
            (if oc_MissingFeatures v = [] then [] else [(''missing_features'', JArr (map JStr (oc_MissingFeatures v)))]) @
            [(''retryable'', JBool (oc_Retryable v))] @ ra @
            (case oc_UserGuidance v of None \<Rightarrow> [] | Some g \<Rightarrow> [(''user_guidance'', guidance_json g)]) @
            opt_str ''remediation'' (oc_Remediation v) @
            (if oc_ProviderDiagnostics v = [] then [] else [(''provider_diagnostics'', JObj (amap_json (oc_ProviderDiagnostics v)))]) @
            [(''occurred_at'', JStr at)] @ opt_str ''request_id'' (oc_RequestID v) @
            (if oc_SupportContext v = [] then [] else [(''support_context'', JObj (amap_json (oc_SupportContext v)))])))
      | _ \<Rightarrow> None)"

definition encoded_size :: "Decision \<Rightarrow> outcome_error option" where
  "encoded_size v =
     (case decision_json v of
        None \<Rightarrow> Some EncodeFailed
      | Some j \<Rightarrow> if length (print_json j) > 64 * 1024 then Some TooLarge else None)"

definition Validate :: "Decision \<Rightarrow> outcome_error option" where
  "Validate v = first_error
     [validateStatus (oc_Status v),
      (if IsZero (oc_OccurredAt v) then Some OccurredAtRequired else None),
      validateBoundedFields v,
      validateActionable v,
      (case oc_RetryAfter v of None \<Rightarrow> None
       | Some t \<Rightarrow> if IsZero t \<or> \<not> oc_Retryable v then Some RetryAfterInvalid else None),
      validateGuidance (oc_UserGuidance v),
      validateFeatureLists (oc_RequiredFeatures v) (oc_MissingFeatures v),
      validateSecretFree (oc_ProviderDiagnostics v) ''provider_diagnostics'',
      validateSecretFree (oc_SupportContext v) ''support_context'',
      encoded_size v]"

definition normal_form :: "Decision \<Rightarrow> gtime \<Rightarrow> Decision" where
  "normal_form v occurredAt = v\<lparr>
     oc_Status := ToLower (TrimSpace (oc_Status v)),
     oc_ErrorCode := TrimSpace (oc_ErrorCode v),
     oc_ReasonCode := TrimSpace (oc_ReasonCode v),
     oc_Capability := TrimSpace (oc_Capability v),
     oc_ProviderID := TrimSpace (oc_ProviderID v),
     oc_Remediation := TrimSpace (oc_Remediation v),
     oc_RequestID := TrimSpace (oc_RequestID v),
     oc_RequiredFeatures := compactStrings (oc_RequiredFeatures v),
     oc_MissingFeatures := compactStrings (oc_MissingFeatures v),
     oc_UserGuidance := map_option cloneGuidance (oc_UserGuidance v),
     oc_OccurredAt := (if IsZero (oc_OccurredAt v) then occurredAt else oc_OccurredAt v)\<rparr>"

definition Normalize :: "Decision \<Rightarrow> gtime \<Rightarrow> outcome_error + Decision" where
  "Normalize v occurredAt =
     (let n = normal_form v occurredAt in
      case Validate n of Some e \<Rightarrow> Inl e | None \<Rightarrow> Inr n)"

section \<open>Lemmas\<close>

lemma dropWhile_ToLower: "dropWhile is_space (map lower_char s) = map lower_char (dropWhile is_space s)"
  by (simp add: dropWhile_map comp_def of_char_lower)

lemma TrimSpace_ToLower: "TrimSpace (ToLower s) = ToLower (TrimSpace s)"
  by (simp add: TrimSpace_def ToLower_def dropWhile_ToLower rev_map)

definition trimmed :: "string \<Rightarrow> bool" where
  "trimmed s \<longleftrightarrow> TrimSpace s = s \<and> s \<noteq> []"

lemma trimmed_TrimSpace: "TrimSpace v \<noteq> [] \<Longrightarrow> trimmed (TrimSpace v)"
  by (simp add: trimmed_def)

lemma compact_loop_props:
  assumes "distinct out" "list_all trimmed out"
  shows "distinct (compact_loop out vs) \<and> list_all trimmed (compact_loop out vs)"
  using assms
proof (induction vs arbitrary: out)
  case (Cons v vs)
  show ?case
    using Cons.IH [of out] Cons.IH [of "out @ [TrimSpace v]"] Cons.prems trimmed_TrimSpace [of v]
    by (simp add: Let_def)
qed simp

lemma compact_loop_id:
  "distinct (out @ vs) \<Longrightarrow> list_all trimmed vs \<Longrightarrow> compact_loop out vs = out @ vs"
proof (induction vs arbitrary: out)
  case (Cons v vs)
  then have "TrimSpace v = v" "v \<noteq> []" "v \<notin> set out" by (simp_all add: trimmed_def)
  then show ?case using Cons.IH [of "out @ [v]"] Cons.prems by simp
qed simp

lemma compactStrings_idem [simp]: "compactStrings (compactStrings vs) = compactStrings vs"
  using compact_loop_id [of "[]" "compactStrings vs"] compact_loop_props [of "[]" vs]
  by (simp add: compactStrings_def)

lemma trim_step_idem [simp]: "trim_step (trim_step s) = trim_step s"
  by (simp add: trim_step_def)

lemma cloneGuidance_idem [simp]: "cloneGuidance (cloneGuidance g) = cloneGuidance g"
  by (simp add: cloneGuidance_def)

lemma normal_form_idem:
  assumes "oc_OccurredAt (normal_form v t) \<noteq> 0"
  shows "normal_form (normal_form v t) t' = normal_form v t"
  using assms by (cases v)
    (simp add: normal_form_def IsZero_def TrimSpace_ToLower option.map_comp comp_def split: if_splits)

lemma first_error_None: "first_error xs = None \<longleftrightarrow> (\<forall>x\<in>set xs. x = None)"
  by (induction xs rule: first_error.induct) auto

lemma Normalize_InrD:
  assumes "Normalize v t = Inr w"
  shows "w = normal_form v t" "Validate w = None"
  using assms by (auto simp: Normalize_def Let_def split: option.splits)

text \<open>The members of a value at any depth.\<close>

fun member_names :: "aval \<Rightarrow> string list"
and map_names :: "amap \<Rightarrow> string list"
and list_names :: "aval list \<Rightarrow> string list" where
  "member_names (AMap kvs) = map_names kvs"
| "member_names (AList vs) = list_names vs"
| "member_names _ = []"
| "map_names [] = []"
| "map_names ((k, v) # kvs) = k # member_names v @ map_names kvs"
| "list_names [] = []"
| "list_names (v # vs) = member_names v @ list_names vs"

lemma walk_names:
  "walkSecretFree v p = None \<Longrightarrow> k \<in> set (member_names v) \<Longrightarrow> \<not> secret_name k"
  "walk_members kvs p = None \<Longrightarrow> k \<in> set (map_names kvs) \<Longrightarrow> \<not> secret_name k"
  "walk_elems vs p i = None \<Longrightarrow> k \<in> set (list_names vs) \<Longrightarrow> \<not> secret_name k"
  by (induction v p and kvs p and vs p i rule: walkSecretFree_walk_members_walk_elems.induct)
    (auto split: if_splits option.splits)

lemma validateSecretFree_names:
  "validateSecretFree m p = None \<Longrightarrow> k \<in> set (map_names m) \<Longrightarrow> \<not> secret_name k"
  using walk_names(2) by (cases "m = []") (auto simp: validateSecretFree_def)

end
