(* ===== verification/Job_Model.thy ===== *)
theory Job_Model
  imports Job_Errors Outcome
begin

text \<open>
  Jobs of the asynchronous queue (\<^verbatim>\<open>src/pkg/jobs/queue.go\<close>, \<^verbatim>\<open>src/pkg/jobs/snapshot.go\<close>): the
  record, its snapshots, and every change the queue makes to one job while it holds the job's
  mutex, as functions from jobs to jobs.  A nil map is \<^term>\<open>None\<close>.  Values in a payload or result
  are JSON trees, times, or the structured values the outcome code stores.  The copies
  \<^verbatim>\<open>cloneJobMap\<close> makes are the values themselves, since values here are not shared.
\<close>

section \<open>Types\<close>

definition JobTypeProvision :: string where "JobTypeProvision = ''provision''"
definition JobTypeDeploy :: string where "JobTypeDeploy = ''deploy''"
definition JobTypeDestroy :: string where "JobTypeDestroy = ''destroy''"
definition JobTypeCommand :: string where "JobTypeCommand = ''command''"
definition JobTypeDriftCheck :: string where "JobTypeDriftCheck = ''drift_check''"
definition JobTypeDriftResolve :: string where "JobTypeDriftResolve = ''drift_resolve''"
definition JobTypeStackKitLifecycle :: string where "JobTypeStackKitLifecycle = ''stackkit_lifecycle''"
definition JobTypeReconcileLease :: string where "JobTypeReconcileLease = ''reconcile_lease''"
definition JobTypeBackup :: string where "JobTypeBackup = ''backup''"
definition JobTypeRemoteEnrollment :: string where "JobTypeRemoteEnrollment = ''remote_enrollment''"

lemmas job_type_defs = JobTypeProvision_def JobTypeDeploy_def JobTypeDestroy_def JobTypeCommand_def
  JobTypeDriftCheck_def JobTypeDriftResolve_def JobTypeStackKitLifecycle_def JobTypeReconcileLease_def
  JobTypeBackup_def JobTypeRemoteEnrollment_def

definition WaitReasonStackExecution :: string where "WaitReasonStackExecution = ''waiting_stack_execution''"
definition WaitReasonNodeMaintenance :: string where "WaitReasonNodeMaintenance = ''waiting_node_maintenance''"
definition WaitReasonRetryBackoff :: string where "WaitReasonRetryBackoff = ''waiting_retry_backoff''"
definition WaitReasonExecutionClaim :: string where "WaitReasonExecutionClaim = ''waiting_execution_claim''"

lemmas wait_reason_defs = WaitReasonStackExecution_def WaitReasonNodeMaintenance_def
  WaitReasonRetryBackoff_def WaitReasonExecutionClaim_def WaitReasonManagedRuntimeEnrollment_def
  WaitReasonManagedRuntimeProvider_def WaitReasonCanonicalGuardEvidence_def

text \<open>\<open>JobStateZero\<close> is the empty string, the state of a job no queue has admitted.\<close>

datatype JobState =
    JobStateZero
  | JobStatePending
  | JobStateWaiting
  | JobStateRunning
  | JobStateCompleted
  | JobStateFailed
  | JobStateCancelled

definition isTerminalJobState :: "JobState \<Rightarrow> bool" where
  "isTerminalJobState s \<longleftrightarrow> s = JobStateCompleted \<or> s = JobStateFailed \<or> s = JobStateCancelled"

datatype WaitingHandoverResult =
    WaitingHandoverClaimed
  | WaitingHandoverAbsent
  | WaitingHandoverTerminal

datatype rval =
    RVal aval
  | RTime gtime
  | RDecision Decision
  | RGuidance Guidance
  | RStrs "string list"

type_synonym jmap = "(string, rval) fmap"

record LogEntry =
  le_Timestamp :: gtime
  le_Level :: string
  le_Message :: string

text \<open>\<open>j_cancelFunc\<close> names the context that the job's cancel function cancels.\<close>

record Job =
  j_ID :: string
  j_Type :: string
  j_TargetType :: string
  j_TargetID :: string
  j_TargetName :: string
  j_State :: JobState
  j_Priority :: int
  j_Payload :: "jmap option"
  j_Result :: "jmap option"
  j_Error :: string
  j_ErrorDetails :: string
  j_Step :: string
  j_Message :: string
  j_Progress :: int
  j_Logs :: "LogEntry list"
  j_Attempts :: int
  j_MaxAttempts :: int
  j_CreatedAt :: gtime
  j_StartedAt :: "gtime option"
  j_CompletedAt :: "gtime option"
  j_WaitReason :: string
  j_NextResumeAt :: "gtime option"
  j_suppressPersistence :: bool
  j_executionClaimPending :: bool
  j_cancelFunc :: "nat option"
  j_cancellationRequested :: bool
  j_cancellationReason :: string

record ExecutionClaim =
  ec_JobID :: string
  ec_TenantID :: string
  ec_JobType :: string
  ec_TargetType :: string
  ec_TargetID :: string
  ec_StartedAt :: gtime

record jobExecutionAttempt =
  at_ctx :: nat
  at_attempts :: int
  at_maxAttempts :: int
  at_previousState :: JobState
  at_previousStartedAt :: "gtime option"
  at_previousWaitReason :: string
  at_previousNextResumeAt :: "gtime option"
  at_previousAttempts :: int

section \<open>Reading payloads and results\<close>

definition map_get :: "jmap option \<Rightarrow> string \<Rightarrow> rval option" where
  "map_get m k = (case m of None \<Rightarrow> None | Some f \<Rightarrow> fmlookup f k)"

definition map_string :: "jmap option \<Rightarrow> string \<Rightarrow> string" where
  "map_string m k = (case map_get m k of Some (RVal (AStr s)) \<Rightarrow> TrimSpace s | _ \<Rightarrow> [])"

definition firstJobString :: "jmap option \<Rightarrow> jmap option \<Rightarrow> string \<Rightarrow> string" where
  "firstJobString primary secondary key =
     (if map_string primary key \<noteq> [] then map_string primary key else map_string secondary key)"

section \<open>Snapshots\<close>

record JobSnapshot =
  s_ID :: string
  s_Type :: string
  s_TargetType :: string
  s_TargetID :: string
  s_TargetName :: string
  s_State :: JobState
  s_Priority :: int
  s_Payload :: "jmap option"
  s_Result :: "jmap option"
  s_Error :: string
  s_ErrorDetails :: string
  s_Step :: string
  s_Message :: string
  s_Progress :: int
  s_Logs :: "LogEntry list"
  s_Attempts :: int
  s_MaxAttempts :: int
  s_CreatedAt :: gtime
  s_StartedAt :: "gtime option"
  s_CompletedAt :: "gtime option"
  s_WaitReason :: string
  s_NextResumeAt :: "gtime option"
  s_PersistenceSuppressed :: bool
  s_ExecutionClaimPending :: bool

definition Snapshot :: "Job \<Rightarrow> JobSnapshot" where
  "Snapshot j = \<lparr>s_ID = j_ID j, s_Type = j_Type j, s_TargetType = j_TargetType j, s_TargetID = j_TargetID j,
     s_TargetName = j_TargetName j, s_State = j_State j, s_Priority = j_Priority j, s_Payload = j_Payload j,
     s_Result = j_Result j, s_Error = j_Error j, s_ErrorDetails = j_ErrorDetails j, s_Step = j_Step j,
     s_Message = j_Message j, s_Progress = j_Progress j, s_Logs = j_Logs j, s_Attempts = j_Attempts j,
     s_MaxAttempts = j_MaxAttempts j, s_CreatedAt = j_CreatedAt j, s_StartedAt = j_StartedAt j,
     s_CompletedAt = j_CompletedAt j, s_WaitReason = j_WaitReason j, s_NextResumeAt = j_NextResumeAt j,
     s_PersistenceSuppressed = j_suppressPersistence j, s_ExecutionClaimPending = j_executionClaimPending j\<rparr>"

definition DetachedCopy :: "Job \<Rightarrow> Job" where
  "DetachedCopy j = (let s = Snapshot j in
     \<lparr>j_ID = s_ID s, j_Type = s_Type s, j_TargetType = s_TargetType s, j_TargetID = s_TargetID s,
      j_TargetName = s_TargetName s, j_State = s_State s, j_Priority = s_Priority s, j_Payload = s_Payload s,
      j_Result = s_Result s, j_Error = s_Error s, j_ErrorDetails = s_ErrorDetails s, j_Step = s_Step s,
      j_Message = s_Message s, j_Progress = s_Progress s, j_Logs = s_Logs s, j_Attempts = s_Attempts s,
      j_MaxAttempts = s_MaxAttempts s, j_CreatedAt = s_CreatedAt s, j_StartedAt = s_StartedAt s,
      j_CompletedAt = s_CompletedAt s, j_WaitReason = s_WaitReason s, j_NextResumeAt = s_NextResumeAt s,
      j_suppressPersistence = s_PersistenceSuppressed s, j_executionClaimPending = s_ExecutionClaimPending s,
      j_cancelFunc = None, j_cancellationRequested = False, j_cancellationReason = []\<rparr>)"

definition zero_snapshot :: "string \<Rightarrow> JobSnapshot" where
  "zero_snapshot jobID = \<lparr>s_ID = jobID, s_Type = [], s_TargetType = [], s_TargetID = [], s_TargetName = [],
     s_State = JobStateZero, s_Priority = 0, s_Payload = None, s_Result = None, s_Error = [], s_ErrorDetails = [],
     s_Step = [], s_Message = [], s_Progress = 0, s_Logs = [], s_Attempts = 0, s_MaxAttempts = 0, s_CreatedAt = 0,
     s_StartedAt = None, s_CompletedAt = None, s_WaitReason = [], s_NextResumeAt = None,
     s_PersistenceSuppressed = False, s_ExecutionClaimPending = False\<rparr>"

definition executionSnapshotMatchesJobLocked :: "JobSnapshot \<Rightarrow> Job \<Rightarrow> bool" where
  "executionSnapshotMatchesJobLocked s j =
     (if s_Type s \<noteq> j_Type j \<or> s_State s \<noteq> j_State j then False
      else case (s_StartedAt s, j_StartedAt j) of
          (Some a, Some b) \<Rightarrow> a = b
        | (a, b) \<Rightarrow> a = None \<and> b = None)"

definition jobSnapshotMatchesFenceLocked :: "JobSnapshot \<Rightarrow> Job \<Rightarrow> bool" where
  "jobSnapshotMatchesFenceLocked observed j =
     (if s_Type observed \<noteq> j_Type j \<or> s_State observed \<noteq> j_State j then False
      else case (s_StartedAt observed, j_StartedAt j) of
          (Some a, Some b) \<Rightarrow> a = b
        | (a, b) \<Rightarrow> a = None \<and> b = None)"

definition executionSnapshotFenceChanged :: "JobSnapshot \<Rightarrow> JobSnapshot \<Rightarrow> bool" where
  "executionSnapshotFenceChanged l r =
     (if s_Type l \<noteq> s_Type r \<or> s_State l \<noteq> s_State r then True
      else case (s_StartedAt l, s_StartedAt r) of
          (Some a, Some b) \<Rightarrow> a \<noteq> b
        | (a, b) \<Rightarrow> a \<noteq> None \<or> b \<noteq> None)"

section \<open>Logs and text\<close>

definition append_log :: "gtime \<Rightarrow> string \<Rightarrow> string \<Rightarrow> Job \<Rightarrow> Job" where
  "append_log now level message j =
     j\<lparr>j_Logs := j_Logs j @ [\<lparr>le_Timestamp = now, le_Level = level, le_Message = message\<rparr>]\<rparr>"

definition recentJobLogWindow :: nat where "recentJobLogWindow = 32"

definition recent_logs :: "LogEntry list \<Rightarrow> LogEntry list" where
  "recent_logs logs = drop (length logs - recentJobLogWindow) logs"

definition recentJobLogHasPrefix :: "LogEntry list \<Rightarrow> string \<Rightarrow> string \<Rightarrow> bool" where
  "recentJobLogHasPrefix logs level prefix =
     list_ex (\<lambda>e. le_Level e = level \<and> HasPrefix (le_Message e) prefix) (recent_logs logs)"

definition addLogUnlessRecent :: "gtime \<Rightarrow> string \<Rightarrow> string \<Rightarrow> Job \<Rightarrow> Job" where
  "addLogUnlessRecent now level message j =
     (if list_ex (\<lambda>e. le_Level e = level \<and> le_Message e = message) (recent_logs (j_Logs j)) then j
      else append_log now level message j)"

text \<open>\<^verbatim>\<open>Duration.String\<close>; the unit of microseconds starts with the two bytes of the micro sign.\<close>

definition frac_digits :: "nat \<Rightarrow> nat \<Rightarrow> string" where
  "frac_digits prec v =
     (let ds = rev (dropWhile (\<lambda>c. c = CHR ''0'') (rev (digs prec (v mod 10 ^ prec))))
      in if ds = [] then [] else ''.'' @ ds)"

definition duration_text :: "nat \<Rightarrow> string" where
  "duration_text u =
     (if u = 0 then ''0s''
      else if u < 1000 then digits_nat u @ ''ns''
      else if u < 1000000 then digits_nat (u div 1000) @ frac_digits 3 u @ [CHR 0xC2, CHR 0xB5, CHR ''s'']
      else if u < 1000000000 then digits_nat (u div 1000000) @ frac_digits 6 u @ ''ms''
      else let secs = u div 1000000000;
               tail = digits_nat (secs mod 60) @ frac_digits 9 u @ ''s'';
               mins = secs div 60
           in if mins = 0 then tail
              else if mins div 60 = 0 then digits_nat mins @ ''m'' @ tail
              else digits_nat (mins div 60) @ ''h'' @ digits_nat (mins mod 60) @ ''m'' @ tail)"

definition Duration_String :: "duration \<Rightarrow> string" where
  "Duration_String d = (if d < 0 then ''-'' @ duration_text (nat (- d)) else duration_text (nat d))"

text \<open>
  \<^verbatim>\<open>Format(time.RFC3339)\<close> of a UTC instant: no fraction, a year of at least four digits; instants
  before year 1 are moved up by whole 400-year cycles to read the calendar.
\<close>

definition year_text :: "int \<Rightarrow> string" where
  "year_text y =
     (let ds = digits_nat (nat \<bar>y\<bar>) in (if y < 0 then ''-'' else []) @ replicate (4 - length ds) (CHR ''0'') @ ds)"

definition format_rfc3339 :: "gtime \<Rightarrow> string" where
  "format_rfc3339 t =
     (let s = t div second;
          cycle = 146097 * 86400;
          k = (if s < 0 then (- s) div cycle + 1 else 0);
          secs = nat (s + k * cycle);
          (y, m, d) = civil (secs div 86400);
          sod = secs mod 86400
      in year_text (int y - 400 * k) @ ''-'' @ digs 2 m @ ''-'' @ digs 2 d @ ''T'' @
         digs 2 (sod div 3600) @ '':'' @ digs 2 (sod div 60 mod 60) @ '':'' @ digs 2 (sod mod 60) @ ''Z'')"

section \<open>Changes by handlers and callers\<close>

definition setStep :: "string \<Rightarrow> Job \<Rightarrow> Job" where
  "setStep step j = j\<lparr>j_Step := step\<rparr>"

definition stepProgress :: "Job \<Rightarrow> string \<times> int" where
  "stepProgress j = (j_Step j, j_Progress j)"

definition replaceResult :: "jmap option \<Rightarrow> Job \<Rightarrow> Job" where
  "replaceResult result j = j\<lparr>j_Result := result\<rparr>"

definition nonnil :: "jmap option \<Rightarrow> jmap" where
  "nonnil m = (case m of None \<Rightarrow> fmempty | Some f \<Rightarrow> f)"

definition mutateResult :: "(jmap \<Rightarrow> jmap) \<Rightarrow> Job \<Rightarrow> Job" where
  "mutateResult fn j = j\<lparr>j_Result := Some (fn (nonnil (j_Result j)))\<rparr>"

definition prepareDeployPayload :: "Job \<Rightarrow> Job" where
  "prepareDeployPayload j =
     (let p = nonnil (j_Payload j)
      in j\<lparr>j_Type := JobTypeDeploy,
           j_Payload := Some (if fmlookup p ''apply'' = None then fmupd ''apply'' (RVal (ABool True)) p else p)\<rparr>)"

datatype bind_error = TenantMismatch string string

definition BindTenantID :: "string \<Rightarrow> Job \<Rightarrow> bind_error + Job" where
  "BindTenantID tenantID j =
     (let t = TrimSpace tenantID in
      if t = [] then Inr j
      else let existing = firstJobString (j_Payload j) (j_Result j) ''tenant_id'' in
        if existing \<noteq> [] \<and> existing \<noteq> t then Inl (TenantMismatch existing t)
        else Inr (j\<lparr>j_Payload := Some (fmupd ''tenant_id'' (RVal (AStr t)) (nonnil (j_Payload j)))\<rparr>))"

definition mergeJobResultValues :: "jmap \<Rightarrow> Job \<Rightarrow> Job" where
  "mergeJobResultValues values j = j\<lparr>j_Result := Some (nonnil (j_Result j) ++\<^sub>f values)\<rparr>"

definition progress_job :: "int \<Rightarrow> string \<Rightarrow> Job \<Rightarrow> Job" where
  "progress_job progress message j =
     (let j1 = j\<lparr>j_Progress := progress\<rparr> in if message \<noteq> [] then j1\<lparr>j_Message := message\<rparr> else j1)"

section \<open>Sections under the job's mutex\<close>

text \<open>
  \<open>start_job\<close> is the locked section of \<^verbatim>\<open>beginJobExecution\<close>; \<^term>\<open>None\<close> when the job may not start.
  \<open>claimer\<close> tells whether an execution claimer is installed.
\<close>

definition start_job ::
  "bool \<Rightarrow> nat \<Rightarrow> gtime \<Rightarrow> Job \<Rightarrow> (jobExecutionAttempt \<times> ExecutionClaim \<times> Job) option" where
  "start_job claimer ctx time_now j =
     (if j_suppressPersistence j \<or> (j_State j \<noteq> JobStatePending \<and> j_State j \<noteq> JobStateWaiting) then None
      else
        let now = time_now - time_now mod 1000;
            j' = j\<lparr>j_cancelFunc := Some ctx, j_cancellationRequested := False, j_cancellationReason := [],
                   j_State := JobStateRunning, j_WaitReason := [], j_NextResumeAt := None,
                   j_StartedAt := Some now, j_Attempts := j_Attempts j + 1,
                   j_executionClaimPending := claimer\<rparr>;
            att = \<lparr>at_ctx = ctx, at_attempts = j_Attempts j', at_maxAttempts = j_MaxAttempts j',
                   at_previousState = j_State j, at_previousStartedAt = j_StartedAt j,
                   at_previousWaitReason = j_WaitReason j, at_previousNextResumeAt = j_NextResumeAt j,
                   at_previousAttempts = j_Attempts j\<rparr>;
            claim = \<lparr>ec_JobID = j_ID j, ec_TenantID = firstJobString (j_Payload j) (j_Result j) ''tenant_id'',
                     ec_JobType = j_Type j, ec_TargetType = j_TargetType j, ec_TargetID = j_TargetID j,
                     ec_StartedAt = now\<rparr>
        in Some (att, claim, j'))"

definition claim_won :: "Job \<Rightarrow> Job" where
  "claim_won j = j\<lparr>j_executionClaimPending := False\<rparr>"

definition restoreUnclaimedExecutionLocked :: "jobExecutionAttempt \<Rightarrow> Job \<Rightarrow> Job" where
  "restoreUnclaimedExecutionLocked att j =
     j\<lparr>j_executionClaimPending := False, j_State := at_previousState att,
       j_StartedAt := at_previousStartedAt att, j_WaitReason := at_previousWaitReason att,
       j_NextResumeAt := at_previousNextResumeAt att, j_Attempts := at_previousAttempts att,
       j_cancelFunc := None\<rparr>"

definition terminate_job :: "JobState \<Rightarrow> gtime \<Rightarrow> Job \<Rightarrow> Job" where
  "terminate_job st now j =
     j\<lparr>j_State := st, j_CompletedAt := Some now, j_WaitReason := [], j_NextResumeAt := None, j_cancelFunc := None\<rparr>"

definition complete_job :: "gtime \<Rightarrow> Job \<Rightarrow> Job option" where
  "complete_job completed j =
     (if j_State j \<noteq> JobStateRunning then None
      else Some ((terminate_job JobStateCompleted completed j)\<lparr>j_Progress := 100\<rparr>))"

definition fail_job :: "string \<Rightarrow> gtime \<Rightarrow> Job \<Rightarrow> Job" where
  "fail_job errMsg now j =
     (if isTerminalJobState (j_State j) then j
      else append_log now ''error'' errMsg ((terminate_job JobStateFailed now j)\<lparr>j_Error := errMsg\<rparr>))"

definition fail_job_details :: "string \<Rightarrow> string \<Rightarrow> gtime \<Rightarrow> Job \<Rightarrow> Job" where
  "fail_job_details errMsg details now j =
     (if isTerminalJobState (j_State j) then j
      else append_log now ''error'' errMsg
             ((terminate_job JobStateFailed now j)\<lparr>j_Error := errMsg, j_ErrorDetails := details\<rparr>))"

definition cancel_job_internal :: "string \<Rightarrow> gtime \<Rightarrow> Job \<Rightarrow> Job" where
  "cancel_job_internal reason now j =
     (if isTerminalJobState (j_State j) then j
      else append_log now ''warn'' reason ((terminate_job JobStateCancelled now j)\<lparr>j_Error := reason\<rparr>))"

definition retry_job :: "gtime \<Rightarrow> ErrorCategory \<Rightarrow> Job \<Rightarrow> Job option" where
  "retry_job nextResumeAt category j =
     (if j_State j \<noteq> JobStateRunning then None
      else Some (j\<lparr>j_State := JobStateWaiting, j_WaitReason := WaitReasonRetryBackoff,
                   j_NextResumeAt := Some nextResumeAt,
                   j_Message := ''Retrying after a '' @ ErrorCategory_String category @ '' error'',
                   j_cancelFunc := None\<rparr>))"

definition defer_claim :: "gtime option \<Rightarrow> string \<Rightarrow> string \<Rightarrow> gtime \<Rightarrow> Job \<Rightarrow> Job" where
  "defer_claim previousStartedAt waitReason message nextResumeAt j =
     j\<lparr>j_State := JobStateWaiting, j_StartedAt := previousStartedAt,
       j_Attempts := (if j_Attempts j > 0 then j_Attempts j - 1 else j_Attempts j),
       j_WaitReason := waitReason, j_NextResumeAt := Some nextResumeAt, j_Message := message,
       j_Error := [], j_ErrorDetails := [], j_cancelFunc := None\<rparr>"

definition wait_job :: "string \<Rightarrow> string \<Rightarrow> gtime \<Rightarrow> gtime \<Rightarrow> Job \<Rightarrow> Job option" where
  "wait_job reason message nextResumeAt now j =
     (if j_State j \<noteq> JobStateRunning then None
      else
        let j1 = j\<lparr>j_Attempts := (if j_Attempts j > 0 then j_Attempts j - 1 else j_Attempts j),
                   j_State := JobStateWaiting, j_CompletedAt := None, j_WaitReason := reason,
                   j_NextResumeAt := Some nextResumeAt, j_Message := message,
                   j_Error := [], j_ErrorDetails := [], j_cancelFunc := None\<rparr>
        in Some (if recentJobLogHasPrefix (j_Logs j) ''info'' (message @ '' Next resume at '') then j1
                 else append_log now ''info'' (message @ '' Next resume at '' @ format_rfc3339 nextResumeAt @ ''.'') j1))"

definition user_cancel_reason :: string where
  "user_cancel_reason = ''Job canceled by user request''"

definition shutdown_reason :: string where
  "shutdown_reason = ''Job canceled during orchestrator shutdown''"

definition cancel_job :: "gtime \<Rightarrow> Job \<Rightarrow> Job option" where
  "cancel_job now j =
     (if j_State j \<noteq> JobStatePending \<and> j_State j \<noteq> JobStateWaiting \<and> j_State j \<noteq> JobStateRunning then None
      else if j_State j \<noteq> JobStateRunning
      then Some ((terminate_job JobStateCancelled now j)\<lparr>j_Error := user_cancel_reason\<rparr>)
      else Some (j\<lparr>j_cancellationRequested := True, j_cancellationReason := user_cancel_reason\<rparr>))"

definition shutdown_job :: "Job \<Rightarrow> Job" where
  "shutdown_job j =
     (case j_State j of
        JobStatePending \<Rightarrow> j\<lparr>j_suppressPersistence := True, j_cancelFunc := None\<rparr>
      | JobStateWaiting \<Rightarrow> j\<lparr>j_suppressPersistence := True, j_cancelFunc := None\<rparr>
      | JobStateRunning \<Rightarrow> j\<lparr>j_cancellationRequested := True, j_cancellationReason := shutdown_reason\<rparr>
      | _ \<Rightarrow> j)"

definition detach_reason :: string where
  "detach_reason = ''Durable job execution was claimed by another process''"

text \<open>The section of \<^verbatim>\<open>DetachFencedExecutionIfUnchanged\<close>; \<^term>\<open>None\<close> when the observation is stale.\<close>

definition detach_job :: "JobSnapshot \<Rightarrow> string \<Rightarrow> Job \<Rightarrow> Job option" where
  "detach_job observed reason j =
     (if s_ID observed \<noteq> [] \<and> s_State observed \<noteq> JobStateZero \<and> \<not> jobSnapshotMatchesFenceLocked observed j
      then None
      else
        let r = (if reason = [] then detach_reason else reason);
            j1 = (if j_State j = JobStateRunning
                  then j\<lparr>j_cancellationRequested := True, j_cancellationReason := r\<rparr> else j)
        in Some (if j_State j \<in> {JobStatePending, JobStateWaiting, JobStateRunning}
                 then j1\<lparr>j_suppressPersistence := True\<rparr> else j1))"

definition enqueue_job :: "gtime \<Rightarrow> string \<Rightarrow> Job \<Rightarrow> Job" where
  "enqueue_job now newID j =
     j\<lparr>j_ID := (if j_ID j = [] then newID else j_ID j),
       j_MaxAttempts := (if j_MaxAttempts j = 0 then 3 else j_MaxAttempts j),
       j_State := JobStatePending, j_WaitReason := [], j_NextResumeAt := None, j_CreatedAt := now\<rparr>"

definition supersede_job :: "jmap \<Rightarrow> gtime \<Rightarrow> Job \<Rightarrow> Job" where
  "supersede_job receipt now j =
     append_log now ''info'' ''Managed rollout wait handed over to its deterministic exact-target replacement.''
       ((mergeJobResultValues receipt j)\<lparr>j_State := JobStateCancelled, j_WaitReason := [], j_NextResumeAt := None,
          j_CompletedAt := Some now, j_Message := ''Superseded by deterministic managed rollout recovery'',
          j_Error := ''Job superseded by exact managed rollout recovery'', j_ErrorDetails := [],
          j_cancelFunc := None\<rparr>)"

end
