(* ===== verification/Job_Outcome.thy ===== *)
theory Job_Outcome
  imports Job_Model "HOL-Library.AList"
begin

text \<open>
  The outcomes a job records in its result (\<^verbatim>\<open>src/pkg/jobs/job_outcome.go\<close>): the decisions built for
  waiting, failed and finished jobs, and \<^verbatim>\<open>setJobOutcome\<close>, which publishes a normalized decision
  under \<^verbatim>\<open>last_outcome\<close> together with its flattened members.
\<close>

section \<open>Identity and context\<close>

record jobOutcomeIdentity =
  id_ID :: string
  id_TargetType :: string
  id_TargetID :: string
  id_Step :: string
  id_ProviderID :: string
  id_RequestID :: string
  id_Type :: string

definition jobOutcomeIdentityOf :: "Job \<Rightarrow> jobOutcomeIdentity" where
  "jobOutcomeIdentityOf j = \<lparr>id_ID = j_ID j, id_TargetType = j_TargetType j, id_TargetID = j_TargetID j,
     id_Step = j_Step j, id_ProviderID = firstJobString (j_Payload j) (j_Result j) ''provider_id'',
     id_RequestID = firstJobString (j_Payload j) (j_Result j) ''request_id'', id_Type = j_Type j\<rparr>"

definition supportContext :: "jobOutcomeIdentity \<Rightarrow> amap \<Rightarrow> amap" where
  "supportContext i extra =
     (let base = [(''job_id'', AStr (id_ID i)), (''job_type'', AStr (id_Type i)),
                  (''target_type'', AStr (id_TargetType i)), (''target_id'', AStr (id_TargetID i))];
          withStep = (if id_Step i \<noteq> [] then AList.update ''step'' (AStr (id_Step i)) base else base)
      in fold (\<lambda>(k, v). AList.update k v) extra withStep)"

definition jobOutcomeCapability :: "string \<Rightarrow> string" where
  "jobOutcomeCapability t =
     (if t = JobTypeProvision then ''techstack.managed.runtime.provision''
      else if t = JobTypeDeploy then ''techstack.stackkit.deploy''
      else if t = JobTypeDestroy \<or> t = JobTypeReconcileLease then ''techstack.managed.runtime.decommission''
      else if t = JobTypeDriftCheck \<or> t = JobTypeDriftResolve then ''techstack.runtime.drift''
      else if t = JobTypeCommand then ''techstack.runtime.command''
      else if t = JobTypeStackKitLifecycle then ''techstack.stackkit.lifecycle''
      else ''techstack.job.execute'')"

definition plain_step :: "string \<Rightarrow> string \<Rightarrow> string \<Rightarrow> Step" where
  "plain_step i label kind = \<lparr>sp_ID = i, sp_Label = label, sp_Kind = kind, sp_Href = [], sp_Description = []\<rparr>"

definition zero_decision :: Decision where
  "zero_decision = \<lparr>oc_Status = [], oc_ErrorCode = [], oc_ReasonCode = [], oc_Capability = [], oc_ProviderID = [],
     oc_RequiredFeatures = [], oc_MissingFeatures = [], oc_Retryable = False, oc_RetryAfter = None,
     oc_UserGuidance = None, oc_Remediation = [], oc_ProviderDiagnostics = [], oc_OccurredAt = 0,
     oc_RequestID = [], oc_SupportContext = []\<rparr>"

section \<open>Decisions\<close>

definition pendingJobGuidance :: "string \<Rightarrow> string \<times> string \<times> Step" where
  "pendingJobGuidance reasonCode =
     (let r = TrimSpace reasonCode in
      if r = WaitReasonManagedRuntimeProvider then
        (''The provider is still creating the server'',
         ''The durable provider operation is still in progress. Starting another request could create a duplicate resource.'',
         plain_step ''wait-provider'' ''Keep this operation open; it resumes automatically'' ''note'')
      else if r = WaitReasonManagedRuntimeEnrollment \<or> r = WaitReasonCanonicalGuardEvidence then
        (''The server connection is still being verified'',
         ''Techstack is waiting for authenticated Guard evidence from the exact server before continuing.'',
         plain_step ''keep-server-online'' ''Keep the server online; the operation resumes automatically'' ''connect'')
      else if r = WaitReasonRetryBackoff then
        (''The operation will retry automatically'',
         ''A temporary dependency failed. Techstack retained the job and scheduled the next bounded attempt.'',
         plain_step ''wait-retry'' ''No action is required while the retry is scheduled'' ''note'')
      else
        (''The operation is still in progress'',
         ''The operation is waiting for a dependency and will continue automatically.'',
         plain_step ''wait-dependency'' ''Keep this operation open for the next update'' ''note''))"

definition jobPendingOutcome :: "Job \<Rightarrow> string \<Rightarrow> amap \<Rightarrow> Decision" where
  "jobPendingOutcome j reasonCode extra =
     (let i = jobOutcomeIdentityOf j; (title, body, step) = pendingJobGuidance reasonCode
      in zero_decision\<lparr>oc_Status := StatusPending, oc_ReasonCode := reasonCode,
           oc_Capability := jobOutcomeCapability (id_Type i), oc_ProviderID := id_ProviderID i,
           oc_Retryable := False,
           oc_UserGuidance := Some \<lparr>gd_Title = title, gd_Body = body, gd_NextSteps = [step]\<rparr>,
           oc_RequestID := id_RequestID i, oc_SupportContext := supportContext i extra\<rparr>)"

definition jobFailedOutcome :: "Job \<Rightarrow> string \<Rightarrow> bool \<Rightarrow> amap \<Rightarrow> Decision" where
  "jobFailedOutcome j reasonCode retryable extra =
     (let i = jobOutcomeIdentityOf j;
          step = (if retryable then plain_step ''retry-operation'' ''Retry the operation'' ''retry''
                  else plain_step ''open-support'' ''Open support with this job context'' ''handoff'');
          body = (if retryable
                  then ''The operation stopped after a temporary failure. Retrying is safe from this job state.''
                  else ''The operation stopped before completion. The job and resource identifiers below can be handed to support without exposing credentials.'')
      in zero_decision\<lparr>oc_Status := StatusFailed, oc_ErrorCode := ''JOB_EXECUTION_FAILED'',
           oc_ReasonCode := reasonCode, oc_Capability := jobOutcomeCapability (id_Type i),
           oc_ProviderID := id_ProviderID i, oc_Retryable := retryable,
           oc_UserGuidance := Some \<lparr>gd_Title = ''The operation needs attention'', gd_Body = body, gd_NextSteps = [step]\<rparr>,
           oc_RequestID := id_RequestID i, oc_SupportContext := supportContext i extra\<rparr>)"

definition GuardHeartbeatTimeoutReason :: string where
  "GuardHeartbeatTimeoutReason = ''guard_heartbeat_timeout''"

definition StackKitReasonACMERateLimited :: string where
  "StackKitReasonACMERateLimited = ''acme_rate_limited''"

definition StackKitReasonUpgradeKitUnsupported :: string where
  "StackKitReasonUpgradeKitUnsupported = ''upgrade_kit_unsupported''"

definition provisionFailureOutcome :: "Job \<Rightarrow> gerr \<Rightarrow> string \<Rightarrow> Decision" where
  "provisionFailureOutcome j provisionErr failedStep =
     (let extra = [(''failed_step'', AStr failedStep)] in
      if errors_Is provisionErr ErrAutoDeployAdmissionTimeout then
        (jobFailedOutcome j GuardHeartbeatTimeoutReason True extra)\<lparr>oc_UserGuidance := Some
          \<lparr>gd_Title = ''Guard admission did not complete in time'',
           gd_Body = ''The provider created the server, but canonical Guard admission did not finish within its total enrollment budget. Inspect the bootstrap failure before retrying; application rollout has not started.'',
           gd_NextSteps =
             [plain_step ''retry-rollout'' ''Retry the rollout once the server is reachable'' ''retry'',
              plain_step ''decommission-server'' ''Or decommission the server so it stops running'' ''handoff'']\<rparr>\<rparr>
      else case asTypedOperation provisionErr of
          None \<Rightarrow> jobFailedOutcome j ''provision_failed'' False extra
        | Some (reason, retryable, retryAfter) \<Rightarrow>
            if reason = [] then jobFailedOutcome j ''provision_failed'' False extra
            else
              let extra' = extra @ [(''stackkit_reason_code'', AStr reason)] in
              if reason \<noteq> StackKitReasonACMERateLimited \<or> \<not> retryable \<or> IsZero retryAfter
              then jobFailedOutcome j ''provision_failed'' False extra'
              else
                let when = format_rfc3339 retryAfter in
                (jobFailedOutcome j (''stackkit_'' @ StackKitReasonACMERateLimited) True extra')
                  \<lparr>oc_RetryAfter := Some retryAfter,
                   oc_UserGuidance := Some
                     \<lparr>gd_Title = ''The certificate authority is rate-limiting this address'',
                      gd_Body = ''The public certificate authority refused new certificates for this address until '' @ when @
                        ''. Retrying the rollout earlier, or creating a new server for the same address, is refused again.'',
                      gd_NextSteps = [plain_step ''retry-after-certificate-authority''
                        (''Retry the rollout after '' @ when) ''retry'']\<rparr>\<rparr>)"

definition stackKitLifecycleFailureOutcome :: "Job \<Rightarrow> string \<Rightarrow> string \<Rightarrow> amap \<Rightarrow> Decision" where
  "stackKitLifecycleFailureOutcome j operation reason extra =
     (let extra' = AList.update ''stackkit_reason_code'' (AStr reason)
                     (AList.update ''stackkit_operation'' (AStr operation) extra);
          d = jobFailedOutcome j reason False extra'
      in if reason = StackKitReasonUpgradeKitUnsupported
         then d\<lparr>oc_UserGuidance := Some
           \<lparr>gd_Title = ''This StackKit cannot be upgraded in place yet'',
            gd_Body = ''Its upgrade policy does not support an in-place upgrade, so StackKits refused before changing anything. The server keeps running its current release and services.'',
            gd_NextSteps = [plain_step ''keep-current-release'' ''Keep the current release'' ''note'']\<rparr>\<rparr>
         else d)"

definition jobAvailableOutcome :: "Job \<Rightarrow> Decision" where
  "jobAvailableOutcome j =
     (let i = jobOutcomeIdentityOf j
      in zero_decision\<lparr>oc_Status := StatusAvailable, oc_Capability := jobOutcomeCapability (id_Type i),
           oc_ProviderID := id_ProviderID i, oc_Retryable := False, oc_RequestID := id_RequestID i,
           oc_SupportContext := supportContext i []\<rparr>)"

section \<open>Recording\<close>

definition outcome_keys :: "string list" where
  "outcome_keys = [''error_code'', ''reason_code'', ''capability'', ''provider_id'', ''required_features'',
     ''missing_features'', ''user_guidance'', ''remediation'', ''provider_diagnostics'', ''request_id'',
     ''support_context'', ''retry_after'']"

definition put_when :: "bool \<Rightarrow> string \<Rightarrow> rval \<Rightarrow> jmap \<Rightarrow> jmap" where
  "put_when b k v m = (if b then fmupd k v m else m)"

definition publish_outcome :: "Decision \<Rightarrow> jmap \<Rightarrow> jmap" where
  "publish_outcome n m0 =
     (let m1 = fold fmdrop outcome_keys (fmupd ''last_outcome'' (RDecision n) m0);
          m2 = fmupd ''retryable'' (RVal (ABool (oc_Retryable n))) m1;
          m3 = (case oc_RetryAfter n of None \<Rightarrow> m2
                | Some t \<Rightarrow> fmupd ''retry_after'' (RVal (AStr (format_rfc3339 t))) m2);
          m4 = put_when (oc_ErrorCode n \<noteq> []) ''error_code'' (RVal (AStr (oc_ErrorCode n))) m3;
          m5 = put_when (oc_ReasonCode n \<noteq> []) ''reason_code'' (RVal (AStr (oc_ReasonCode n))) m4;
          m6 = put_when (oc_Capability n \<noteq> []) ''capability'' (RVal (AStr (oc_Capability n))) m5;
          m7 = put_when (oc_ProviderID n \<noteq> []) ''provider_id'' (RVal (AStr (oc_ProviderID n))) m6;
          m8 = put_when (oc_RequiredFeatures n \<noteq> []) ''required_features'' (RStrs (oc_RequiredFeatures n)) m7;
          m9 = put_when (oc_MissingFeatures n \<noteq> []) ''missing_features'' (RStrs (oc_MissingFeatures n)) m8;
          m10 = (case oc_UserGuidance n of None \<Rightarrow> m9 | Some g \<Rightarrow> fmupd ''user_guidance'' (RGuidance g) m9);
          m11 = put_when (oc_Remediation n \<noteq> []) ''remediation'' (RVal (AStr (oc_Remediation n))) m10;
          m12 = put_when (oc_ProviderDiagnostics n \<noteq> []) ''provider_diagnostics'' (RVal (AMap (oc_ProviderDiagnostics n))) m11;
          m13 = put_when (oc_RequestID n \<noteq> []) ''request_id'' (RVal (AStr (oc_RequestID n))) m12
      in put_when (oc_SupportContext n \<noteq> []) ''support_context'' (RVal (AMap (oc_SupportContext n))) m13)"

definition setJobOutcome :: "Decision \<Rightarrow> gtime \<Rightarrow> Job \<Rightarrow> outcome_error + Job" where
  "setJobOutcome decision now j =
     (case Normalize decision now of
        Inl e \<Rightarrow> Inl e
      | Inr n \<Rightarrow> Inr (j\<lparr>j_Result := Some (publish_outcome n (nonnil (j_Result j)))\<rparr>))"

text \<open>A rejected outcome is logged and leaves the job as it is.\<close>

definition recordJobOutcome :: "Decision \<Rightarrow> gtime \<Rightarrow> Job \<Rightarrow> Job" where
  "recordJobOutcome decision now j = (case setJobOutcome decision now j of Inl _ \<Rightarrow> j | Inr j' \<Rightarrow> j')"

definition jobCompletionOutcomeIsActionable :: "Job \<Rightarrow> bool" where
  "jobCompletionOutcomeIsActionable j =
     (case map_get (j_Result j) ''last_outcome'' of
        Some (RDecision d) \<Rightarrow> oc_Status d \<noteq> StatusAvailable \<and> oc_Status d \<noteq> StatusPending
      | _ \<Rightarrow> False)"

definition RolloutInterruptedReason :: string where
  "RolloutInterruptedReason = ''rollout_interrupted''"

definition InterruptedRolloutResult :: "string \<Rightarrow> gtime \<Rightarrow> outcome_error + jmap" where
  "InterruptedRolloutResult jobID now =
     (case Normalize (zero_decision\<lparr>oc_Status := StatusFailed, oc_ErrorCode := ''JOB_EXECUTION_FAILED'',
             oc_ReasonCode := RolloutInterruptedReason, oc_Capability := jobOutcomeCapability JobTypeDeploy,
             oc_Retryable := True,
             oc_UserGuidance := Some
               \<lparr>gd_Title = ''The rollout was interrupted'',
                gd_Body = ''Techstack restarted while this rollout was running, so it stopped before finishing. Nothing is left half-reserved; retrying starts a fresh attempt from the same plan.'',
                gd_NextSteps = [plain_step ''retry-rollout'' ''Retry the rollout'' ''retry'']\<rparr>,
             oc_SupportContext := [(''job_id'', AStr jobID)]\<rparr>) now of
        Inl e \<Rightarrow> Inl e
      | Inr d \<Rightarrow> Inr (fmap_of_list
          ([(''last_outcome'', RDecision d), (''retryable'', RVal (ABool True)),
            (''error_code'', RVal (AStr (oc_ErrorCode d))), (''reason_code'', RVal (AStr (oc_ReasonCode d))),
            (''capability'', RVal (AStr (oc_Capability d)))] @
           (case oc_UserGuidance d of None \<Rightarrow> [] | Some g \<Rightarrow> [(''user_guidance'', RGuidance g)]))))"

end
