(* ===== verification/Job_Queue.thy ===== *)
theory Job_Queue
  imports Job_Outcome
begin

text \<open>
  The job queue (\<^verbatim>\<open>src/pkg/jobs/queue.go\<close>): its state and its operations.  Jobs, target entries,
  contexts and resume schedules are objects the code compares by identity, so they are numbered and
  the queue keeps a store of each.  Every section the code runs under a mutex is one function;
  operations are their compositions.  The time and the results of code the queue calls (the durable
  execution claimer, the snapshot syncer, the job handler) are arguments.
\<close>

section \<open>State\<close>

datatype ctx_err = CtxLive | CtxCanceled | CtxDeadline

record jobTargetExecution =
  te_token :: bool
  te_refs :: int

record JobQueue =
  q_heap :: "nat \<Rightarrow> Job"
  q_alloc :: nat
  q_jobs :: "(string, nat) fmap"
  q_pending :: "nat list"
  q_handlers :: "string list"
  q_running :: bool
  q_workers :: nat
  q_done :: bool
  q_parent :: ctx_err
  q_ctxs :: "nat \<Rightarrow> ctx_err"
  q_nextCtx :: nat
  q_resumes :: "(string, nat) fmap"
  q_canceledResumes :: "nat list"
  q_nextResume :: nat
  q_resumesClosed :: bool
  q_claimExecution :: bool
  q_syncExecution :: bool
  q_targets :: "(string, nat) fmap"
  q_entries :: "nat \<Rightarrow> jobTargetExecution"
  q_nextEntry :: nat
  q_defers :: defer_map
  q_deferObserver :: bool
  q_reports :: "ExecutionDeferReport list"
  q_maxCompletedJobs :: int
  q_completedJobTTL :: duration

definition zero_job :: Job where
  "zero_job = \<lparr>j_ID = [], j_Type = [], j_TargetType = [], j_TargetID = [], j_TargetName = [],
     j_State = JobStateZero, j_Priority = 0, j_Payload = None, j_Result = None, j_Error = [], j_ErrorDetails = [],
     j_Step = [], j_Message = [], j_Progress = 0, j_Logs = [], j_Attempts = 0, j_MaxAttempts = 0, j_CreatedAt = 0,
     j_StartedAt = None, j_CompletedAt = None, j_WaitReason = [], j_NextResumeAt = None,
     j_suppressPersistence = False, j_executionClaimPending = False, j_cancelFunc = None,
     j_cancellationRequested = False, j_cancellationReason = []\<rparr>"

definition pending_cap :: int where "pending_cap = 1000"

definition NewQueue :: "nat \<Rightarrow> JobQueue" where
  "NewQueue workers = \<lparr>q_heap = (\<lambda>_. zero_job), q_alloc = 0, q_jobs = fmempty, q_pending = [], q_handlers = [],
     q_running = False, q_workers = workers, q_done = False, q_parent = CtxLive, q_ctxs = (\<lambda>_. CtxLive),
     q_nextCtx = 0, q_resumes = fmempty, q_canceledResumes = [], q_nextResume = 0, q_resumesClosed = False,
     q_claimExecution = False, q_syncExecution = False, q_targets = fmempty,
     q_entries = (\<lambda>_. \<lparr>te_token = False, te_refs = 0\<rparr>), q_nextEntry = 0, q_defers = fmempty,
     q_deferObserver = False, q_reports = [], q_maxCompletedJobs = 1000, q_completedJobTTL = 24 * hour\<rparr>"

definition SetExecutionClaimer :: "bool \<Rightarrow> JobQueue \<Rightarrow> JobQueue" where
  "SetExecutionClaimer b q = q\<lparr>q_claimExecution := b\<rparr>"

definition SetExecutionSnapshotSyncer :: "bool \<Rightarrow> JobQueue \<Rightarrow> JobQueue" where
  "SetExecutionSnapshotSyncer b q = q\<lparr>q_syncExecution := b\<rparr>"

definition SetExecutionDeferObserver :: "bool \<Rightarrow> JobQueue \<Rightarrow> JobQueue" where
  "SetExecutionDeferObserver b q = q\<lparr>q_deferObserver := b\<rparr>"

definition RegisterHandler :: "string \<Rightarrow> JobQueue \<Rightarrow> JobQueue" where
  "RegisterHandler jobType q = q\<lparr>q_handlers := jobType # q_handlers q\<rparr>"

definition getHandler :: "string \<Rightarrow> JobQueue \<Rightarrow> bool" where
  "getHandler jobType q \<longleftrightarrow> jobType \<in> set (q_handlers q)"

definition HasHandler :: "string \<Rightarrow> JobQueue \<Rightarrow> bool" where
  "HasHandler jobType q = getHandler jobType q"

section \<open>Objects\<close>

definition update_job :: "nat \<Rightarrow> (Job \<Rightarrow> Job) \<Rightarrow> JobQueue \<Rightarrow> JobQueue" where
  "update_job p f q = q\<lparr>q_heap := (q_heap q)(p := f (q_heap q p))\<rparr>"

definition addLog :: "nat \<Rightarrow> gtime \<Rightarrow> string \<Rightarrow> string \<Rightarrow> JobQueue \<Rightarrow> JobQueue" where
  "addLog p now level message q = update_job p (append_log now level message) q"

text \<open>
  The context of an execution attempt: its own cancellation, or that of the context the workers
  were started with.  Cancelling an ended context changes nothing.
\<close>

definition ctx_Err :: "JobQueue \<Rightarrow> nat \<Rightarrow> ctx_err" where
  "ctx_Err q c = (if q_ctxs q c = CtxLive then q_parent q else q_ctxs q c)"

definition cancel_ctx :: "nat \<Rightarrow> JobQueue \<Rightarrow> JobQueue" where
  "cancel_ctx c q =
     (if ctx_Err q c = CtxLive then q\<lparr>q_ctxs := (q_ctxs q)(c := CtxCanceled)\<rparr> else q)"

definition cancel_func :: "nat option \<Rightarrow> JobQueue \<Rightarrow> JobQueue" where
  "cancel_func f q = (case f of None \<Rightarrow> q | Some c \<Rightarrow> cancel_ctx c q)"

section \<open>Resume schedules\<close>

definition cancel_schedule :: "nat \<Rightarrow> JobQueue \<Rightarrow> JobQueue" where
  "cancel_schedule s q = q\<lparr>q_canceledResumes := s # q_canceledResumes q\<rparr>"

definition resume_done :: "JobQueue \<Rightarrow> nat \<Rightarrow> bool" where
  "resume_done q s \<longleftrightarrow> q_done q \<or> s \<in> set (q_canceledResumes q)"

definition clearResume :: "string \<Rightarrow> nat \<Rightarrow> JobQueue \<Rightarrow> JobQueue" where
  "clearResume jobID s q =
     (if fmlookup (q_resumes q) jobID = Some s then q\<lparr>q_resumes := fmdrop jobID (q_resumes q)\<rparr> else q)"

definition cancelResume :: "string \<Rightarrow> JobQueue \<Rightarrow> JobQueue" where
  "cancelResume jobID q =
     (case fmlookup (q_resumes q) jobID of
        None \<Rightarrow> q
      | Some s \<Rightarrow> (cancel_schedule s q)\<lparr>q_resumes := fmdrop jobID (q_resumes q)\<rparr>)"

definition cancelResumeSchedule :: "string \<Rightarrow> nat \<Rightarrow> JobQueue \<Rightarrow> JobQueue" where
  "cancelResumeSchedule jobID s q =
     (if fmlookup (q_resumes q) jobID = Some s
      then (cancel_schedule s q)\<lparr>q_resumes := fmdrop jobID (q_resumes q)\<rparr> else q)"

definition cancelAllResumes :: "JobQueue \<Rightarrow> JobQueue" where
  "cancelAllResumes q =
     (fold (\<lambda>jobID q. cancelResume jobID q) (sorted_keys (q_resumes q)) q)\<lparr>q_resumesClosed := True\<rparr>"

text \<open>The locked section of \<^verbatim>\<open>scheduleResume\<close>; the new schedule, unless resumes are closed.\<close>

definition scheduleResume :: "string \<Rightarrow> JobQueue \<Rightarrow> nat option \<times> JobQueue" where
  "scheduleResume jobID q =
     (if q_resumesClosed q then (None, q)
      else
        let s = q_nextResume q;
            q1 = (case fmlookup (q_resumes q) jobID of None \<Rightarrow> q | Some old \<Rightarrow> cancel_schedule old q)
        in (Some s, q1\<lparr>q_resumes := fmupd jobID s (q_resumes q), q_nextResume := Suc s\<rparr>))"

section \<open>Target serialization\<close>

definition target_key :: "Job \<Rightarrow> string option" where
  "target_key j =
     (let key = TrimSpace (j_TargetType j) @ [CHR 0x00] @ TrimSpace (j_TargetID j)
      in if list_all (\<lambda>c. c = CHR 0x00) key then None else Some key)"

text \<open>The locked section of \<^verbatim>\<open>acquireTargetExecution\<close>, and the two that follow it.\<close>

definition acquire_entry :: "string \<Rightarrow> JobQueue \<Rightarrow> nat \<times> JobQueue" where
  "acquire_entry key q =
     (let (e, q1) =
        (case fmlookup (q_targets q) key of
           Some e \<Rightarrow> (e, q)
         | None \<Rightarrow> (q_nextEntry q,
             q\<lparr>q_entries := (q_entries q)(q_nextEntry q := \<lparr>te_token = True, te_refs = 0\<rparr>),
               q_targets := fmupd key (q_nextEntry q) (q_targets q), q_nextEntry := Suc (q_nextEntry q)\<rparr>))
      in (e, q1\<lparr>q_entries := (q_entries q1)(e := (q_entries q1 e)\<lparr>te_refs := te_refs (q_entries q1 e) + 1\<rparr>)\<rparr>))"

definition set_token :: "nat \<Rightarrow> bool \<Rightarrow> JobQueue \<Rightarrow> JobQueue" where
  "set_token e b q = q\<lparr>q_entries := (q_entries q)(e := (q_entries q e)\<lparr>te_token := b\<rparr>)\<rparr>"

definition releaseTargetExecutionRef :: "string \<Rightarrow> nat \<Rightarrow> JobQueue \<Rightarrow> JobQueue" where
  "releaseTargetExecutionRef key e q =
     (let refs = te_refs (q_entries q e) - 1;
          q1 = q\<lparr>q_entries := (q_entries q)(e := (q_entries q e)\<lparr>te_refs := refs\<rparr>)\<rparr>
      in if refs = 0 \<and> fmlookup (q_targets q1) key = Some e
         then q1\<lparr>q_targets := fmdrop key (q_targets q1)\<rparr> else q1)"

section \<open>Ending an execution\<close>

definition cancelJobInternal :: "nat \<Rightarrow> string \<Rightarrow> gtime \<Rightarrow> JobQueue \<Rightarrow> JobQueue" where
  "cancelJobInternal p reason now q =
     update_job p (cancel_job_internal reason now) (cancelResume (j_ID (q_heap q p)) q)"

definition failJob :: "nat \<Rightarrow> string \<Rightarrow> gtime \<Rightarrow> JobQueue \<Rightarrow> JobQueue" where
  "failJob p errMsg now q = update_job p (fail_job errMsg now) (cancelResume (j_ID (q_heap q p)) q)"

definition failJobWithDetails :: "nat \<Rightarrow> string \<Rightarrow> string \<Rightarrow> gtime \<Rightarrow> JobQueue \<Rightarrow> JobQueue" where
  "failJobWithDetails p errMsg details now q =
     update_job p (fail_job_details errMsg details now) (cancelResume (j_ID (q_heap q p)) q)"

definition completeJob :: "nat \<Rightarrow> gtime \<Rightarrow> JobQueue \<Rightarrow> JobQueue" where
  "completeJob p now q =
     (case complete_job now (q_heap q p) of
        None \<Rightarrow> q
      | Some j \<Rightarrow>
          let j1 = (if jobCompletionOutcomeIsActionable j then j
                    else recordJobOutcome (jobAvailableOutcome j) now j)
          in update_job p (\<lambda>_. append_log now ''info'' ''Job completed successfully'' j1) q)"

definition jobCancellation :: "JobQueue \<Rightarrow> Job \<Rightarrow> nat \<Rightarrow> string option" where
  "jobCancellation q j c =
     (if \<not> j_cancellationRequested j \<and> ctx_Err q c \<noteq> CtxCanceled then None
      else if j_cancellationReason j \<noteq> [] then Some (j_cancellationReason j)
      else if q_done q then Some shutdown_reason
      else Some user_cancel_reason)"

text \<open>
  What a worker does after a section: give the target back, cancel the job, or schedule its
  resumption after a delay (with a second look at its state when \<open>recheck\<close> is set).
\<close>

datatype after =
    AfterRelease
  | AfterCancel string
  | AfterSchedule duration bool

definition waitJob :: "nat \<Rightarrow> string \<times> string \<times> duration \<times> gerr option \<Rightarrow> gtime \<Rightarrow> JobQueue \<Rightarrow> JobQueue \<times> after" where
  "waitJob p waitErr now q =
     (case waitErr of (reason0, msg, resumeAfter, cause) \<Rightarrow>
        let delay = (if resumeAfter \<le> 0 then defaultJobWaitResumeDelay else resumeAfter);
            reason = (if reason0 = [] then ''waiting_dependency'' else reason0);
            message = Error_text (JobWaitError reason0 msg resumeAfter cause)
        in case wait_job reason message (now + delay) now (q_heap q p) of
             None \<Rightarrow> (q, AfterRelease)
           | Some j \<Rightarrow> (update_job p (\<lambda>_. j) q, AfterSchedule delay True))"

definition deferJobRetry :: "nat \<Rightarrow> gerr \<Rightarrow> ErrorCategory \<Rightarrow> int \<Rightarrow> gtime \<Rightarrow> JobQueue \<Rightarrow> JobQueue \<times> after" where
  "deferJobRetry p err category currentAttempts now q =
     (let delay = CalculateDelay DefaultRetryPolicy currentAttempts;
          q1 = addLog p now ''warn''
                 (''Attempt '' @ Itoa currentAttempts @ '' failed ('' @ ErrorCategory_String category @ ''): '' @
                  Error_text err @ ''. Retrying in '' @ Duration_String delay @ ''...'') q
      in case retry_job (now + delay) category (q_heap q1 p) of
           None \<Rightarrow> (q1, AfterRelease)
         | Some j \<Rightarrow> (update_job p (\<lambda>_. j) q1, AfterSchedule delay False))"

definition failure_reason :: "bool \<Rightarrow> ErrorCategory \<Rightarrow> int \<Rightarrow> int \<Rightarrow> gerr \<Rightarrow> string" where
  "failure_reason retryable category currentAttempts maxAttempts err =
     (if \<not> retryable
      then ''non-retryable error ('' @ ErrorCategory_String category @ ''): '' @ Error_text err
      else ''max attempts reached ('' @ Itoa currentAttempts @ ''/'' @ Itoa maxAttempts @ ''): '' @ Error_text err)"

text \<open>The decision and the job error of a final failure.\<close>

definition final_failure :: "Job \<Rightarrow> bool \<Rightarrow> ErrorCategory \<Rightarrow> gerr \<Rightarrow> Decision \<times> string" where
  "final_failure j retryable category err =
     (let extra0 = [(''error_category'', AStr (ErrorCategory_String category)), (''attempts'', AInt (j_Attempts j))];
          (reasonCode, extra) =
            (case advancedFailureReason err of
               Some (r, op) \<Rightarrow> (r, extra0 @ [(''stackkit_operation'', AStr op)])
             | None \<Rightarrow> (''job_'' @ ErrorCategory_String category, extra0))
      in case asLifecycleFailed err of
           Some (op, r) \<Rightarrow>
             (stackKitLifecycleFailureOutcome j op r extra, Error_text (StackKitLifecycleFailed op r))
         | None \<Rightarrow>
             (jobFailedOutcome j reasonCode False extra,
              failure_reason retryable category (j_Attempts j) (j_MaxAttempts j) err))"

definition handleJobExecutionError :: "nat \<Rightarrow> gerr \<Rightarrow> gtime \<Rightarrow> JobQueue \<Rightarrow> JobQueue \<times> after" where
  "handleJobExecutionError p err now q =
     (case asJobWaitError err of
        Some (reason, msg, resumeAfter, cause) \<Rightarrow>
          let waitReason = (if TrimSpace reason = [] then ''waiting_dependency'' else TrimSpace reason);
              j = q_heap q p;
              q1 = update_job p (recordJobOutcome
                     (jobPendingOutcome j waitReason [(''wait_reason'', AStr waitReason)]) now) q
          in waitJob p (reason, msg, resumeAfter, cause) now q1
      | None \<Rightarrow>
     (case (asJobError err, asProvisionError err) of
        (None, Some (ProvisionError step message details cause)) \<Rightarrow>
          let q1 = update_job p (\<lambda>j. if j_State j = JobStateRunning then j\<lparr>j_Step := step\<rparr> else j) q;
              j = q_heap q1 p;
              q2 = update_job p (recordJobOutcome
                     (provisionFailureOutcome j (ProvisionError step message details cause) step) now) q1
          in (failJobWithDetails p message details now q2, AfterRelease)
      | _ \<Rightarrow>
          let category = ClassifyError (Some err);
              retryable = IsRetryable (Some err);
              j = q_heap q p
          in if retryable \<and> j_Attempts j < j_MaxAttempts j
             then deferJobRetry p err category (j_Attempts j) now
                    (update_job p (recordJobOutcome
                       (jobPendingOutcome j WaitReasonRetryBackoff
                         [(''error_category'', AStr (ErrorCategory_String category)),
                          (''attempt'', AInt (j_Attempts j))]) now) q)
             else case final_failure j retryable category err of
                 (decision, reason) \<Rightarrow>
                   (failJob p reason now (update_job p (recordJobOutcome decision now) q), AfterRelease)))"

definition settleJobExecution :: "nat \<Rightarrow> gerr option \<Rightarrow> gtime \<Rightarrow> JobQueue \<Rightarrow> JobQueue \<times> after" where
  "settleJobExecution p handlerErr now q =
     (case handlerErr of
        Some err \<Rightarrow> handleJobExecutionError p err now q
      | None \<Rightarrow> (completeJob p now q, AfterRelease))"

text \<open>\<open>handlerCtx\<close> ends with the context of the attempt, whose number is \<open>c\<close>.\<close>

definition finishJobExecution :: "nat \<Rightarrow> nat \<Rightarrow> gerr option \<Rightarrow> gtime \<Rightarrow> JobQueue \<Rightarrow> JobQueue \<times> after" where
  "finishJobExecution p c handlerErr now q =
     (case jobCancellation q (q_heap q p) c of
        Some reason \<Rightarrow> (cancelJobInternal p reason now q, AfterRelease)
      | None \<Rightarrow> settleJobExecution p handlerErr now q)"

section \<open>Claiming an execution\<close>

definition deferExecutionClaim ::
  "nat \<Rightarrow> jobExecutionAttempt \<Rightarrow> string \<Rightarrow> string \<Rightarrow> string \<Rightarrow> gtime \<Rightarrow> JobQueue \<Rightarrow> JobQueue \<times> after" where
  "deferExecutionClaim p att waitReason message logMessage now q =
     (let j = q_heap q p;
          (retryAfter, alert, defers) = noteExecutionDefer (j_ID j) waitReason now (q_defers q);
          q1 = update_job p (defer_claim (at_previousStartedAt att) waitReason message (now + retryAfter))
                 (q\<lparr>q_defers := defers\<rparr>);
          q2 = addLog p now ''info'' logMessage (cancel_ctx (at_ctx att) q1);
          q3 = (case alert of
                  Some a \<Rightarrow>
                    if q_deferObserver q2
                    then q2\<lparr>q_reports := q_reports q2 @ [a\<lparr>dr_JobType := j_Type j, dr_TargetType := j_TargetType j,
                                                         dr_TargetID := j_TargetID j\<rparr>]\<rparr>
                    else q2
                | None \<Rightarrow> q2)
      in (q3, AfterSchedule retryAfter False))"

definition deferBusyExecutionClaim :: "nat \<Rightarrow> jobExecutionAttempt \<Rightarrow> gtime \<Rightarrow> JobQueue \<Rightarrow> JobQueue \<times> after" where
  "deferBusyExecutionClaim p att now q =
     deferExecutionClaim p att WaitReasonStackExecution ''Another operation for this stack is still running''
       ''Waiting for the active stack operation to finish'' now q"

definition deferUnavailableExecutionClaim ::
  "nat \<Rightarrow> jobExecutionAttempt \<Rightarrow> gerr \<Rightarrow> gtime \<Rightarrow> JobQueue \<Rightarrow> JobQueue \<times> after" where
  "deferUnavailableExecutionClaim p att claimErr now q =
     deferExecutionClaim p att WaitReasonExecutionClaim ''Durable execution coordination is temporarily unavailable''
       (''Waiting for durable execution coordination: '' @ Error_text claimErr) now q"

definition missing_tenant :: gerr where
  "missing_tenant =
     ErrWrap ''job execution claim is fenced by durable state: missing tenant identity'' ErrExecutionClaimFenced"

definition handleExecutionClaimError ::
  "nat \<Rightarrow> jobExecutionAttempt \<Rightarrow> gerr \<Rightarrow> gtime \<Rightarrow> JobQueue \<Rightarrow> JobQueue \<times> after" where
  "handleExecutionClaimError p att claimErr now q0 =
     (let q = update_job p (\<lambda>j. j\<lparr>j_executionClaimPending := False\<rparr>) q0;
          j = q_heap q p;
          reason = j_cancellationReason j
      in if j_cancellationRequested j \<or> ctx_Err q (at_ctx att) \<noteq> CtxLive then
           (let q1 = update_job p (restoreUnclaimedExecutionLocked att) q in
            if q_done q \<or> reason = shutdown_reason
            then (cancel_ctx (at_ctx att) (update_job p (\<lambda>j. j\<lparr>j_suppressPersistence := True\<rparr>) q1), AfterRelease)
            else (cancel_ctx (at_ctx att) q1, AfterCancel (if reason = [] then user_cancel_reason else reason)))
         else if errors_Is claimErr ErrExecutionNodeMaintenance then
           deferExecutionClaim p att WaitReasonNodeMaintenance ''The server is being rebooted or updated''
             ''Waiting for the server maintenance to finish'' now q
         else if errors_Is claimErr ErrExecutionTargetBusy then deferBusyExecutionClaim p att now q
         else if errors_Is claimErr ErrExecutionClaimFenced then
           (let q1 = update_job p (\<lambda>j. (restoreUnclaimedExecutionLocked att j)\<lparr>j_suppressPersistence := True\<rparr>) q;
                q2 = cancel_ctx (at_ctx att) q1
            in (q2\<lparr>q_defers := clearExecutionDefer (j_ID j) (q_defers q2)\<rparr>, AfterRelease))
         else deferUnavailableExecutionClaim p att claimErr now q)"

section \<open>Client operations\<close>

datatype enqueue_error = JobAlreadyEnqueued string | JobQueueFull

text \<open>\<^verbatim>\<open>Enqueue\<close> of a job the caller built: it gets the next pointer of the store.\<close>

definition Enqueue :: "Job \<Rightarrow> gtime \<Rightarrow> string \<Rightarrow> JobQueue \<Rightarrow> (enqueue_error + nat) \<times> JobQueue" where
  "Enqueue job0 now newID q0 =
     (let p = q_alloc q0;
          job = enqueue_job now newID job0;
          q = q0\<lparr>q_heap := (q_heap q0)(p := job), q_alloc := Suc p\<rparr>;
          duplicate = (case fmlookup (q_jobs q) (j_ID job) of
                         Some e \<Rightarrow> \<not> j_suppressPersistence (q_heap q e) | None \<Rightarrow> False)
      in if duplicate then (Inl (JobAlreadyEnqueued (j_ID job)), q)
         else
           let q1 = addLog p now ''info'' ''Job queued'' (q\<lparr>q_jobs := fmupd (j_ID job) p (q_jobs q)\<rparr>)
           in if int (length (q_pending q1)) < pending_cap
              then (Inr p, q1\<lparr>q_pending := q_pending q1 @ [p]\<rparr>)
              else (Inl JobQueueFull,
                    if fmlookup (q_jobs q1) (j_ID job) = Some p
                    then q1\<lparr>q_jobs := fmdrop (j_ID job) (q_jobs q1)\<rparr> else q1))"

definition Get :: "string \<Rightarrow> JobQueue \<Rightarrow> nat option" where
  "Get jobID q = fmlookup (q_jobs q) jobID"

text \<open>The pointers of the queue's jobs, in the order of their identifiers.\<close>

definition job_pointers :: "JobQueue \<Rightarrow> nat list" where
  "job_pointers q = map (\<lambda>i. the (fmlookup (q_jobs q) i)) (sorted_keys (q_jobs q))"

definition List :: "JobState \<Rightarrow> JobQueue \<Rightarrow> nat list" where
  "List st q = filter (\<lambda>p. st = JobStateZero \<or> j_State (q_heap q p) = st) (job_pointers q)"

definition count_state :: "JobState \<Rightarrow> JobQueue \<Rightarrow> nat" where
  "count_state st q = length (filter (\<lambda>p. j_State (q_heap q p) = st) (job_pointers q))"

definition Stats :: "JobQueue \<Rightarrow> (string \<times> nat) list" where
  "Stats q = [(''total'', length (job_pointers q)), (''pending'', count_state JobStatePending q),
     (''waiting'', count_state JobStateWaiting q), (''running'', count_state JobStateRunning q),
     (''completed'', count_state JobStateCompleted q), (''failed'', count_state JobStateFailed q),
     (''canceled'', count_state JobStateCancelled q)]"

definition UpdateProgress :: "string \<Rightarrow> int \<Rightarrow> string \<Rightarrow> gtime \<Rightarrow> JobQueue \<Rightarrow> JobQueue" where
  "UpdateProgress jobID progress message now q =
     (case fmlookup (q_jobs q) jobID of
        None \<Rightarrow> q
      | Some p \<Rightarrow>
          let q1 = update_job p (progress_job progress message) q
          in if message \<noteq> [] then update_job p (addLogUnlessRecent now ''info'' message) q1 else q1)"

datatype cancel_error = JobNotFound string | CannotCancel JobState

text \<open>
  \<^verbatim>\<open>Cancel\<close> first decides under the job's mutex and then, without it, cancels the resume timer and
  the execution's context.
\<close>

record cancel_call =
  cc_job :: nat
  cc_id :: string
  cc_func :: "nat option"
  cc_state :: JobState

definition Cancel_decide :: "string \<Rightarrow> gtime \<Rightarrow> JobQueue \<Rightarrow> (cancel_error + cancel_call) \<times> JobQueue" where
  "Cancel_decide jobID now q =
     (case fmlookup (q_jobs q) jobID of
        None \<Rightarrow> (Inl (JobNotFound jobID), q)
      | Some p \<Rightarrow>
          (let j = q_heap q p in
           case cancel_job now j of
             None \<Rightarrow> (Inl (CannotCancel (j_State j)), q)
           | Some j' \<Rightarrow>
               (Inr \<lparr>cc_job = p, cc_id = jobID, cc_func = j_cancelFunc j, cc_state = j_State j\<rparr>,
                update_job p (\<lambda>_. j') q)))"

definition Cancel_effects :: "cancel_call \<Rightarrow> gtime \<Rightarrow> JobQueue \<Rightarrow> JobQueue" where
  "Cancel_effects c now q =
     addLog (cc_job c) now ''warn''
       (if cc_state c = JobStateRunning
        then ''Job cancellation requested; waiting for the handler to stop'' else ''Job canceled'')
       (cancel_func (cc_func c) (cancelResume (cc_id c) q))"

definition Cancel :: "string \<Rightarrow> gtime \<Rightarrow> JobQueue \<Rightarrow> cancel_error option \<times> JobQueue" where
  "Cancel jobID now q =
     (case Cancel_decide jobID now q of
        (Inl e, q') \<Rightarrow> (Some e, q')
      | (Inr c, q') \<Rightarrow> (None, Cancel_effects c now q'))"

definition stack_offer :: "string \<Rightarrow> Job \<Rightarrow> bool" where
  "stack_offer stackID j \<longleftrightarrow>
     TrimSpace (j_TargetID j) = stackID \<and>
     ((j_Type j = JobTypeProvision \<or> j_Type j = JobTypeDeploy) \<and>
        (j_State j = JobStatePending \<or> j_State j = JobStateWaiting \<or> j_State j = JobStateRunning) \<or>
      j_Type j = JobTypeDestroy \<and> (j_State j = JobStatePending \<or> j_State j = JobStateWaiting))"

fun cancel_all :: "string list \<Rightarrow> gtime \<Rightarrow> JobQueue \<Rightarrow> string list \<times> JobQueue" where
  "cancel_all [] now q = ([], q)"
| "cancel_all (i # is) now q =
     (case Cancel i now q of
        (None, q') \<Rightarrow> (let (cs, q'') = cancel_all is now q' in (i # cs, q''))
      | (Some _, q') \<Rightarrow> cancel_all is now q')"

definition CancelStackOffers :: "string \<Rightarrow> gtime \<Rightarrow> JobQueue \<Rightarrow> string list \<times> JobQueue" where
  "CancelStackOffers stackID0 now q =
     (let stackID = TrimSpace stackID0 in
      if stackID = [] then ([], q)
      else cancel_all (map (\<lambda>p. j_ID (q_heap q p)) (filter (\<lambda>p. stack_offer stackID (q_heap q p)) (job_pointers q))) now q)"

definition DetachFencedExecutionIfUnchanged ::
  "string \<Rightarrow> JobSnapshot \<Rightarrow> string \<Rightarrow> JobQueue \<Rightarrow> bool \<times> JobQueue" where
  "DetachFencedExecutionIfUnchanged jobID observed reason q =
     (case fmlookup (q_jobs q) jobID of
        None \<Rightarrow> (False, q)
      | Some p \<Rightarrow>
          (let j = q_heap q p in
           case detach_job observed reason j of
             None \<Rightarrow> (False, q)
           | Some j' \<Rightarrow>
               if j_State j = JobStateRunning
               then (True, cancel_func (j_cancelFunc j) (update_job p (\<lambda>_. j') q))
               else (False, update_job p (\<lambda>_. j') q)))"

definition DetachFencedExecution :: "string \<Rightarrow> string \<Rightarrow> JobQueue \<Rightarrow> bool \<times> JobQueue" where
  "DetachFencedExecution jobID reason q = DetachFencedExecutionIfUnchanged jobID (zero_snapshot jobID) reason q"

datatype handover_error =
    HandoverIncomplete
  | HandoverType string
  | HandoverState JobState
  | HandoverReason string
  | HandoverNoPersist
  | HandoverPersist gerr

text \<open>\<open>persist\<close> is the result of the durable callback, \<^term>\<open>None\<close> when the caller gave none.\<close>

definition SupersedeWaitingJob ::
  "string \<Rightarrow> string \<Rightarrow> string \<Rightarrow> jmap \<Rightarrow> gerr option option \<Rightarrow> gtime \<Rightarrow> JobQueue \<Rightarrow>
     (handover_error + WaitingHandoverResult) \<times> JobQueue" where
  "SupersedeWaitingJob jobID expectedType expectedReason0 receipt persist now q =
     (let expectedReason = TrimSpace expectedReason0 in
      if expectedType = [] \<or> expectedReason = [] then (Inl HandoverIncomplete, q)
      else case fmlookup (q_jobs q) jobID of
          None \<Rightarrow> (Inr WaitingHandoverAbsent, q)
        | Some p \<Rightarrow>
            let j = q_heap q p in
            if isTerminalJobState (j_State j) then (Inr WaitingHandoverTerminal, q)
            else if j_Type j \<noteq> expectedType then (Inl (HandoverType (j_Type j)), q)
            else if j_State j \<noteq> JobStateWaiting then (Inl (HandoverState (j_State j)), q)
            else if j_WaitReason j \<noteq> expectedReason then (Inl (HandoverReason (j_WaitReason j)), q)
            else case persist of
                None \<Rightarrow> (Inl HandoverNoPersist, q)
              | Some (Some e) \<Rightarrow> (Inl (HandoverPersist e), q)
              | Some None \<Rightarrow>
                  (Inr WaitingHandoverClaimed, cancelResume jobID (update_job p (supersede_job receipt now) q)))"

definition SupersedeWaitingEnrollment ::
  "string \<Rightarrow> jmap \<Rightarrow> gerr option option \<Rightarrow> gtime \<Rightarrow> JobQueue \<Rightarrow>
     (handover_error + WaitingHandoverResult) \<times> JobQueue" where
  "SupersedeWaitingEnrollment jobID receipt persist now q =
     SupersedeWaitingJob jobID JobTypeDeploy WaitReasonManagedRuntimeEnrollment receipt persist now q"

section \<open>Cleanup and shutdown\<close>

definition terminal_ids :: "JobQueue \<Rightarrow> string list" where
  "terminal_ids q = filter (\<lambda>i. isTerminalJobState (j_State (q_heap q (the (fmlookup (q_jobs q) i))))) (sorted_keys (q_jobs q))"

definition expired :: "gtime \<Rightarrow> JobQueue \<Rightarrow> string \<Rightarrow> bool" where
  "expired now q i =
     (case j_CompletedAt (q_heap q (the (fmlookup (q_jobs q) i))) of
        None \<Rightarrow> False | Some t \<Rightarrow> now - t > q_completedJobTTL q)"

definition job_age :: "JobQueue \<Rightarrow> string \<Rightarrow> gtime" where
  "job_age q i =
     (let j = q_heap q (the (fmlookup (q_jobs q) i))
      in case j_CompletedAt j of Some t \<Rightarrow> t | None \<Rightarrow> j_CreatedAt j)"

definition forget_job :: "string \<Rightarrow> JobQueue \<Rightarrow> JobQueue" where
  "forget_job i q = q\<lparr>q_jobs := fmdrop i (q_jobs q), q_defers := clearExecutionDefer i (q_defers q)\<rparr>"

definition drop_job :: "string \<Rightarrow> JobQueue \<Rightarrow> JobQueue" where
  "drop_job i q = q\<lparr>q_jobs := fmdrop i (q_jobs q)\<rparr>"

text \<open>
  \<^verbatim>\<open>sort.Slice\<close> is not stable and starts from an arbitrary map order, so the sorted list of ages is
  an argument: any permutation of the ages that is sorted.
\<close>

definition cleanupOldJobs :: "(string \<times> gtime) list \<Rightarrow> gtime \<Rightarrow> JobQueue \<Rightarrow> JobQueue option" where
  "cleanupOldJobs completed now q =
     (let toDelete = filter (expired now q) (terminal_ids q);
          completedCount = length (terminal_ids q);
          q1 = fold forget_job toDelete q
      in if int completedCount - int (length toDelete) > q_maxCompletedJobs q then
           (if mset completed = mset (map (\<lambda>i. (i, job_age q1 i)) (terminal_ids q1)) \<and> sorted (map snd completed)
            then Some (fold (\<lambda>(i, _). drop_job i) (take (nat (int (length completed) - q_maxCompletedJobs q)) completed) q1)
            else None)
         else Some q1)"

definition Start :: "JobQueue \<Rightarrow> JobQueue" where
  "Start q = q\<lparr>q_running := True\<rparr>"

definition stop_signal :: "JobQueue \<Rightarrow> JobQueue" where
  "stop_signal q = q\<lparr>q_running := False, q_done := True\<rparr>"

definition shutdown_visit :: "nat \<Rightarrow> JobQueue \<Rightarrow> JobQueue" where
  "shutdown_visit p q =
     (let j = q_heap q p; q1 = update_job p shutdown_job q
      in if j_State j = JobStateRunning then cancel_func (j_cancelFunc j) q1 else q1)"

definition cancelJobsForShutdown :: "JobQueue \<Rightarrow> JobQueue" where
  "cancelJobsForShutdown q = fold shutdown_visit (job_pointers q) q"

definition Stop :: "JobQueue \<Rightarrow> JobQueue" where
  "Stop q = cancelJobsForShutdown (cancelAllResumes (stop_signal q))"

section \<open>Workers\<close>

text \<open>
  A worker's program counter: the job it took from the channel and how far \<^verbatim>\<open>processJob\<close> got with it.
  \<open>tgt\<close> is the target entry the worker serialises on, \<^term>\<open>None\<close> for a job without target.
\<close>

type_synonym tgt = "(string \<times> nat) option"

datatype wpc =
    WOff
  | WIdle
  | WAcquire nat
  | WWaitToken nat string nat
  | WBegin nat tgt
  | WStart nat tgt nat
  | WClaim nat tgt jobExecutionAttempt ExecutionClaim
  | WCheck nat tgt jobExecutionAttempt
  | WRun nat tgt jobExecutionAttempt
  | WHandler nat tgt jobExecutionAttempt
  | WFinish nat tgt jobExecutionAttempt "gerr option"
  | WSettle nat tgt jobExecutionAttempt "gerr option"
  | WCancel nat tgt jobExecutionAttempt string
  | WSchedule nat tgt jobExecutionAttempt duration bool
  | WRecheck nat tgt jobExecutionAttempt nat
  | WRelease tgt
  | WUnref string nat

text \<open>
  What the outside decides in a step: the time, the error the called code returned, whether a
  \<^verbatim>\<open>select\<close> takes the ready cancellation case.
\<close>

record winput =
  wi_now :: gtime
  wi_err :: "gerr option"
  wi_stop :: bool

definition goto_after :: "nat \<Rightarrow> tgt \<Rightarrow> jobExecutionAttempt \<Rightarrow> JobQueue \<times> after \<Rightarrow> JobQueue \<times> wpc" where
  "goto_after p t att r =
     (case r of
        (q, AfterRelease) \<Rightarrow> (cancel_ctx (at_ctx att) q, WRelease t)
      | (q, AfterCancel reason) \<Rightarrow> (q, WCancel p t att reason)
      | (q, AfterSchedule delay recheck) \<Rightarrow> (q, WSchedule p t att delay recheck))"

definition worker_idle :: "winput \<Rightarrow> JobQueue \<Rightarrow> (JobQueue \<times> wpc) option" where
  "worker_idle i q =
     (if wi_stop i then (if q_parent q \<noteq> CtxLive \<or> q_done q then Some (q, WOff) else None)
      else case q_pending q of
          [] \<Rightarrow> None
        | p # ps \<Rightarrow> Some (q\<lparr>q_pending := ps\<rparr>, WAcquire p))"

definition acquireTargetExecution :: "nat \<Rightarrow> JobQueue \<Rightarrow> JobQueue \<times> wpc" where
  "acquireTargetExecution p q =
     (case target_key (q_heap q p) of
        None \<Rightarrow> (q, WBegin p None)
      | Some key \<Rightarrow> (let (e, q') = acquire_entry key q in (q', WWaitToken p key e)))"

definition await_token :: "winput \<Rightarrow> nat \<Rightarrow> string \<Rightarrow> nat \<Rightarrow> JobQueue \<Rightarrow> (JobQueue \<times> wpc) option" where
  "await_token i p key e q =
     (if wi_stop i then
        (if q_parent q \<noteq> CtxLive \<or> q_done q then Some (releaseTargetExecutionRef key e q, WIdle) else None)
      else if te_token (q_entries q e) then Some (set_token e False q, WBegin p (Some (key, e)))
      else None)"

definition begin_context :: "nat \<Rightarrow> tgt \<Rightarrow> JobQueue \<Rightarrow> JobQueue \<times> wpc" where
  "begin_context p t q =
     (let c = q_nextCtx q; q1 = q\<lparr>q_ctxs := (q_ctxs q)(c := CtxLive), q_nextCtx := Suc c\<rparr>
      in if ctx_Err q1 c \<noteq> CtxLive then (cancel_ctx c q1, WRelease t) else (q1, WStart p t c))"

definition begin_start :: "winput \<Rightarrow> nat \<Rightarrow> tgt \<Rightarrow> nat \<Rightarrow> JobQueue \<Rightarrow> JobQueue \<times> wpc" where
  "begin_start i p t c q =
     (case start_job (q_claimExecution q) c (wi_now i) (q_heap q p) of
        None \<Rightarrow> (cancel_ctx c q, WRelease t)
      | Some (att, claim, j) \<Rightarrow>
          (update_job p (\<lambda>_. j) q,
           if q_claimExecution q then WClaim p t att claim else WCheck p t att))"

definition begin_claim :: "winput \<Rightarrow> nat \<Rightarrow> tgt \<Rightarrow> jobExecutionAttempt \<Rightarrow> ExecutionClaim \<Rightarrow> JobQueue \<Rightarrow> JobQueue \<times> wpc" where
  "begin_claim i p t att claim q =
     (if ec_TenantID claim = [] then goto_after p t att (handleExecutionClaimError p att missing_tenant (wi_now i) q)
      else case wi_err i of
          Some claimErr \<Rightarrow> goto_after p t att (handleExecutionClaimError p att claimErr (wi_now i) q)
        | None \<Rightarrow> (update_job p claim_won q, WCheck p t att))"

definition begin_check :: "nat \<Rightarrow> tgt \<Rightarrow> jobExecutionAttempt \<Rightarrow> JobQueue \<Rightarrow> JobQueue \<times> wpc" where
  "begin_check p t att q =
     (let q1 = q\<lparr>q_defers := clearExecutionDefer (j_ID (q_heap q p)) (q_defers q)\<rparr> in
      case jobCancellation q (q_heap q p) (at_ctx att) of
        Some reason \<Rightarrow> (cancel_ctx (at_ctx att) q1, WCancel p t att reason)
      | None \<Rightarrow> (q1, WRun p t att))"

definition run_handler :: "winput \<Rightarrow> nat \<Rightarrow> tgt \<Rightarrow> jobExecutionAttempt \<Rightarrow> JobQueue \<Rightarrow> JobQueue \<times> wpc" where
  "run_handler i p t att q =
     (let jobType = j_Type (q_heap q p) in
      if \<not> getHandler jobType q
      then (cancel_ctx (at_ctx att) (failJob p (''no handler for job type: '' @ jobType) (wi_now i) q), WRelease t)
      else (update_job p (addLogUnlessRecent (wi_now i) ''info''
              (''Job started (attempt '' @ Itoa (at_attempts att) @ ''/'' @ Itoa (at_maxAttempts att) @ '')'')) q,
            WHandler p t att))"

definition finish_check :: "nat \<Rightarrow> tgt \<Rightarrow> jobExecutionAttempt \<Rightarrow> gerr option \<Rightarrow> JobQueue \<Rightarrow> JobQueue \<times> wpc" where
  "finish_check p t att handlerErr q =
     (case jobCancellation q (q_heap q p) (at_ctx att) of
        Some reason \<Rightarrow> (q, WCancel p t att reason)
      | None \<Rightarrow> (q, WSettle p t att handlerErr))"

definition release_target :: "tgt \<Rightarrow> JobQueue \<Rightarrow> JobQueue \<times> wpc" where
  "release_target t q = (case t of None \<Rightarrow> (q, WIdle) | Some (key, e) \<Rightarrow> (set_token e True q, WUnref key e))"

end
