(* ===== verification/Job_System.thy ===== *)
theory Job_System
  imports Job_Queue
begin

text \<open>
  The queue's goroutines as a step relation: workers running \<^verbatim>\<open>processJob\<close>, resume timers, callers of
  the queue, cleanup and shutdown.  A step is one section under a mutex, one channel operation, or
  one call of outside code; any thread may take the next step.  Where the code drops and retakes a
  job's mutex without reading anything another thread may have changed in a way that matters (a log
  line or an outcome recorded by the execution's owner next to its state change), the sections form
  one step.  \<^verbatim>\<open>Cancel\<close> is two steps, as is the end of an execution, because their interleaving matters.
\<close>

section \<open>Resume timers\<close>

datatype rpc =
    ROff
  | RStart nat duration
  | RSync nat duration nat
  | RSyncing nat duration nat JobSnapshot
  | RFenced nat JobSnapshot
  | RBackoff nat duration nat
  | RTimerSet nat duration
  | RTimer nat duration
  | RCheck nat
  | RSend nat
  | RClear nat

definition resume_remaining :: "duration \<Rightarrow> gtime option \<Rightarrow> gtime \<Rightarrow> duration" where
  "resume_remaining delay nextResumeAt now =
     (case nextResumeAt of None \<Rightarrow> delay | Some t \<Rightarrow> if t - now < 0 then 0 else t - now)"

text \<open>The loop of \<^verbatim>\<open>persistWaitingBeforeResume\<close>: one iteration's snapshot, sync result and fence.\<close>

definition persist_begin :: "nat \<Rightarrow> duration \<Rightarrow> JobQueue \<Rightarrow> rpc" where
  "persist_begin p d q =
     (let initial = Snapshot (q_heap q p) in
      if \<not> q_syncExecution q \<or> firstJobString (s_Payload initial) (s_Result initial) ''tenant_id'' = []
      then RTimerSet p d else RSync p d 1)"

definition persist_snapshot :: "nat \<Rightarrow> duration \<Rightarrow> nat \<Rightarrow> JobQueue \<Rightarrow> rpc" where
  "persist_snapshot p d n q =
     (let s = Snapshot (q_heap q p) in
      if s_State s \<noteq> JobStateWaiting \<or> s_PersistenceSuppressed s then RClear p else RSyncing p d n s)"

definition persist_result :: "gerr option \<Rightarrow> nat \<Rightarrow> duration \<Rightarrow> nat \<Rightarrow> JobSnapshot \<Rightarrow> JobQueue \<Rightarrow> rpc" where
  "persist_result err p d n s q =
     (case err of
        None \<Rightarrow> RTimerSet p d
      | Some e \<Rightarrow>
          if errors_Is e ErrExecutionSnapshotFenced
          then (if executionSnapshotFenceChanged s (Snapshot (q_heap q p)) then RSync p d (Suc n) else RFenced p s)
          else RBackoff p d n)"

definition persist_fence :: "nat \<Rightarrow> JobSnapshot \<Rightarrow> JobQueue \<Rightarrow> JobQueue" where
  "persist_fence p s q =
     update_job p (\<lambda>j. if executionSnapshotMatchesJobLocked s j then j\<lparr>j_suppressPersistence := True\<rparr> else j) q"

definition stop_ready :: "nat \<Rightarrow> JobQueue \<Rightarrow> bool" where
  "stop_ready s q \<longleftrightarrow> resume_done q s \<or> q_parent q \<noteq> CtxLive"

fun resume_step :: "winput \<Rightarrow> nat \<Rightarrow> JobQueue \<Rightarrow> rpc \<Rightarrow> (JobQueue \<times> rpc) option" where
  "resume_step i s q ROff = None"
| "resume_step i s q (RStart p d) = Some (q, persist_begin p d q)"
| "resume_step i s q (RSync p d n) = Some (q, persist_snapshot p d n q)"
| "resume_step i s q (RSyncing p d n snap) = Some (q, persist_result (wi_err i) p d n snap q)"
| "resume_step i s q (RFenced p snap) = Some (persist_fence p snap q, RClear p)"
| "resume_step i s q (RBackoff p d n) =
     (if wi_stop i then (if stop_ready s q then Some (q, RClear p) else None) else Some (q, RSync p d (Suc n)))"
| "resume_step i s q (RTimerSet p d) =
     Some (q, RTimer p (resume_remaining d (s_NextResumeAt (Snapshot (q_heap q p))) (wi_now i)))"
| "resume_step i s q (RTimer p d) =
     (if wi_stop i then (if stop_ready s q then Some (q, RClear p) else None) else Some (q, RCheck p))"
| "resume_step i s q (RCheck p) =
     Some (q, if j_State (q_heap q p) = JobStateWaiting then RSend p else RClear p)"
| "resume_step i s q (RSend p) =
     (if wi_stop i then (if stop_ready s q then Some (q, RClear p) else None)
      else if int (length (q_pending q)) < pending_cap then Some (q\<lparr>q_pending := q_pending q @ [p]\<rparr>, RClear p)
      else None)"
| "resume_step i s q (RClear p) = Some (clearResume (j_ID (q_heap q p)) s q, ROff)"

section \<open>The system\<close>

text \<open>
  \<open>c_cancels\<close> are the calls of \<^verbatim>\<open>Cancel\<close> that have decided and not yet returned, \<open>c_shutdown\<close> the jobs
  \<^verbatim>\<open>cancelJobsForShutdown\<close> has still to visit.  Two fields only serve the statements: \<open>g_granted\<close>, the
  claims the durable claimer granted, and \<open>g_place\<close>, who last got hold of a job.
\<close>

datatype place = Nowhere | InPending | AtWorker nat | AtResume nat

record qsys =
  queue :: JobQueue
  w_pc :: "nat \<Rightarrow> wpc"
  r_pc :: "nat \<Rightarrow> rpc"
  c_cancels :: "cancel_call list"
  c_shutdown :: "nat list"
  g_granted :: "ExecutionClaim list"
  g_place :: "nat \<Rightarrow> place"

definition set_worker :: "nat \<Rightarrow> JobQueue \<times> wpc \<Rightarrow> qsys \<Rightarrow> qsys" where
  "set_worker w r s = s\<lparr>queue := fst r, w_pc := (w_pc s)(w := snd r)\<rparr>"

definition set_place :: "nat \<Rightarrow> place \<Rightarrow> qsys \<Rightarrow> qsys" where
  "set_place p x s = s\<lparr>g_place := (g_place s)(p := x)\<rparr>"

definition schedule_step :: "nat \<Rightarrow> nat \<Rightarrow> tgt \<Rightarrow> jobExecutionAttempt \<Rightarrow> duration \<Rightarrow> bool \<Rightarrow> qsys \<Rightarrow> qsys" where
  "schedule_step w p t att d recheck s =
     (case scheduleResume (j_ID (q_heap (queue s) p)) (queue s) of
        (None, q) \<Rightarrow> set_worker w (cancel_ctx (at_ctx att) q, WRelease t) s
      | (Some n, q) \<Rightarrow>
          set_place p (AtResume n)
            (if recheck then (set_worker w (q, WRecheck p t att n) s)\<lparr>r_pc := (r_pc s)(n := RStart p d)\<rparr>
             else (set_worker w (cancel_ctx (at_ctx att) q, WRelease t) s)\<lparr>r_pc := (r_pc s)(n := RStart p d)\<rparr>))"

definition recheck_step :: "nat \<Rightarrow> nat \<Rightarrow> JobQueue \<Rightarrow> JobQueue" where
  "recheck_step p n q =
     (if j_State (q_heap q p) = JobStateWaiting then q else cancelResumeSchedule (j_ID (q_heap q p)) n q)"

fun worker_step :: "winput \<Rightarrow> nat \<Rightarrow> qsys \<Rightarrow> wpc \<Rightarrow> qsys option" where
  "worker_step i w s WOff = None"
| "worker_step i w s WIdle =
     (case worker_idle i (queue s) of
        None \<Rightarrow> None
      | Some (q, WAcquire p) \<Rightarrow> Some (set_place p (AtWorker w) (set_worker w (q, WAcquire p) s))
      | Some r \<Rightarrow> Some (set_worker w r s))"
| "worker_step i w s (WAcquire p) = Some (set_worker w (acquireTargetExecution p (queue s)) s)"
| "worker_step i w s (WWaitToken p key e) =
     map_option (\<lambda>r. set_worker w r s) (await_token i p key e (queue s))"
| "worker_step i w s (WBegin p t) = Some (set_worker w (begin_context p t (queue s)) s)"
| "worker_step i w s (WStart p t c) = Some (set_worker w (begin_start i p t c (queue s)) s)"
| "worker_step i w s (WClaim p t att claim) =
     Some ((set_worker w (begin_claim i p t att claim (queue s)) s)
       \<lparr>g_granted := (if ec_TenantID claim \<noteq> [] \<and> wi_err i = None then claim # g_granted s else g_granted s)\<rparr>)"
| "worker_step i w s (WCheck p t att) = Some (set_worker w (begin_check p t att (queue s)) s)"
| "worker_step i w s (WRun p t att) = Some (set_worker w (run_handler i p t att (queue s)) s)"
| "worker_step i w s (WHandler p t att) = Some (set_worker w (queue s, WFinish p t att (wi_err i)) s)"
| "worker_step i w s (WFinish p t att err) = Some (set_worker w (finish_check p t att err (queue s)) s)"
| "worker_step i w s (WSettle p t att err) =
     Some (set_worker w (goto_after p t att (settleJobExecution p err (wi_now i) (queue s))) s)"
| "worker_step i w s (WCancel p t att reason) =
     Some (set_worker w
       (cancel_ctx (at_ctx att) (cancelJobInternal p reason (wi_now i) (queue s)), WRelease t) s)"
| "worker_step i w s (WSchedule p t att d recheck) = Some (schedule_step w p t att d recheck s)"
| "worker_step i w s (WRecheck p t att n) =
     Some (set_worker w (cancel_ctx (at_ctx att) (recheck_step p n (queue s)), WRelease t) s)"
| "worker_step i w s (WRelease t) = Some (set_worker w (release_target t (queue s)) s)"
| "worker_step i w s (WUnref key e) = Some (set_worker w (releaseTargetExecutionRef key e (queue s), WIdle) s)"

definition resume_thread :: "winput \<Rightarrow> nat \<Rightarrow> qsys \<Rightarrow> qsys option" where
  "resume_thread i n s =
     (case resume_step i n (queue s) (r_pc s n) of
        None \<Rightarrow> None
      | Some (q, pc) \<Rightarrow>
          let s' = s\<lparr>queue := q, r_pc := (r_pc s)(n := pc)\<rparr>
          in Some (case r_pc s n of
               RSend p \<Rightarrow> if wi_stop i then s' else set_place p InPending s'
             | _ \<Rightarrow> s'))"

text \<open>What handlers and other callers do to a job through the methods of \<^verbatim>\<open>snapshot.go\<close>.\<close>

datatype edit =
    ESetStep string
  | EReplaceResult "jmap option"
  | EMutateResult "jmap \<Rightarrow> jmap"
  | EPrepareDeploy

fun apply_edit :: "edit \<Rightarrow> Job \<Rightarrow> Job" where
  "apply_edit (ESetStep x) j = setStep x j"
| "apply_edit (EReplaceResult r) j = replaceResult r j"
| "apply_edit (EMutateResult f) j = mutateResult f j"
| "apply_edit EPrepareDeploy j = prepareDeployPayload j"

datatype action =
    AWorker nat winput
  | AResume nat winput
  | AEnqueue Job gtime string
  | ACancel string gtime
  | ACancelEffects nat gtime
  | ASupersede string string string jmap "gerr option option" gtime
  | ADetach string JobSnapshot string
  | AEdit nat edit
  | AProgress string int string gtime
  | ACleanup "(string \<times> gtime) list" gtime
  | AStopSignal
  | ACloseResumes
  | AShutdownList
  | AShutdownVisit
  | AContextEnds ctx_err
  | AAfterFunc nat

definition enqueue_step :: "Job \<Rightarrow> gtime \<Rightarrow> string \<Rightarrow> qsys \<Rightarrow> qsys" where
  "enqueue_step job now newID s =
     (case Enqueue job now newID (queue s) of
        (Inl _, q) \<Rightarrow> s\<lparr>queue := q\<rparr>
      | (Inr p, q) \<Rightarrow> set_place p InPending (s\<lparr>queue := q\<rparr>))"

text \<open>A job a caller may enqueue: not yet admitted anywhere, with attempts left.\<close>

definition fresh_job :: "Job \<Rightarrow> bool" where
  "fresh_job j \<longleftrightarrow> j_CompletedAt j = None \<and> j_cancelFunc j = None \<and> \<not> j_executionClaimPending j \<and>
     \<not> j_suppressPersistence j \<and> 0 \<le> j_Attempts j \<and>
     j_Attempts j < (if j_MaxAttempts j = 0 then 3 else j_MaxAttempts j)"

fun exec :: "action \<Rightarrow> qsys \<Rightarrow> qsys option" where
  "exec (AWorker w i) s = (if w < q_workers (queue s) then worker_step i w s (w_pc s w) else None)"
| "exec (AResume n i) s = resume_thread i n s"
| "exec (AEnqueue job now newID) s = (if fresh_job job then Some (enqueue_step job now newID s) else None)"
| "exec (ACancel jobID now) s =
     (case Cancel_decide jobID now (queue s) of
        (Inl _, _) \<Rightarrow> None
      | (Inr c, q) \<Rightarrow> Some (s\<lparr>queue := q, c_cancels := c_cancels s @ [c]\<rparr>))"
| "exec (ACancelEffects k now) s =
     (if k < length (c_cancels s)
      then Some (s\<lparr>queue := Cancel_effects (c_cancels s ! k) now (queue s),
                   c_cancels := take k (c_cancels s) @ drop (Suc k) (c_cancels s)\<rparr>)
      else None)"
| "exec (ASupersede i t r receipt persist now) s =
     Some (s\<lparr>queue := snd (SupersedeWaitingJob i t r receipt persist now (queue s))\<rparr>)"
| "exec (ADetach i observed reason) s =
     Some (s\<lparr>queue := snd (DetachFencedExecutionIfUnchanged i observed reason (queue s))\<rparr>)"
| "exec (AEdit p e) s =
     (if p < q_alloc (queue s) then Some (s\<lparr>queue := update_job p (apply_edit e) (queue s)\<rparr>) else None)"
| "exec (AProgress i n m now) s = Some (s\<lparr>queue := UpdateProgress i n m now (queue s)\<rparr>)"
| "exec (ACleanup order now) s =
     map_option (\<lambda>q. s\<lparr>queue := q\<rparr>) (cleanupOldJobs order now (queue s))"
| "exec AStopSignal s = Some (s\<lparr>queue := stop_signal (queue s)\<rparr>)"
| "exec ACloseResumes s = (if q_done (queue s) then Some (s\<lparr>queue := cancelAllResumes (queue s)\<rparr>) else None)"
| "exec AShutdownList s =
     (if q_resumesClosed (queue s) then Some (s\<lparr>c_shutdown := job_pointers (queue s)\<rparr>) else None)"
| "exec AShutdownVisit s =
     (case c_shutdown s of [] \<Rightarrow> None
      | p # ps \<Rightarrow> Some (s\<lparr>queue := shutdown_visit p (queue s), c_shutdown := ps\<rparr>))"
| "exec (AContextEnds e) s =
     (if q_parent (queue s) = CtxLive then Some (s\<lparr>queue := (queue s)\<lparr>q_parent := e\<rparr>\<rparr>) else None)"
| "exec (AAfterFunc c) s =
     (if q_done (queue s) then Some (s\<lparr>queue := cancel_ctx c (queue s)\<rparr>) else None)"

fun run :: "action list \<Rightarrow> qsys \<Rightarrow> qsys option" where
  "run [] s = Some s"
| "run (a # as) s = (case exec a s of None \<Rightarrow> None | Some s' \<Rightarrow> run as s')"

definition qstep :: "qsys \<Rightarrow> qsys \<Rightarrow> bool" where
  "qstep s t \<longleftrightarrow> (\<exists>a. exec a s = Some t)"

text \<open>A started queue: claimer, syncer and handlers are configured before \<^verbatim>\<open>Start\<close>.\<close>

definition start_system :: "nat \<Rightarrow> bool \<Rightarrow> bool \<Rightarrow> string list \<Rightarrow> qsys" where
  "start_system workers claimer syncer handlers =
     \<lparr>queue = Start (fold RegisterHandler handlers
        (SetExecutionSnapshotSyncer syncer (SetExecutionClaimer claimer (NewQueue workers)))),
      w_pc = (\<lambda>w. if w < workers then WIdle else WOff), r_pc = (\<lambda>_. ROff), c_cancels = [], c_shutdown = [],
      g_granted = [], g_place = (\<lambda>_. Nowhere)\<rparr>"

definition qinit :: "qsys \<Rightarrow> bool" where
  "qinit s \<longleftrightarrow> (\<exists>n c y hs. s = start_system n c y hs)"

end
