(* ===== verification/Job_Invariant.thy ===== *)
theory Job_Invariant
  imports Job_System
begin

text \<open>
  What the sections of the queue keep: an invariant of a single job (\<open>job_ok\<close>), the relation
  between a job before and after any section (\<open>keeps\<close>), and the parts of the queue a section on one
  job leaves alone (\<open>frame\<close>).
\<close>

section \<open>One job\<close>

definition job_ok :: "Job \<Rightarrow> bool" where
  "job_ok j \<longleftrightarrow>
     j_State j \<noteq> JobStateZero \<and> 0 \<le> j_Attempts j \<and>
     (j_State j = JobStateWaiting \<longleftrightarrow> j_WaitReason j \<noteq> []) \<and>
     (j_State j = JobStateWaiting \<longleftrightarrow> j_NextResumeAt j \<noteq> None) \<and>
     (isTerminalJobState (j_State j) \<longleftrightarrow> j_CompletedAt j \<noteq> None) \<and>
     (j_State j = JobStateRunning \<longleftrightarrow> j_cancelFunc j \<noteq> None) \<and>
     (j_State j = JobStatePending \<or> j_State j = JobStateWaiting \<longrightarrow> j_Attempts j < j_MaxAttempts j) \<and>
     (j_State j = JobStateRunning \<longrightarrow> 1 \<le> j_Attempts j \<and> j_Attempts j \<le> j_MaxAttempts j \<and> j_StartedAt j \<noteq> None)"

definition keeps :: "Job \<Rightarrow> Job \<Rightarrow> bool" where
  "keeps j j' \<longleftrightarrow>
     j_ID j' = j_ID j \<and> j_TargetType j' = j_TargetType j \<and> j_TargetID j' = j_TargetID j \<and>
     j_MaxAttempts j' = j_MaxAttempts j \<and>
     (j_suppressPersistence j \<longrightarrow> j_suppressPersistence j') \<and>
     (isTerminalJobState (j_State j) \<longrightarrow> j_State j' = j_State j) \<and>
     (j_suppressPersistence j \<and> j_State j \<noteq> JobStateRunning \<longrightarrow> j_State j' \<noteq> JobStateRunning)"

text \<open>A change that may happen to a job whoever executes it.\<close>

definition outside :: "Job \<Rightarrow> Job \<Rightarrow> bool" where
  "outside j j' \<longleftrightarrow>
     (j_State j' = j_State j \<or>
        (j_State j = JobStatePending \<or> j_State j = JobStateWaiting) \<and> j_State j' = JobStateCancelled) \<and>
     (j_State j = JobStateRunning \<longrightarrow>
        j_StartedAt j' = j_StartedAt j \<and> (j_cancellationRequested j \<longrightarrow> j_cancellationRequested j'))"

lemma keeps_refl [simp]: "keeps j j" by (simp add: keeps_def)
lemma outside_refl [simp]: "outside j j" by (simp add: outside_def)

lemma keeps_trans: "keeps a b \<Longrightarrow> keeps b c \<Longrightarrow> keeps a c"
  by (auto simp: keeps_def)

lemma job_ok_flags [simp]:
  "job_ok (j\<lparr>j_executionClaimPending := b\<rparr>) = job_ok j" "job_ok (j\<lparr>j_suppressPersistence := b\<rparr>) = job_ok j"
  unfolding job_ok_def by simp_all

lemma keeps_flags:
  "keeps a j \<Longrightarrow> keeps a (j\<lparr>j_executionClaimPending := b\<rparr>)" "keeps a j \<Longrightarrow> keeps a (j\<lparr>j_suppressPersistence := True\<rparr>)"
  unfolding keeps_def by simp_all

lemmas job_section_defs = append_log_def addLogUnlessRecent_def setStep_def replaceResult_def mutateResult_def
  prepareDeployPayload_def mergeJobResultValues_def progress_job_def Let_def

text \<open>Recording an outcome only touches the result.\<close>

lemma recordJobOutcome_cases: obtains r where "recordJobOutcome d now j = j\<lparr>j_Result := r\<rparr>"
proof (cases "setJobOutcome d now j")
  case (Inl e)
  then have "recordJobOutcome d now j = j\<lparr>j_Result := j_Result j\<rparr>" by (simp add: recordJobOutcome_def)
  then show ?thesis using that by blast
next
  case (Inr j')
  then have "recordJobOutcome d now j = j'" by (simp add: recordJobOutcome_def)
  moreover have "\<exists>r. j' = j\<lparr>j_Result := r\<rparr>" using Inr by (auto simp: setJobOutcome_def split: sum.splits)
  ultimately show ?thesis using that by blast
qed

lemma recordJobOutcome_sel [simp]:
  "j_ID (recordJobOutcome d now j) = j_ID j" "j_Type (recordJobOutcome d now j) = j_Type j"
  "j_TargetType (recordJobOutcome d now j) = j_TargetType j" "j_TargetID (recordJobOutcome d now j) = j_TargetID j"
  "j_State (recordJobOutcome d now j) = j_State j" "j_Attempts (recordJobOutcome d now j) = j_Attempts j"
  "j_MaxAttempts (recordJobOutcome d now j) = j_MaxAttempts j"
  "j_WaitReason (recordJobOutcome d now j) = j_WaitReason j"
  "j_NextResumeAt (recordJobOutcome d now j) = j_NextResumeAt j"
  "j_CompletedAt (recordJobOutcome d now j) = j_CompletedAt j"
  "j_StartedAt (recordJobOutcome d now j) = j_StartedAt j"
  "j_cancelFunc (recordJobOutcome d now j) = j_cancelFunc j" "j_Logs (recordJobOutcome d now j) = j_Logs j"
  "j_suppressPersistence (recordJobOutcome d now j) = j_suppressPersistence j"
  "j_cancellationRequested (recordJobOutcome d now j) = j_cancellationRequested j"
  "j_cancellationReason (recordJobOutcome d now j) = j_cancellationReason j"
  "j_Step (recordJobOutcome d now j) = j_Step j"
  by (rule recordJobOutcome_cases [of d now j]; simp)+

named_theorems sections
lemmas [sections] = terminate_job_def complete_job_def fail_job_def fail_job_details_def cancel_job_internal_def
  retry_job_def defer_claim_def wait_job_def cancel_job_def shutdown_job_def detach_job_def supersede_job_def
  claim_won_def restoreUnclaimedExecutionLocked_def append_log_def addLogUnlessRecent_def setStep_def
  replaceResult_def mutateResult_def prepareDeployPayload_def mergeJobResultValues_def progress_job_def

lemma terminal_simps [simp]:
  "isTerminalJobState JobStateCompleted" "isTerminalJobState JobStateFailed" "isTerminalJobState JobStateCancelled"
  "\<not> isTerminalJobState JobStateRunning" "\<not> isTerminalJobState JobStateWaiting"
  "\<not> isTerminalJobState JobStatePending" "\<not> isTerminalJobState JobStateZero"
  by (simp_all add: isTerminalJobState_def)

lemma nonterminal_cases:
  "\<not> isTerminalJobState st \<Longrightarrow> st = JobStateZero \<or> st = JobStatePending \<or> st = JobStateWaiting \<or> st = JobStateRunning"
  by (cases st) simp_all

lemma wait_reasons_nonempty [simp]:
  "WaitReasonStackExecution \<noteq> []" "WaitReasonNodeMaintenance \<noteq> []" "WaitReasonRetryBackoff \<noteq> []"
  "WaitReasonExecutionClaim \<noteq> []"
  by (simp_all add: wait_reason_defs)

subsection \<open>Sections of the execution's owner\<close>

lemma cancel_job_internal_inv:
  assumes "job_ok j"
  shows "job_ok (cancel_job_internal r now j)" "keeps j (cancel_job_internal r now j)"
    "isTerminalJobState (j_State (cancel_job_internal r now j))"
  using assms by (auto simp: job_ok_def keeps_def sections)

lemma fail_job_inv:
  assumes "job_ok j"
  shows "job_ok (fail_job m now j)" "keeps j (fail_job m now j)" "isTerminalJobState (j_State (fail_job m now j))"
  using assms by (auto simp: job_ok_def keeps_def sections)

lemma fail_job_details_inv:
  assumes "job_ok j"
  shows "job_ok (fail_job_details m d now j)" "keeps j (fail_job_details m d now j)"
    "isTerminalJobState (j_State (fail_job_details m d now j))"
  using assms by (auto simp: job_ok_def keeps_def sections)

lemma complete_job_inv:
  assumes "job_ok j" "complete_job now j = Some j'"
  shows "job_ok j'" "keeps j j'" "j_State j' = JobStateCompleted"
  using assms by (auto simp: job_ok_def keeps_def sections split: if_splits)

lemma retry_job_inv:
  assumes "job_ok j" "retry_job t c j = Some j'" "j_Attempts j < j_MaxAttempts j"
  shows "job_ok j'" "keeps j j'" "j_State j' = JobStateWaiting"
  using assms by (auto simp: job_ok_def keeps_def sections split: if_splits)

lemma wait_job_inv:
  assumes "job_ok j" "wait_job r m t now j = Some j'" "r \<noteq> []"
  shows "job_ok j'" "keeps j j'" "j_State j' = JobStateWaiting"
  using assms by (auto simp: job_ok_def keeps_def sections Let_def split: if_splits)

lemma defer_claim_inv:
  assumes "job_ok j" "j_State j = JobStateRunning" "r \<noteq> []"
  shows "job_ok (defer_claim ps r m t j)" "keeps j (defer_claim ps r m t j)"
    "j_State (defer_claim ps r m t j) = JobStateWaiting"
  using assms by (auto simp: job_ok_def keeps_def sections)

text \<open>The attempt remembers a state the job may return to.\<close>

definition att_ok :: "jobExecutionAttempt \<Rightarrow> Job \<Rightarrow> bool" where
  "att_ok att j \<longleftrightarrow>
     (at_previousState att = JobStatePending \<or> at_previousState att = JobStateWaiting) \<and>
     (at_previousState att = JobStateWaiting \<longleftrightarrow> at_previousWaitReason att \<noteq> []) \<and>
     (at_previousState att = JobStateWaiting \<longleftrightarrow> at_previousNextResumeAt att \<noteq> None) \<and>
     0 \<le> at_previousAttempts att \<and> at_previousAttempts att < j_MaxAttempts j"

lemma start_job_SomeD:
  assumes "start_job c ctx now j = Some (att, claim, j')"
  shows "\<not> j_suppressPersistence j" "j_State j = JobStatePending \<or> j_State j = JobStateWaiting"
    "j' = j\<lparr>j_cancelFunc := Some ctx, j_cancellationRequested := False, j_cancellationReason := [],
       j_State := JobStateRunning, j_WaitReason := [], j_NextResumeAt := None,
       j_StartedAt := Some (now - now mod 1000), j_Attempts := j_Attempts j + 1, j_executionClaimPending := c\<rparr>"
    "at_ctx att = ctx" "at_previousState att = j_State j" "at_previousWaitReason att = j_WaitReason j"
    "at_previousNextResumeAt att = j_NextResumeAt j" "at_previousAttempts att = j_Attempts j"
    "at_previousStartedAt att = j_StartedAt j" "at_attempts att = j_Attempts j + 1"
    "at_maxAttempts att = j_MaxAttempts j"
    "ec_JobID claim = j_ID j" "ec_StartedAt claim = now - now mod 1000"
    "ec_TenantID claim = firstJobString (j_Payload j) (j_Result j) ''tenant_id''"
  using assms by (simp_all add: start_job_def Let_def split: if_split_asm) auto

lemma start_job_inv:
  assumes ok: "job_ok j" and st: "start_job c ctx now j = Some (att, claim, j')"
  shows "job_ok j'" "keeps j j'" "j_State j' = JobStateRunning" "att_ok att j'" "j_cancelFunc j' = Some ctx"
    "ec_JobID claim = j_ID j'" "j_StartedAt j' = Some (ec_StartedAt claim)"
proof -
  note d = start_job_SomeD [OF st]
  have n: "\<not> isTerminalJobState (j_State j)" using d(2) by auto
  show "job_ok j'" using ok d(2) n unfolding d(3) job_ok_def by auto
  show "keeps j j'" using n d(1) unfolding d(3) keeps_def by simp
  show "att_ok att j'" using ok d(2) unfolding att_ok_def d(5-8) unfolding d(3) job_ok_def by auto
  show "j_State j' = JobStateRunning" "j_cancelFunc j' = Some ctx" "ec_JobID claim = j_ID j'"
    "j_StartedAt j' = Some (ec_StartedAt claim)" unfolding d(12,13) by (simp_all add: d(3))
qed

lemma restore_inv:
  assumes "job_ok j" "j_State j = JobStateRunning" "att_ok att j"
  shows "job_ok (restoreUnclaimedExecutionLocked att j)" "keeps j (restoreUnclaimedExecutionLocked att j)"
    "j_State (restoreUnclaimedExecutionLocked att j) \<noteq> JobStateRunning"
  using assms by (auto simp: job_ok_def keeps_def att_ok_def sections)

subsection \<open>Sections of others\<close>

lemma cancel_job_inv:
  assumes "job_ok j" "cancel_job now j = Some j'"
  shows "job_ok j'" "keeps j j'" "outside j j'"
  using assms by (cases "j_State j"; auto simp: job_ok_def keeps_def outside_def sections)+

lemma shutdown_job_inv:
  assumes "job_ok j"
  shows "job_ok (shutdown_job j)" "keeps j (shutdown_job j)" "outside j (shutdown_job j)"
  using assms by (cases "j_State j"; simp add: job_ok_def keeps_def outside_def sections)+

lemma detach_job_inv:
  assumes "job_ok j" "detach_job ob r j = Some j'"
  shows "job_ok j'" "keeps j j'" "outside j j'"
  using assms by (cases "j_State j"; auto simp: job_ok_def keeps_def outside_def sections Let_def split: if_splits)+

lemma supersede_job_inv:
  assumes "job_ok j" "j_State j = JobStateWaiting"
  shows "job_ok (supersede_job receipt now j)" "keeps j (supersede_job receipt now j)"
    "outside j (supersede_job receipt now j)"
  using assms by (auto simp: job_ok_def keeps_def outside_def sections)

lemma append_log_inv:
  assumes "job_ok j"
  shows "job_ok (append_log now l m j)" "keeps j (append_log now l m j)" "outside j (append_log now l m j)"
  using assms by (auto simp: job_ok_def keeps_def outside_def sections)

lemma addLogUnlessRecent_inv:
  assumes "job_ok j"
  shows "job_ok (addLogUnlessRecent now l m j)" "keeps j (addLogUnlessRecent now l m j)"
    "outside j (addLogUnlessRecent now l m j)"
  using append_log_inv [OF assms] assms by (auto simp: addLogUnlessRecent_def)

lemma progress_job_inv:
  assumes "job_ok j"
  shows "job_ok (progress_job n m j)" "keeps j (progress_job n m j)" "outside j (progress_job n m j)"
  using assms by (auto simp: job_ok_def keeps_def outside_def sections Let_def)

lemma apply_edit_inv:
  assumes "job_ok j"
  shows "job_ok (apply_edit e j)" "keeps j (apply_edit e j)" "outside j (apply_edit e j)"
  using assms by (cases e; auto simp: job_ok_def keeps_def outside_def sections Let_def)+

lemma enqueue_job_ok: "fresh_job j \<Longrightarrow> job_ok (enqueue_job now i j)"
  by (auto simp: fresh_job_def enqueue_job_def job_ok_def)

section \<open>Frames\<close>

definition frame :: "nat \<Rightarrow> JobQueue \<Rightarrow> JobQueue \<Rightarrow> bool" where
  "frame p q q' \<longleftrightarrow>
     (\<forall>x. x \<noteq> p \<longrightarrow> q_heap q' x = q_heap q x) \<and> q_alloc q' = q_alloc q \<and> q_jobs q' = q_jobs q \<and>
     q_pending q' = q_pending q \<and> q_handlers q' = q_handlers q \<and> q_workers q' = q_workers q \<and>
     q_done q' = q_done q \<and> q_parent q' = q_parent q \<and> q_nextResume q' = q_nextResume q \<and>
     q_claimExecution q' = q_claimExecution q \<and> q_targets q' = q_targets q \<and> q_entries q' = q_entries q \<and>
     q_nextEntry q' = q_nextEntry q"

lemma frame_refl [simp]: "frame p q q" by (simp add: frame_def)

lemma frame_trans: "frame p q r \<Longrightarrow> frame p r t \<Longrightarrow> frame p q t"
  by (simp add: frame_def)

lemma heap_update_job [simp]:
  "q_heap (update_job p f q) = (q_heap q)(p := f (q_heap q p))"
  by (simp add: update_job_def)

lemma heap_cancel_ctx [simp]: "q_heap (cancel_ctx c q) = q_heap q"
  by (simp add: cancel_ctx_def)

lemma heap_cancel_func [simp]: "q_heap (cancel_func c q) = q_heap q"
  by (cases c) (simp_all add: cancel_func_def)

lemma heap_cancelResume [simp]: "q_heap (cancelResume i q) = q_heap q"
  by (simp add: cancelResume_def cancel_schedule_def split: option.split)

lemma frame_update_job [simp]: "frame p q (update_job p f q)"
  by (simp add: frame_def update_job_def)

lemma frame_cancel_ctx [simp]: "frame p q (cancel_ctx c q)"
  by (simp add: frame_def cancel_ctx_def)

lemma frame_cancel_func [simp]: "frame p q (cancel_func c q)"
  by (cases c) (simp_all add: cancel_func_def)

lemma frame_cancelResume [simp]: "frame p q (cancelResume i q)"
  by (simp add: frame_def cancelResume_def cancel_schedule_def split: option.split)

lemma frame_defers [simp]: "frame p q (q\<lparr>q_defers := d\<rparr>)" "frame p q (q\<lparr>q_reports := r\<rparr>)"
  by (simp_all add: frame_def)

lemma frame_addLog [simp]: "frame p q (addLog p now l m q)"
  by (simp add: addLog_def)

text \<open>One section of a job's owner: the frame, and what becomes of the job.\<close>

definition owner_section :: "nat \<Rightarrow> JobQueue \<Rightarrow> JobQueue \<Rightarrow> bool" where
  "owner_section p q q' \<longleftrightarrow> frame p q q' \<and> job_ok (q_heap q' p) \<and> keeps (q_heap q p) (q_heap q' p)"

lemma owner_sectionI:
  "frame p q q' \<Longrightarrow> job_ok (q_heap q' p) \<Longrightarrow> keeps (q_heap q p) (q_heap q' p) \<Longrightarrow> owner_section p q q'"
  by (simp add: owner_section_def)

lemma owner_section_trans: "owner_section p q r \<Longrightarrow> owner_section p r t \<Longrightarrow> owner_section p q t"
  using frame_trans keeps_trans unfolding owner_section_def by blast

lemma cancelJobInternal_inv:
  assumes "job_ok (q_heap q p)"
  shows "owner_section p q (cancelJobInternal p r now q)"
    "isTerminalJobState (j_State (q_heap (cancelJobInternal p r now q) p))"
  using cancel_job_internal_inv [OF assms] frame_trans [OF frame_cancelResume frame_update_job]
  by (simp_all add: owner_section_def cancelJobInternal_def)

lemma failJob_inv:
  assumes "job_ok (q_heap q p)"
  shows "owner_section p q (failJob p m now q)" "isTerminalJobState (j_State (q_heap (failJob p m now q) p))"
  using fail_job_inv [OF assms] frame_trans [OF frame_cancelResume frame_update_job]
  by (simp_all add: owner_section_def failJob_def)

lemma failJobWithDetails_inv:
  assumes "job_ok (q_heap q p)"
  shows "owner_section p q (failJobWithDetails p m d now q)"
    "isTerminalJobState (j_State (q_heap (failJobWithDetails p m d now q) p))"
  using fail_job_details_inv [OF assms] frame_trans [OF frame_cancelResume frame_update_job]
  by (simp_all add: owner_section_def failJobWithDetails_def)

lemma record_inv:
  assumes "job_ok j"
  shows "job_ok (recordJobOutcome d now j)" "keeps j (recordJobOutcome d now j)"
  using assms unfolding job_ok_def keeps_def recordJobOutcome_sel by blast+

lemma record_section:
  assumes "job_ok (q_heap q p)"
  shows "owner_section p q (update_job p (recordJobOutcome d now) q)"
  using record_inv [OF assms] by (simp add: owner_section_def)

lemma completeJob_inv:
  assumes ok: "job_ok (q_heap q p)" and run: "j_State (q_heap q p) = JobStateRunning"
  shows "owner_section p q (completeJob p now q)" "j_State (q_heap (completeJob p now q) p) = JobStateCompleted"
proof -
  obtain j where j: "complete_job now (q_heap q p) = Some j" using run by (simp add: complete_job_def)
  note c = complete_job_inv [OF ok j]
  define j1 where "j1 = (if jobCompletionOutcomeIsActionable j then j else recordJobOutcome (jobAvailableOutcome j) now j)"
  have j1: "job_ok j1" "keeps j j1" "j_State j1 = JobStateCompleted"
    using record_inv [OF c(1)] c by (simp_all add: j1_def)
  have eq: "completeJob p now q = update_job p (\<lambda>_. append_log now ''info'' ''Job completed successfully'' j1) q"
    by (simp add: completeJob_def j j1_def)
  show "owner_section p q (completeJob p now q)"
    unfolding eq owner_section_def
    using append_log_inv [OF j1(1)] keeps_trans [OF c(2)] keeps_trans [OF j1(2)] by simp
  show "j_State (q_heap (completeJob p now q) p) = JobStateCompleted"
    unfolding eq by (simp add: append_log_def j1(3))
qed

text \<open>What an owner's section leaves when the execution is over.\<close>

definition settled :: "nat \<Rightarrow> JobQueue \<Rightarrow> JobQueue \<times> after \<Rightarrow> bool" where
  "settled p q r \<longleftrightarrow> owner_section p q (fst r) \<and>
     (case snd r of
        AfterRelease \<Rightarrow> isTerminalJobState (j_State (q_heap (fst r) p))
      | AfterSchedule d b \<Rightarrow> j_State (q_heap (fst r) p) = JobStateWaiting
      | AfterCancel _ \<Rightarrow> False)"

lemma waitJob_settled:
  assumes ok: "job_ok (q_heap q p)" and run: "j_State (q_heap q p) = JobStateRunning"
  shows "settled p q (waitJob p we now q)"
proof (cases we)
  case (fields reason msg resumeAfter cause)
  define delay where "delay = (if resumeAfter \<le> 0 then defaultJobWaitResumeDelay else resumeAfter)"
  define r where "r = (if reason = [] then ''waiting_dependency'' else reason)"
  define m where "m = Error_text (JobWaitError reason msg resumeAfter cause)"
  obtain j where j: "wait_job r m (now + delay) now (q_heap q p) = Some j"
    using run by (simp add: wait_job_def Let_def)
  have eq: "waitJob p we now q = (update_job p (\<lambda>_. j) q, AfterSchedule delay True)"
    using j unfolding delay_def r_def m_def fields by (simp add: waitJob_def Let_def)
  have "r \<noteq> []" by (simp add: r_def)
  from wait_job_inv [OF ok j this] show ?thesis by (simp add: eq settled_def owner_section_def)
qed

lemma deferJobRetry_settled:
  assumes ok: "job_ok (q_heap q p)" and run: "j_State (q_heap q p) = JobStateRunning"
    and att: "j_Attempts (q_heap q p) < j_MaxAttempts (q_heap q p)"
  shows "settled p q (deferJobRetry p err cat n now q)"
proof -
  define delay where "delay = CalculateDelay DefaultRetryPolicy n"
  obtain msg where eq0: "deferJobRetry p err cat n now q =
      (let q1 = addLog p now ''warn'' msg q in
       case retry_job (now + delay) cat (q_heap q1 p) of None \<Rightarrow> (q1, AfterRelease)
       | Some j \<Rightarrow> (update_job p (\<lambda>_. j) q1, AfterSchedule delay False))"
    unfolding deferJobRetry_def delay_def Let_def by blast
  define j0 where "j0 = append_log now ''warn'' msg (q_heap q p)"
  note l = append_log_inv [OF ok, of now "''warn''" msg, folded j0_def]
  have j0: "j_State j0 = JobStateRunning" "j_Attempts j0 < j_MaxAttempts j0"
    using run att by (simp_all add: j0_def append_log_def)
  obtain j where j: "retry_job (now + delay) cat j0 = Some j" using j0 by (simp add: retry_job_def)
  have eq: "deferJobRetry p err cat n now q = (update_job p (\<lambda>_. j) (addLog p now ''warn'' msg q), AfterSchedule delay False)"
    unfolding eq0 Let_def using j by (simp add: addLog_def j0_def)
  note r = retry_job_inv [OF l(1) j j0(2)]
  show ?thesis
    using r keeps_trans [OF l(2) r(2)] frame_trans [OF frame_addLog frame_update_job]
    by (simp add: eq settled_def owner_section_def)
qed

lemma settled_after:
  assumes "owner_section p q q1" "settled p q1 r"
  shows "settled p q r"
  using assms owner_section_trans unfolding settled_def by blast

lemma settled_failJob: "job_ok (q_heap q p) \<Longrightarrow> settled p q (failJob p m now q, AfterRelease)"
  using failJob_inv by (simp add: settled_def)

lemma handleJobExecutionError_settled:
  assumes ok: "job_ok (q_heap q p)" and run: "j_State (q_heap q p) = JobStateRunning"
  shows "settled p q (handleJobExecutionError p err now q)"
proof -
  note rec = record_section [OF ok]
  consider (wait) reason msg resumeAfter cause where "asJobWaitError err = Some (reason, msg, resumeAfter, cause)"
    | (prov) step message details cause where "asJobWaitError err = None"
        "asJobError err = None" "asProvisionError err = Some (ProvisionError step message details cause)"
    | (kind) "asJobWaitError err = None"
        "\<nexists>step message details cause. asJobError err = None \<and> asProvisionError err = Some (ProvisionError step message details cause)"
    by (cases "asJobWaitError err") (blast, metis prod_cases4)
  then show ?thesis
  proof cases
    case wait
    then obtain d q1 where q1: "q1 = update_job p (recordJobOutcome d now) q"
      and eq: "handleJobExecutionError p err now q = waitJob p (reason, msg, resumeAfter, cause) now q1"
      by (simp add: handleJobExecutionError_def Let_def)
    have "job_ok (q_heap q1 p)" "j_State (q_heap q1 p) = JobStateRunning"
      using rec record_inv(1) [OF ok] run by (simp_all add: q1)
    from settled_after [OF _ waitJob_settled [OF this]] show ?thesis using rec by (simp add: eq q1)
  next
    case prov
    define j1 where "j1 = (q_heap q p)\<lparr>j_Step := step\<rparr>"
    have j1: "job_ok j1" "keeps (q_heap q p) j1"
      using apply_edit_inv [OF ok, of "ESetStep step"] by (simp_all add: j1_def setStep_def)
    define q1 where "q1 = update_job p (\<lambda>j. if j_State j = JobStateRunning then j\<lparr>j_Step := step\<rparr> else j) q"
    have q1: "q_heap q1 p = j1" using run by (simp add: q1_def j1_def)
    have s1: "owner_section p q q1" using j1 q1 by (auto simp: owner_section_def q1_def)
    obtain d where eq: "handleJobExecutionError p err now q =
        (failJobWithDetails p message details now (update_job p (recordJobOutcome d now) q1), AfterRelease)"
      using prov by (simp add: handleJobExecutionError_def Let_def flip: q1_def)
    have ok1: "job_ok (q_heap q1 p)" using j1 q1 by simp
    have "job_ok (q_heap (update_job p (recordJobOutcome d now) q1) p)" using record_inv(1) [OF ok1] by simp
    from failJobWithDetails_inv [OF this] show ?thesis
      using owner_section_trans [OF s1 owner_section_trans [OF record_section [OF ok1, of d now]]]
      by (simp add: settled_def eq)
  next
    case kind
    define j where "j = q_heap q p"
    have eq: "handleJobExecutionError p err now q =
       (if IsRetryable (Some err) \<and> j_Attempts j < j_MaxAttempts j
        then deferJobRetry p err (ClassifyError (Some err)) (j_Attempts j) now
               (update_job p (recordJobOutcome (jobPendingOutcome j WaitReasonRetryBackoff
                  [(''error_category'', AStr (ErrorCategory_String (ClassifyError (Some err)))),
                   (''attempt'', AInt (j_Attempts j))]) now) q)
        else case final_failure j (IsRetryable (Some err)) (ClassifyError (Some err)) err of
               (decision, reason) \<Rightarrow>
                 (failJob p reason now (update_job p (recordJobOutcome decision now) q), AfterRelease))"
      using kind unfolding handleJobExecutionError_def j_def Let_def
      by (auto split: option.split gerr.split)
    have "settled p q (deferJobRetry p err cat n now (update_job p (recordJobOutcome d now) q))"
      if "j_Attempts j < j_MaxAttempts j" for cat n d
      using that rec record_inv(1) [OF ok] run
      by (intro settled_after [OF _ deferJobRetry_settled]) (simp_all add: j_def)
    moreover have "settled p q (failJob p reason now (update_job p (recordJobOutcome d now) q), AfterRelease)" for reason d
      using rec record_inv(1) [OF ok] by (intro settled_after [OF _ settled_failJob]) simp_all
    ultimately show ?thesis unfolding eq by (simp split: prod.split)
  qed
qed

lemma settleJobExecution_settled:
  assumes "job_ok (q_heap q p)" "j_State (q_heap q p) = JobStateRunning"
  shows "settled p q (settleJobExecution p err now q)"
  using handleJobExecutionError_settled [OF assms] completeJob_inv [OF assms]
  by (cases err) (simp_all add: settleJobExecution_def settled_def)

text \<open>A refused claim: the job goes back to waiting or to where it was.\<close>

definition unclaimed :: "nat \<Rightarrow> JobQueue \<Rightarrow> JobQueue \<times> after \<Rightarrow> bool" where
  "unclaimed p q r \<longleftrightarrow> owner_section p q (fst r) \<and> j_State (q_heap (fst r) p) \<noteq> JobStateRunning \<and>
     (\<forall>d b. snd r = AfterSchedule d b \<longrightarrow> j_State (q_heap (fst r) p) = JobStateWaiting)"

lemma deferExecutionClaim_unclaimed:
  assumes ok: "job_ok (q_heap q p)" and run: "j_State (q_heap q p) = JobStateRunning" and r: "wr \<noteq> []"
  shows "unclaimed p q (deferExecutionClaim p att wr m lm now q)"
proof -
  obtain ra al df where n: "noteExecutionDefer (j_ID (q_heap q p)) wr now (q_defers q) = (ra, al, df)"
    by (cases "noteExecutionDefer (j_ID (q_heap q p)) wr now (q_defers q)")
  define q2 where "q2 = addLog p now ''info'' lm (cancel_ctx (at_ctx att)
    (update_job p (defer_claim (at_previousStartedAt att) wr m (now + ra)) (q\<lparr>q_defers := df\<rparr>)))"
  obtain rep where q3: "fst (deferExecutionClaim p att wr m lm now q) = q2\<lparr>q_reports := rep\<rparr>"
    and af: "snd (deferExecutionClaim p att wr m lm now q) = AfterSchedule ra False"
  proof (rule that)
    show "fst (deferExecutionClaim p att wr m lm now q) = q2\<lparr>q_reports := q_reports (fst (deferExecutionClaim p att wr m lm now q))\<rparr>"
      by (cases al) (simp_all add: deferExecutionClaim_def n Let_def flip: q2_def)
    show "snd (deferExecutionClaim p att wr m lm now q) = AfterSchedule ra False"
      by (simp add: deferExecutionClaim_def n Let_def)
  qed
  have fr: "frame p q q2"
    unfolding q2_def by (intro frame_trans [OF frame_defers(1) frame_trans [OF frame_update_job
      frame_trans [OF frame_cancel_ctx frame_addLog]]])
  define j where "j = defer_claim (at_previousStartedAt att) wr m (now + ra) (q_heap q p)"
  have h: "q_heap q2 p = append_log now ''info'' lm j" by (simp add: q2_def addLog_def j_def)
  note d = defer_claim_inv [OF ok run r, of "at_previousStartedAt att" m "now + ra", folded j_def]
  note l = append_log_inv [OF d(1), of now "''info''" lm]
  show ?thesis
    using l keeps_trans [OF d(2) l(2)] frame_trans [OF fr frame_defers(2)] d(3)
    by (simp add: unclaimed_def owner_section_def q3 af h append_log_def)
qed

lemma unclaimed_after: "owner_section p q q1 \<Longrightarrow> unclaimed p q1 r \<Longrightarrow> unclaimed p q r"
  using owner_section_trans unfolding unclaimed_def by blast

lemma att_ok_flags [simp]: "att_ok att (j\<lparr>j_executionClaimPending := b\<rparr>) = att_ok att j"
  unfolding att_ok_def by simp

lemma restore_unclaimed:
  assumes "job_ok (q_heap q p)" "j_State (q_heap q p) = JobStateRunning" "att_ok att (q_heap q p)"
  shows "unclaimed p q (cancel_ctx c (update_job p (restoreUnclaimedExecutionLocked att) q), AfterCancel r)"
  using restore_inv [OF assms] frame_trans [OF frame_update_job frame_cancel_ctx]
  by (simp add: unclaimed_def owner_section_def)

lemma restore_suppress_unclaimed:
  fixes c :: nat
  assumes "job_ok (q_heap q p)" "j_State (q_heap q p) = JobStateRunning" "att_ok att (q_heap q p)"
  defines "q1 \<equiv> cancel_ctx c (update_job p (\<lambda>j. (restoreUnclaimedExecutionLocked att j)\<lparr>j_suppressPersistence := True\<rparr>) q)"
  shows "unclaimed p q (q1, AfterRelease)" "unclaimed p q (q1\<lparr>q_defers := df\<rparr>, AfterRelease)"
proof -
  note r = restore_inv [OF assms(1-3)]
  have fr: "frame p q q1" unfolding q1_def by (rule frame_trans [OF frame_update_job frame_cancel_ctx])
  have h: "q_heap q1 p = (restoreUnclaimedExecutionLocked att (q_heap q p))\<lparr>j_suppressPersistence := True\<rparr>"
    by (simp add: q1_def)
  show "unclaimed p q (q1, AfterRelease)" "unclaimed p q (q1\<lparr>q_defers := df\<rparr>, AfterRelease)"
    using r keeps_flags(2) [OF r(2)] fr frame_trans [OF fr frame_defers(1)]
    by (simp_all add: unclaimed_def owner_section_def h)
qed

lemma handleExecutionClaimError_unclaimed:
  assumes ok: "job_ok (q_heap q0 p)" and run: "j_State (q_heap q0 p) = JobStateRunning"
    and att: "att_ok att (q_heap q0 p)"
  shows "unclaimed p q0 (handleExecutionClaimError p att err now q0)"
proof -
  define q where "q = update_job p (\<lambda>j. j\<lparr>j_executionClaimPending := False\<rparr>) q0"
  define j where "j = q_heap q p"
  have j: "j = (q_heap q0 p)\<lparr>j_executionClaimPending := False\<rparr>" by (simp add: j_def q_def)
  have ok1: "job_ok (q_heap q p)" "keeps (q_heap q0 p) (q_heap q p)"
    using ok by (simp_all add: q_def keeps_flags)
  have run1: "j_State (q_heap q p) = JobStateRunning" using run by (simp add: q_def)
  have att1: "att_ok att (q_heap q p)" using att by (simp add: q_def)
  have s0: "owner_section p q0 q" using ok1 by (simp add: owner_section_def q_def)
  note rest = restore_unclaimed [OF ok1(1) run1 att1] restore_suppress_unclaimed [OF ok1(1) run1 att1]
  have "unclaimed p q (handleExecutionClaimError p att err now q0)"
  proof (cases "j_cancellationRequested j \<or> ctx_Err q (at_ctx att) \<noteq> CtxLive")
    case True
    define q1 where "q1 = update_job p (restoreUnclaimedExecutionLocked att) q"
    have eq: "handleExecutionClaimError p att err now q0 =
      (if q_done q \<or> j_cancellationReason j = shutdown_reason
       then (cancel_ctx (at_ctx att) (update_job p (\<lambda>j. j\<lparr>j_suppressPersistence := True\<rparr>) q1), AfterRelease)
       else (cancel_ctx (at_ctx att) q1,
             AfterCancel (if j_cancellationReason j = [] then user_cancel_reason else j_cancellationReason j)))"
      using True unfolding handleExecutionClaimError_def Let_def q1_def
      by (simp flip: q_def j_def)
    have u: "update_job p (\<lambda>j. j\<lparr>j_suppressPersistence := True\<rparr>) q1 =
        update_job p (\<lambda>j. (restoreUnclaimedExecutionLocked att j)\<lparr>j_suppressPersistence := True\<rparr>) q"
      by (simp add: q1_def update_job_def)
    show ?thesis unfolding eq u unfolding q1_def using rest by simp
  next
    case False
    then have eq: "handleExecutionClaimError p att err now q0 =
       (if errors_Is err ErrExecutionNodeMaintenance then
           deferExecutionClaim p att WaitReasonNodeMaintenance ''The server is being rebooted or updated''
             ''Waiting for the server maintenance to finish'' now q
         else if errors_Is err ErrExecutionTargetBusy then deferBusyExecutionClaim p att now q
         else if errors_Is err ErrExecutionClaimFenced then
           (let q1 = update_job p (\<lambda>j. (restoreUnclaimedExecutionLocked att j)\<lparr>j_suppressPersistence := True\<rparr>) q;
                q2 = cancel_ctx (at_ctx att) q1
            in (q2\<lparr>q_defers := clearExecutionDefer (j_ID j) (q_defers q2)\<rparr>, AfterRelease))
         else deferUnavailableExecutionClaim p att err now q)"
      unfolding handleExecutionClaimError_def Let_def by (simp flip: q_def j_def)
    show ?thesis
      unfolding eq deferBusyExecutionClaim_def deferUnavailableExecutionClaim_def Let_def
      using deferExecutionClaim_unclaimed [OF ok1(1) run1] rest by simp
  qed
  then show ?thesis by (rule unclaimed_after [OF s0])
qed

end
