(* ===== verification/Job_Safety.thy ===== *)
theory Job_Safety
  imports Job_Invariant
begin

text \<open>
  Safety of the running queue: an invariant of every reachable state of the step relation.  A job
  is in one place at a time (the channel, one worker, one resume timer); it is running exactly while
  one worker executes it; the token and the reference count of a target agree with the workers that
  hold or await it; a handler runs only under a claim that was granted.
\<close>

section \<open>Reading a worker's program counter\<close>

text \<open>The job a worker has taken and not yet given on; the job it mentions at all.\<close>

fun wjob :: "wpc \<Rightarrow> nat option" where
  "wjob (WAcquire p) = Some p"
| "wjob (WWaitToken p _ _) = Some p"
| "wjob (WBegin p _) = Some p"
| "wjob (WStart p _ _) = Some p"
| "wjob (WClaim p _ _ _) = Some p"
| "wjob (WCheck p _ _) = Some p"
| "wjob (WRun p _ _) = Some p"
| "wjob (WHandler p _ _) = Some p"
| "wjob (WFinish p _ _ _) = Some p"
| "wjob (WSettle p _ _ _) = Some p"
| "wjob (WCancel p _ _ _) = Some p"
| "wjob (WSchedule p _ _ _ _) = Some p"
| "wjob _ = None"

fun wment :: "wpc \<Rightarrow> nat option" where
  "wment (WRecheck p _ _ _) = Some p"
| "wment pc = wjob pc"

text \<open>The job a worker is executing; with the pending cancellation of that job; with a granted claim.\<close>

fun wactive :: "wpc \<Rightarrow> nat option" where
  "wactive (WClaim p _ _ _) = Some p"
| "wactive (WCheck p _ _) = Some p"
| "wactive (WRun p _ _) = Some p"
| "wactive (WHandler p _ _) = Some p"
| "wactive (WFinish p _ _ _) = Some p"
| "wactive (WSettle p _ _ _) = Some p"
| "wactive _ = None"

fun wcover :: "wpc \<Rightarrow> nat option" where
  "wcover (WCancel p _ _ _) = Some p"
| "wcover pc = wactive pc"

fun wclaimed :: "wpc \<Rightarrow> nat option" where
  "wclaimed (WClaim p _ _ _) = None"
| "wclaimed pc = wactive pc"

fun wclaim :: "wpc \<Rightarrow> (nat \<times> jobExecutionAttempt \<times> ExecutionClaim) option" where
  "wclaim (WClaim p _ att c) = Some (p, att, c)"
| "wclaim _ = None"

text \<open>The target entry a worker holds a reference to, the one whose token it holds, and the job it serialises.\<close>

fun wtgt :: "wpc \<Rightarrow> tgt" where
  "wtgt (WWaitToken _ key e) = Some (key, e)"
| "wtgt (WBegin _ t) = t"
| "wtgt (WStart _ t _) = t"
| "wtgt (WClaim _ t _ _) = t"
| "wtgt (WCheck _ t _) = t"
| "wtgt (WRun _ t _) = t"
| "wtgt (WHandler _ t _) = t"
| "wtgt (WFinish _ t _ _) = t"
| "wtgt (WSettle _ t _ _) = t"
| "wtgt (WCancel _ t _ _) = t"
| "wtgt (WSchedule _ t _ _ _) = t"
| "wtgt (WRecheck _ t _ _) = t"
| "wtgt (WRelease t) = t"
| "wtgt (WUnref key e) = Some (key, e)"
| "wtgt _ = None"

fun whold :: "wpc \<Rightarrow> tgt" where
  "whold (WWaitToken _ _ _) = None"
| "whold (WUnref _ _) = None"
| "whold pc = wtgt pc"

fun wserial :: "wpc \<Rightarrow> (nat \<times> string option) option" where
  "wserial (WAcquire _) = None"
| "wserial pc = map_option (\<lambda>p. (p, map_option fst (wtgt pc))) (wjob pc)"

fun rjob :: "rpc \<Rightarrow> nat option" where
  "rjob (RStart p _) = Some p"
| "rjob (RSync p _ _) = Some p"
| "rjob (RSyncing p _ _ _) = Some p"
| "rjob (RBackoff p _ _) = Some p"
| "rjob (RTimerSet p _) = Some p"
| "rjob (RTimer p _) = Some p"
| "rjob (RCheck p) = Some p"
| "rjob (RSend p) = Some p"
| "rjob _ = None"

fun rment :: "rpc \<Rightarrow> nat option" where
  "rment (RFenced p _) = Some p"
| "rment (RClear p) = Some p"
| "rment pc = rjob pc"

lemma wactive_cover: "wactive pc = Some p \<Longrightarrow> wcover pc = Some p" by (cases pc) simp_all
lemma wcover_job: "wcover pc = Some p \<Longrightarrow> wjob pc = Some p" by (cases pc) simp_all
lemma wactive_job: "wactive pc = Some p \<Longrightarrow> wjob pc = Some p" by (cases pc) simp_all
lemma wclaimed_active: "wclaimed pc = Some p \<Longrightarrow> wactive pc = Some p" by (cases pc) simp_all
lemma wclaim_active: "wclaim pc = Some (p, a, c) \<Longrightarrow> wactive pc = Some p" by (cases pc) simp_all
lemma wjob_ment: "wjob pc = Some p \<Longrightarrow> wment pc = Some p" by (cases pc) simp_all
lemma rjob_ment: "rjob pc = Some p \<Longrightarrow> rment pc = Some p" by (cases pc) simp_all
lemma whold_tgt: "whold pc = Some x \<Longrightarrow> wtgt pc = Some x" by (cases pc) simp_all
lemma wserial_job: "wserial pc = Some (p, k) \<Longrightarrow> wjob pc = Some p" by (cases pc) auto
lemma wserial_tgt: "wserial pc = Some (p, k) \<Longrightarrow> k = map_option fst (wtgt pc)" by (cases pc) auto

section \<open>The invariant\<close>

text \<open>Each part speaks of the components of the state it is about.\<close>

definition alloc_inv ::
  "nat \<Rightarrow> nat list \<Rightarrow> (nat \<Rightarrow> wpc) \<Rightarrow> (nat \<Rightarrow> rpc) \<Rightarrow> cancel_call list \<Rightarrow> nat list \<Rightarrow> bool" where
  "alloc_inv n pend wp rp cancels shut \<longleftrightarrow>
     (\<forall>p\<in>set pend. p < n) \<and>
     (\<forall>w p. wment (wp w) = Some p \<longrightarrow> p < n) \<and>
     (\<forall>r p. rment (rp r) = Some p \<longrightarrow> p < n) \<and>
     (\<forall>c\<in>set cancels. cc_job c < n) \<and>
     (\<forall>p\<in>set shut. p < n)"

definition ids_inv :: "nat \<Rightarrow> (string, nat) fmap \<Rightarrow> (nat \<Rightarrow> Job) \<Rightarrow> bool" where
  "ids_inv n jobs h \<longleftrightarrow> (\<forall>i p. fmlookup jobs i = Some p \<longrightarrow> p < n \<and> j_ID (h p) = i)"

definition threads_inv :: "nat \<Rightarrow> nat \<Rightarrow> (nat \<Rightarrow> wpc) \<Rightarrow> (nat \<Rightarrow> rpc) \<Rightarrow> bool" where
  "threads_inv workers nr wp rp \<longleftrightarrow> (\<forall>w. workers \<le> w \<longrightarrow> wp w = WOff) \<and> (\<forall>r. nr \<le> r \<longrightarrow> rp r = ROff)"

definition place_inv :: "nat list \<Rightarrow> (nat \<Rightarrow> wpc) \<Rightarrow> (nat \<Rightarrow> rpc) \<Rightarrow> (nat \<Rightarrow> place) \<Rightarrow> bool" where
  "place_inv pend wp rp pl \<longleftrightarrow>
     distinct pend \<and> (\<forall>p\<in>set pend. pl p = InPending) \<and>
     (\<forall>w p. wjob (wp w) = Some p \<longrightarrow> pl p = AtWorker w) \<and>
     (\<forall>r p. rjob (rp r) = Some p \<longrightarrow> pl p = AtResume r)"

definition run_inv :: "nat \<Rightarrow> (nat \<Rightarrow> Job) \<Rightarrow> (nat \<Rightarrow> wpc) \<Rightarrow> bool" where
  "run_inv n h wp \<longleftrightarrow>
     (\<forall>w p. wactive (wp w) = Some p \<longrightarrow> j_State (h p) = JobStateRunning) \<and>
     (\<forall>p<n. j_State (h p) = JobStateRunning \<longrightarrow> (\<exists>w. wcover (wp w) = Some p))"

definition job_inv :: "nat \<Rightarrow> (nat \<Rightarrow> Job) \<Rightarrow> bool" where
  "job_inv n h \<longleftrightarrow> (\<forall>p<n. job_ok (h p))"

definition claim_of :: "ExecutionClaim \<Rightarrow> Job \<Rightarrow> bool" where
  "claim_of c j \<longleftrightarrow> ec_JobID c = j_ID j \<and> j_StartedAt j = Some (ec_StartedAt c)"

definition claim_inv :: "bool \<Rightarrow> (nat \<Rightarrow> Job) \<Rightarrow> (nat \<Rightarrow> wpc) \<Rightarrow> ExecutionClaim list \<Rightarrow> bool" where
  "claim_inv claimer h wp granted \<longleftrightarrow>
     (\<forall>w p att c. wclaim (wp w) = Some (p, att, c) \<longrightarrow> att_ok att (h p) \<and> claim_of c (h p)) \<and>
     (\<forall>w p. wclaimed (wp w) = Some p \<longrightarrow> claimer \<longrightarrow> (\<exists>c\<in>set granted. claim_of c (h p)))"

definition serial_inv :: "(nat \<Rightarrow> Job) \<Rightarrow> (nat \<Rightarrow> wpc) \<Rightarrow> bool" where
  "serial_inv h wp \<longleftrightarrow> (\<forall>w p k. wserial (wp w) = Some (p, k) \<longrightarrow> k = target_key (h p))"

definition refs_of :: "(nat \<Rightarrow> wpc) \<Rightarrow> string \<times> nat \<Rightarrow> nat set" where
  "refs_of wp x = {w. wtgt (wp w) = Some x}"

definition target_inv ::
  "(string, nat) fmap \<Rightarrow> (nat \<Rightarrow> jobTargetExecution) \<Rightarrow> nat \<Rightarrow> (nat \<Rightarrow> wpc) \<Rightarrow> bool" where
  "target_inv targets entries ne wp \<longleftrightarrow>
     (\<forall>w key e. wtgt (wp w) = Some (key, e) \<longrightarrow> fmlookup targets key = Some e) \<and>
     (\<forall>key e. fmlookup targets key = Some e \<longrightarrow>
        e < ne \<and> te_refs (entries e) = int (card (refs_of wp (key, e))) \<and> te_refs (entries e) > 0 \<and>
        (te_token (entries e) \<longleftrightarrow> (\<forall>w. whold (wp w) \<noteq> Some (key, e)))) \<and>
     (\<forall>k1 k2 e. fmlookup targets k1 = Some e \<longrightarrow> fmlookup targets k2 = Some e \<longrightarrow> k1 = k2) \<and>
     (\<forall>w1 w2 x. whold (wp w1) = Some x \<longrightarrow> whold (wp w2) = Some x \<longrightarrow> w1 = w2)"

definition qinv :: "qsys \<Rightarrow> bool" where
  "qinv s \<longleftrightarrow>
     (let q = queue s; n = q_alloc q; wp = w_pc s; h = q_heap q in
      alloc_inv n (q_pending q) wp (r_pc s) (c_cancels s) (c_shutdown s) \<and>
      ids_inv n (q_jobs q) h \<and>
      threads_inv (q_workers q) (q_nextResume q) wp (r_pc s) \<and>
      place_inv (q_pending q) wp (r_pc s) (g_place s) \<and>
      run_inv n h wp \<and> job_inv n h \<and> claim_inv (q_claimExecution q) h wp (g_granted s) \<and>
      serial_inv h wp \<and> target_inv (q_targets q) (q_entries q) (q_nextEntry q) wp)"

lemma qinvD:
  assumes "qinv s"
  shows "alloc_inv (q_alloc (queue s)) (q_pending (queue s)) (w_pc s) (r_pc s) (c_cancels s) (c_shutdown s)"
    "ids_inv (q_alloc (queue s)) (q_jobs (queue s)) (q_heap (queue s))"
    "threads_inv (q_workers (queue s)) (q_nextResume (queue s)) (w_pc s) (r_pc s)"
    "place_inv (q_pending (queue s)) (w_pc s) (r_pc s) (g_place s)"
    "run_inv (q_alloc (queue s)) (q_heap (queue s)) (w_pc s)"
    "job_inv (q_alloc (queue s)) (q_heap (queue s))"
    "claim_inv (q_claimExecution (queue s)) (q_heap (queue s)) (w_pc s) (g_granted s)"
    "serial_inv (q_heap (queue s)) (w_pc s)"
    "target_inv (q_targets (queue s)) (q_entries (queue s)) (q_nextEntry (queue s)) (w_pc s)"
  using assms by (simp_all add: qinv_def Let_def)

lemma target_key_keeps: "keeps j j' \<Longrightarrow> target_key j' = target_key j"
  by (simp add: keeps_def target_key_def)

lemma fold_RegisterHandler:
  "fold RegisterHandler hs q = q\<lparr>q_handlers := rev hs @ q_handlers q\<rparr>"
  by (induction hs arbitrary: q) (simp_all add: RegisterHandler_def)

lemma qinit_inv: "qinit s \<Longrightarrow> qinv s"
  by (auto simp: qinit_def start_system_def fold_RegisterHandler qinv_def Start_def NewQueue_def
      SetExecutionSnapshotSyncer_def SetExecutionClaimer_def alloc_inv_def ids_inv_def threads_inv_def place_inv_def
      run_inv_def job_inv_def claim_inv_def serial_inv_def target_inv_def split: if_splits)

subsection \<open>A worker moves on with its job\<close>

lemma alloc_inv_move:
  assumes "alloc_inv n pd wp rp cs sh" "wment pc' = None \<or> wment pc' = Some p" "p < n"
  shows "alloc_inv n pd (wp(w := pc')) rp cs sh"
  using assms by (auto simp: alloc_inv_def)

lemma ids_inv_heap:
  assumes "ids_inv n jobs h" "\<And>x. j_ID (h' x) = j_ID (h x)"
  shows "ids_inv n jobs h'"
  using assms by (simp add: ids_inv_def)

lemma threads_inv_worker:
  assumes "threads_inv k nr wp rp" "w < k"
  shows "threads_inv k nr (wp(w := pc')) rp"
  using assms by (auto simp: threads_inv_def)

lemma place_inv_move:
  assumes "place_inv pd wp rp pl" "wjob (wp w) = Some p" "wjob pc' = None \<or> wjob pc' = Some p"
  shows "place_inv pd (wp(w := pc')) rp pl"
  using assms by (auto simp: place_inv_def)

lemma place_unique:
  assumes "place_inv pd wp rp pl" "wjob (wp w) = Some p"
  shows "wjob (wp x) = Some p \<Longrightarrow> x = w" "rjob (rp r) \<noteq> Some p" "p \<notin> set pd"
  using assms unfolding place_inv_def by (metis place.inject(1), metis place.distinct, metis place.distinct)

lemma run_inv_move:
  assumes I: "run_inv n h wp" and w: "wjob (wp w) = Some p" and u: "\<And>x. wjob (wp x) = Some p \<Longrightarrow> x = w"
    and h: "\<And>x. x \<noteq> p \<Longrightarrow> h' x = h x"
    and pc: "wjob pc' = None \<or> wjob pc' = Some p"
    and act: "wactive pc' = Some p \<Longrightarrow> j_State (h' p) = JobStateRunning"
    and cov: "j_State (h' p) = JobStateRunning \<Longrightarrow> wcover pc' = Some p"
  shows "run_inv n h' (wp(w := pc'))"
  unfolding run_inv_def
proof (intro conjI allI impI)
  fix x y assume a: "wactive ((wp(w := pc')) x) = Some y"
  show "j_State (h' y) = JobStateRunning"
  proof (cases "x = w")
    case True
    then show ?thesis using a act pc wactive_job by fastforce
  next
    case False
    then have "wactive (wp x) = Some y" using a by simp
    moreover have "y \<noteq> p" using u [of x] False calculation wactive_job by blast
    ultimately show ?thesis using I h by (simp add: run_inv_def)
  qed
next
  fix y assume y: "y < n" "j_State (h' y) = JobStateRunning"
  show "\<exists>x. wcover ((wp(w := pc')) x) = Some y"
  proof (cases "y = p")
    case True
    then show ?thesis using cov y(2) by (intro exI [of _ w]) simp
  next
    case False
    then obtain x where x: "wcover (wp x) = Some y" using I h y by (auto simp: run_inv_def)
    then have "x \<noteq> w" using False w wcover_job by fastforce
    then show ?thesis using x by (intro exI [of _ x]) simp
  qed
qed

lemma job_inv_heap:
  assumes "job_inv n h" "\<And>x. x \<noteq> p \<Longrightarrow> h' x = h x" "job_ok (h' p)"
  shows "job_inv n h'"
  using assms unfolding job_inv_def by metis

lemma claim_inv_move:
  assumes I: "claim_inv c h wp G" and u: "\<And>x. wjob (wp x) = Some p \<Longrightarrow> x = w"
    and h: "\<And>x. x \<noteq> p \<Longrightarrow> h' x = h x" and G: "set G \<subseteq> set G'"
    and pc: "wjob pc' = None \<or> wjob pc' = Some p"
    and a1: "\<And>att cl. wclaim pc' = Some (p, att, cl) \<Longrightarrow> att_ok att (h' p) \<and> claim_of cl (h' p)"
    and a2: "wclaimed pc' = Some p \<Longrightarrow> c \<Longrightarrow> \<exists>cl\<in>set G'. claim_of cl (h' p)"
  shows "claim_inv c h' (wp(w := pc')) G'"
  unfolding claim_inv_def
proof (intro conjI allI impI)
  fix x y att cl assume a: "wclaim ((wp(w := pc')) x) = Some (y, att, cl)"
  then have y: "wjob ((wp(w := pc')) x) = Some y" using wclaim_active wactive_job by blast
  then consider "x = w" "y = p" | "x \<noteq> w" "y \<noteq> p" using pc u by (cases "x = w") auto
  then show "att_ok att (h' y)" "claim_of cl (h' y)"
    using a a1 I h by (cases; simp add: claim_inv_def)+
next
  fix x y assume a: "wclaimed ((wp(w := pc')) x) = Some y" and c: c
  then have "wjob ((wp(w := pc')) x) = Some y" using wclaimed_active wactive_job by blast
  then consider "x = w" "y = p" | "x \<noteq> w" "y \<noteq> p" using pc u by (cases "x = w") auto
  then show "\<exists>cl\<in>set G'. claim_of cl (h' y)"
  proof cases
    case 2
    then have "wclaimed (wp x) = Some y" using a by simp
    then obtain cl where "cl \<in> set G" "claim_of cl (h y)" using I c unfolding claim_inv_def by blast
    then show ?thesis using G h [OF 2(2)] by auto
  qed (use a a2 c in simp)
qed

lemma serial_inv_move:
  assumes "serial_inv h wp" "\<And>x. target_key (h' x) = target_key (h x)"
    "wserial pc' = None \<or> wserial pc' = wserial (wp w)"
  shows "serial_inv h' (wp(w := pc'))"
  using assms by (auto simp: serial_inv_def)

lemma target_inv_same:
  assumes I: "target_inv tg en ne wp" and t: "\<And>x. wtgt (wp' x) = wtgt (wp x)" "\<And>x. whold (wp' x) = whold (wp x)"
  shows "target_inv tg en ne wp'"
proof -
  have r: "refs_of wp' = refs_of wp" by (simp add: refs_of_def t fun_eq_iff)
  show ?thesis using I unfolding target_inv_def r t .
qed

subsection \<open>Targets\<close>

lemma finite_refs:
  assumes "threads_inv k nr wp rp"
  shows "finite (refs_of wp x)"
proof (rule finite_subset)
  show "refs_of wp x \<subseteq> {..<k}"
    using assms by (auto simp: refs_of_def threads_inv_def) (metis linorder_not_le option.distinct(1) wtgt.simps(15))
qed simp

lemma refs_of_upd:
  "refs_of (wp(w := pc')) x = (if wtgt pc' = Some x then insert w (refs_of wp x) else refs_of wp x - {w})"
  by (auto simp: refs_of_def)

text \<open>The clauses of the invariant, one by one.\<close>

lemma target_invI:
  assumes "\<And>w key e. wtgt (wp w) = Some (key, e) \<Longrightarrow> fmlookup tg key = Some e"
    "\<And>key e. fmlookup tg key = Some e \<Longrightarrow> e < ne"
    "\<And>key e. fmlookup tg key = Some e \<Longrightarrow> te_refs (en e) = int (card (refs_of wp (key, e)))"
    "\<And>key e. fmlookup tg key = Some e \<Longrightarrow> te_refs (en e) > 0"
    "\<And>key e. fmlookup tg key = Some e \<Longrightarrow> te_token (en e) \<longleftrightarrow> (\<forall>w. whold (wp w) \<noteq> Some (key, e))"
    "\<And>k1 k2 e. fmlookup tg k1 = Some e \<Longrightarrow> fmlookup tg k2 = Some e \<Longrightarrow> k1 = k2"
    "\<And>w1 w2 x. whold (wp w1) = Some x \<Longrightarrow> whold (wp w2) = Some x \<Longrightarrow> w1 = w2"
  shows "target_inv tg en ne wp"
  unfolding target_inv_def using assms by blast

lemma target_invD:
  assumes "target_inv tg en ne wp"
  shows "\<And>w key e. wtgt (wp w) = Some (key, e) \<Longrightarrow> fmlookup tg key = Some e"
    "\<And>key e. fmlookup tg key = Some e \<Longrightarrow> e < ne"
    "\<And>key e. fmlookup tg key = Some e \<Longrightarrow> te_refs (en e) = int (card (refs_of wp (key, e)))"
    "\<And>key e. fmlookup tg key = Some e \<Longrightarrow> te_refs (en e) > 0"
    "\<And>key e. fmlookup tg key = Some e \<Longrightarrow> te_token (en e) \<longleftrightarrow> (\<forall>w. whold (wp w) \<noteq> Some (key, e))"
    "\<And>k1 k2 e. fmlookup tg k1 = Some e \<Longrightarrow> fmlookup tg k2 = Some e \<Longrightarrow> k1 = k2"
    "\<And>w1 w2 x. whold (wp w1) = Some x \<Longrightarrow> whold (wp w2) = Some x \<Longrightarrow> w1 = w2"
  using assms unfolding target_inv_def by blast+

text \<open>A worker takes a reference to an entry that is there.\<close>

lemma target_inv_ref:
  assumes I: "target_inv tg en ne wp" and fin: "\<And>x. finite (refs_of wp x)" and w: "wtgt (wp w) = None"
    and e: "fmlookup tg key = Some e" and en': "en' = en(e := (en e)\<lparr>te_refs := te_refs (en e) + 1\<rparr>)"
  shows "target_inv tg en' ne (wp(w := WWaitToken p key e))"
proof -
  note d = target_invD [OF I]
  have nh: "whold (wp w) = None" using w whold_tgt by (cases "whold (wp w)") fastforce+
  have nw: "w \<notin> refs_of wp x" for x using w by (simp add: refs_of_def)
  have hold: "whold ((wp(w := WWaitToken p key e)) x) = whold (wp x)" for x using nh by simp
  have uniq: "k = key" if "fmlookup tg k = Some e" for k using d(6) [OF that e] .
  show ?thesis
  proof (rule target_invI, goal_cases)
    case (1 x k f) then show ?case using d(1) e by (cases "x = w") auto
  next
    case (2 k f) then show ?case by (rule d(2))
  next
    case (3 k f)
    show ?case
    proof (cases "f = e")
      case True
      then have "k = key" using uniq 3 by simp
      then show ?thesis using True d(3) [OF e] fin nw by (simp add: en' refs_of_upd)
    next
      case False
      then show ?thesis using d(3) [OF 3] nw by (simp add: en' refs_of_upd)
    qed
  next
    case (4 k f) then show ?case using d(4) by (fastforce simp: en')
  next
    case (5 k f) then show ?case using d(5) [OF 5] unfolding hold en' by (cases "f = e") simp_all
  next
    case (6 k1 k2 f) then show ?case using d(6) by blast
  next
    case (7 w1 w2 x) then show ?case using d(7) unfolding hold by blast
  qed
qed

lemma target_inv_new:
  assumes I: "target_inv tg en ne wp" and w: "wtgt (wp w) = None" and key: "fmlookup tg key = None"
    and en': "en' = en(ne := \<lparr>te_token = True, te_refs = 1\<rparr>)"
  shows "target_inv (fmupd key ne tg) en' (Suc ne) (wp(w := WWaitToken p key ne))"
proof -
  note d = target_invD [OF I]
  have nh: "whold (wp w) = None" using w whold_tgt by (cases "whold (wp w)") fastforce+
  have nw: "w \<notin> refs_of wp x" for x using w by (simp add: refs_of_def)
  have hold: "whold ((wp(w := WWaitToken p key ne)) x) = whold (wp x)" for x using nh by simp
  have none: "wtgt (wp x) \<noteq> Some (key, f)" for x f using d(1) key by fastforce
  then have empty: "refs_of wp (key, ne) = {}" by (auto simp: refs_of_def)
  have lt: "f < ne" if "fmlookup tg k = Some f" for k f using d(2) [OF that] .
  show ?thesis
  proof (rule target_invI, goal_cases)
    case (1 x k f) then show ?case using d(1) [of x k f] none [of x f] by (cases "x = w"; cases "k = key") auto
  next
    case (2 k f) then show ?case using lt [of k f] by (cases "k = key") auto
  next
    case (3 k f)
    show ?case
    proof (cases "k = key")
      case True
      then show ?thesis using 3 empty by (simp add: en' refs_of_upd)
    next
      case False
      then have "fmlookup tg k = Some f" using 3 by simp
      then show ?thesis using d(3) lt [of k f] nw False by (simp add: en' refs_of_upd)
    qed
  next
    case (4 k f) then show ?case using d(4) [of k f] lt [of k f] by (cases "k = key") (auto simp: en')
  next
    case (5 k f)
    have "whold (wp x) \<noteq> Some (key, g)" for x g using none [of x g] whold_tgt by blast
    then show ?case using 5 d(5) [of k f] lt [of k f] unfolding hold by (cases "k = key") (simp_all add: en')
  next
    case (6 k1 k2 f)
    then show ?case using d(6) [of k1 f k2] lt [of k1 f] lt [of k2 f] by (cases "k1 = key"; cases "k2 = key") auto
  next
    case (7 w1 w2 x) then show ?case using d(7) unfolding hold by blast
  qed
qed

lemma target_inv_acquire:
  assumes I: "target_inv (q_targets q) (q_entries q) (q_nextEntry q) wp" and fin: "\<And>x. finite (refs_of wp x)"
    and w: "wtgt (wp w) = None" and eq: "acquire_entry key q = (e, q')"
  shows "target_inv (q_targets q') (q_entries q') (q_nextEntry q') (wp(w := WWaitToken p key e))"
proof (cases "fmlookup (q_targets q) key")
  case None
  then have "q_targets q' = fmupd key (q_nextEntry q) (q_targets q)" "q_nextEntry q' = Suc (q_nextEntry q)"
    "q_entries q' = (q_entries q)(q_nextEntry q := \<lparr>te_token = True, te_refs = 1\<rparr>)" "e = q_nextEntry q"
    using eq by (auto simp: acquire_entry_def)
  then show ?thesis using target_inv_new [OF I w None refl] by simp
next
  case (Some f)
  then have "q_targets q' = q_targets q" "q_nextEntry q' = q_nextEntry q" "e = f"
    "q_entries q' = (q_entries q)(f := (q_entries q f)\<lparr>te_refs := te_refs (q_entries q f) + 1\<rparr>)"
    using eq by (auto simp: acquire_entry_def)
  then show ?thesis using target_inv_ref [OF I fin w Some refl] by simp
qed

text \<open>Taking and giving back the token.\<close>

lemma target_inv_token:
  assumes I: "target_inv tg en ne wp" and t: "wtgt (wp w) = Some (key, e)" and t': "wtgt pc' = Some (key, e)"
    and sw: "te_token (en e) = b"
    and h: "b \<and> whold pc' = Some (key, e) \<or> \<not> b \<and> whold (wp w) = Some (key, e) \<and> whold pc' = None"
  shows "target_inv tg (en(e := (en e)\<lparr>te_token := \<not> b\<rparr>)) ne (wp(w := pc'))"
proof -
  note d = target_invD [OF I]
  have e: "fmlookup tg key = Some e" using d(1) t by blast
  have refs: "refs_of (wp(w := pc')) x = refs_of wp x" for x
    using t t' by (auto simp: refs_of_def)
  have tok: "b \<longleftrightarrow> (\<forall>x. whold (wp x) \<noteq> Some (key, e))" using d(5) [OF e] sw by simp
  have only: "whold (wp x) \<noteq> Some (key, e)" if "x \<noteq> w" for x using h tok d(7) that by blast
  have holdw: "whold (wp w) = Some y \<Longrightarrow> y = (key, e)" for y using whold_tgt t by fastforce
  have uniq: "k = key" if "fmlookup tg k = Some e" for k using d(6) [OF that e] .
  show ?thesis
  proof (rule target_invI, goal_cases)
    case (1 x k f) then show ?case using d(1) e t' by (cases "x = w") auto
  next
    case (2 k f) then show ?case by (rule d(2))
  next
    case (3 k f) then show ?case using d(3) [OF 3] by (cases "f = e") (simp_all add: refs)
  next
    case (4 k f) then show ?case using d(4) [OF 4] by (cases "f = e") simp_all
  next
    case (5 k f)
    show ?case
    proof (cases "f = e")
      case True
      then have "k = key" using uniq 5 by simp
      moreover have "(\<forall>x. whold ((wp(w := pc')) x) \<noteq> Some (key, e)) \<longleftrightarrow> whold pc' \<noteq> Some (key, e)"
        using only by auto
      ultimately show ?thesis using True h by auto
    next
      case False
      have "whold ((wp(w := pc')) x) = Some (k, f) \<longleftrightarrow> whold (wp x) = Some (k, f)" for x
        using h holdw [of "(k, f)"] False whold_tgt [of pc' "(k, f)"] t' by (cases "x = w") auto
      then show ?thesis using d(5) [OF 5] False by simp
    qed
  next
    case (6 k1 k2 f) then show ?case using d(6) by blast
  next
    case (7 w1 w2 x)
    have k: "whold pc' = Some y \<Longrightarrow> y = (key, e)" for y using h t' whold_tgt by fastforce
    show ?case using 7 d(7) k [of x] only by (cases "w1 = w"; cases "w2 = w") auto
  qed
qed

lemma target_inv_unref:
  assumes I: "target_inv (q_targets q) (q_entries q) (q_nextEntry q) wp" and fin: "\<And>x. finite (refs_of wp x)"
    and t: "wtgt (wp w) = Some (key, e)" and h: "whold (wp w) = None" and t': "wtgt pc' = None"
    and q': "q' = releaseTargetExecutionRef key e q"
  shows "target_inv (q_targets q') (q_entries q') (q_nextEntry q') (wp(w := pc'))"
proof -
  note d = target_invD [OF I]
  have e: "fmlookup (q_targets q) key = Some e" using d(1) t by blast
  define rest where "rest = refs_of wp (key, e) - {w}"
  have w: "w \<in> refs_of wp (key, e)" using t by (simp add: refs_of_def)
  have card: "card (refs_of wp (key, e)) = Suc (card rest)"
    using card_Suc_Diff1 [OF fin w] by (simp add: rest_def)
  then have refs: "te_refs (q_entries q e) - 1 = int (card rest)" using d(3) [OF e] by simp
  have h': "whold pc' = None" using t' whold_tgt by (cases "whold pc'") fastforce+
  have hold: "whold ((wp(w := pc')) x) = whold (wp x)" for x using h h' by simp
  have uniq: "k = key" if "fmlookup (q_targets q) k = Some e" for k using d(6) [OF that e] .
  have tg: "q_targets q' = (if rest = {} then fmdrop key (q_targets q) else q_targets q)"
    using e refs fin by (simp add: q' releaseTargetExecutionRef_def Let_def rest_def)
  have en: "q_entries q' = (q_entries q)(e := (q_entries q e)\<lparr>te_refs := int (card rest)\<rparr>)"
    and ne: "q_nextEntry q' = q_nextEntry q"
    using refs by (simp_all add: q' releaseTargetExecutionRef_def Let_def)
  have look: "fmlookup (q_targets q') k = Some f \<longleftrightarrow> fmlookup (q_targets q) k = Some f \<and> (k = key \<longrightarrow> rest \<noteq> {})" for k f
    by (auto simp: tg)
  have rf: "refs_of (wp(w := pc')) x = refs_of wp x - {w}" for x using t' by (auto simp: refs_of_def)
  show ?thesis
  proof (rule target_invI, goal_cases)
    case (1 x k f)
    then have x: "x \<noteq> w" "wtgt (wp x) = Some (k, f)" using t' by (auto split: if_splits)
    then have "fmlookup (q_targets q) k = Some f" using d(1) by blast
    moreover have "rest \<noteq> {}" if "k = key"
      using x that e calculation by (auto simp: rest_def refs_of_def)
    ultimately show ?case by (simp add: look)
  next
    case (2 k f) then show ?case using d(2) [of k f] by (simp add: look ne)
  next
    case (3 k f)
    then have k: "fmlookup (q_targets q) k = Some f" by (simp add: look)
    show ?case
    proof (cases "f = e")
      case True
      then show ?thesis using uniq k by (simp add: en rf rest_def)
    next
      case False
      then have "w \<notin> refs_of wp (k, f)" using t by (auto simp: refs_of_def)
      then show ?thesis using d(3) [OF k] False by (simp add: en rf)
    qed
  next
    case (4 k f)
    then have k: "fmlookup (q_targets q) k = Some f" "k = key \<longrightarrow> rest \<noteq> {}" by (simp_all add: look)
    show ?case
    proof (cases "f = e")
      case True
      then have "rest \<noteq> {}" using uniq k by simp
      then show ?thesis using True fin by (simp add: en rest_def card_gt_0_iff)
    qed (use d(4) [OF k(1)] in \<open>simp add: en\<close>)
  next
    case (5 k f)
    then have "fmlookup (q_targets q) k = Some f" by (simp add: look)
    from d(5) [OF this] show ?case unfolding hold en by (cases "f = e") simp_all
  next
    case (6 k1 k2 f) then show ?case using d(6) [of k1 f k2] by (simp add: look)
  next
    case (7 w1 w2 x) then show ?case using d(7) unfolding hold by blast
  qed
qed

section \<open>Steps\<close>

subsection \<open>A worker's section on its job\<close>

text \<open>
  A worker at \<open>pc\<close> moves to \<open>pc'\<close> with one section on the job it holds.  The side conditions say how
  the two program counters are related; the invariant follows for all such steps.
\<close>

definition moves :: "wpc \<Rightarrow> wpc \<Rightarrow> nat \<Rightarrow> bool" where
  "moves pc pc' p \<longleftrightarrow>
     wjob pc = Some p \<and> (wjob pc' = None \<or> wjob pc' = Some p) \<and> (wment pc' = None \<or> wment pc' = Some p) \<and>
     wtgt pc' = wtgt pc \<and> whold pc' = whold pc \<and> (wserial pc' = None \<or> wserial pc' = wserial pc)"

definition lands :: "wpc \<Rightarrow> nat \<Rightarrow> Job \<Rightarrow> bool \<Rightarrow> ExecutionClaim list \<Rightarrow> bool" where
  "lands pc' p j claimer granted \<longleftrightarrow>
     (wactive pc' = Some p \<longrightarrow> j_State j = JobStateRunning) \<and>
     (j_State j = JobStateRunning \<longrightarrow> wcover pc' = Some p) \<and>
     (\<forall>att c. wclaim pc' = Some (p, att, c) \<longrightarrow> att_ok att j \<and> claim_of c j) \<and>
     (wclaimed pc' = Some p \<longrightarrow> claimer \<longrightarrow> (\<exists>c\<in>set granted. claim_of c j))"

lemma qinv_intro:
  assumes "alloc_inv (q_alloc (queue s)) (q_pending (queue s)) (w_pc s) (r_pc s) (c_cancels s) (c_shutdown s)"
    "ids_inv (q_alloc (queue s)) (q_jobs (queue s)) (q_heap (queue s))"
    "threads_inv (q_workers (queue s)) (q_nextResume (queue s)) (w_pc s) (r_pc s)"
    "place_inv (q_pending (queue s)) (w_pc s) (r_pc s) (g_place s)"
    "run_inv (q_alloc (queue s)) (q_heap (queue s)) (w_pc s)"
    "job_inv (q_alloc (queue s)) (q_heap (queue s))"
    "claim_inv (q_claimExecution (queue s)) (q_heap (queue s)) (w_pc s) (g_granted s)"
    "serial_inv (q_heap (queue s)) (w_pc s)"
    "target_inv (q_targets (queue s)) (q_entries (queue s)) (q_nextEntry (queue s)) (w_pc s)"
  shows "qinv s"
  using assms by (simp add: qinv_def Let_def)

text \<open>A step keeps the invariant, and what every section keeps of a job.\<close>

definition evolve :: "JobQueue \<Rightarrow> JobQueue \<Rightarrow> bool" where
  "evolve q q' \<longleftrightarrow> q_alloc q \<le> q_alloc q' \<and> (\<forall>p<q_alloc q. keeps (q_heap q p) (q_heap q' p))"

definition good :: "qsys \<Rightarrow> qsys \<Rightarrow> bool" where
  "good s t \<longleftrightarrow> qinv t \<and> evolve (queue s) (queue t)"

lemma evolve_refl [simp]: "evolve q q" by (simp add: evolve_def)

lemma evolve_trans: "evolve a b \<Longrightarrow> evolve b c \<Longrightarrow> evolve a c"
  unfolding evolve_def using keeps_trans by (meson order.trans order.strict_trans2)

lemma evolve_frame: "frame p q q' \<Longrightarrow> keeps (q_heap q p) (q_heap q' p) \<Longrightarrow> evolve q q'"
  unfolding evolve_def frame_def by (metis keeps_refl order_refl)

lemma evolve_same: "q_heap q' = q_heap q \<Longrightarrow> q_alloc q' = q_alloc q \<Longrightarrow> evolve q q'"
  by (simp add: evolve_def)

lemma goodI: "qinv t \<Longrightarrow> evolve (queue s) (queue t) \<Longrightarrow> good s t" by (simp add: good_def)

lemma frameD:
  assumes "frame p q q'"
  shows "x \<noteq> p \<Longrightarrow> q_heap q' x = q_heap q x" "q_alloc q' = q_alloc q" "q_jobs q' = q_jobs q"
    "q_pending q' = q_pending q" "q_workers q' = q_workers q" "q_nextResume q' = q_nextResume q"
    "q_claimExecution q' = q_claimExecution q" "q_targets q' = q_targets q" "q_entries q' = q_entries q"
    "q_nextEntry q' = q_nextEntry q"
  using assms by (simp_all add: frame_def)

lemma worker_section_inv:
  assumes I: "qinv s" and mv: "moves (w_pc s w) pc' p" and sec: "owner_section p (queue s) q'"
    and land: "lands pc' p (q_heap q' p) (q_claimExecution (queue s)) G" and G: "set (g_granted s) \<subseteq> set G"
  shows "good s ((set_worker w (q', pc') s)\<lparr>g_granted := G\<rparr>)"
proof -
  note i = qinvD [OF I]
  have fr: "frame p (queue s) q'" and ok: "job_ok (q_heap q' p)" and ke: "keeps (q_heap (queue s) p) (q_heap q' p)"
    using sec by (auto simp: owner_section_def)
  note f = frameD [OF fr]
  have wp: "wjob (w_pc s w) = Some p" using mv by (simp add: moves_def)
  have p: "p < q_alloc (queue s)" using i(1) wjob_ment [OF wp] unfolding alloc_inv_def by blast
  have ww: "w < q_workers (queue s)"
    using i(3) wp unfolding threads_inv_def by (metis linorder_not_le option.distinct(1) wjob.simps(13))
  have id: "j_ID (q_heap q' x) = j_ID (q_heap (queue s) x)" for x using ke f(1) by (cases "x = p") (auto simp: keeps_def)
  have tk: "target_key (q_heap q' x) = target_key (q_heap (queue s) x)" for x
    using target_key_keeps [OF ke] f(1) by (cases "x = p") auto
  note u = place_unique(1) [OF i(4) wp]
  have pc': "wjob pc' = None \<or> wjob pc' = Some p" using mv by (simp add: moves_def)
  show ?thesis
  proof (rule goodI, (rule qinv_intro; simp add: set_worker_def f(2-10)))
    show "alloc_inv (q_alloc (queue s)) (q_pending (queue s)) ((w_pc s)(w := pc')) (r_pc s) (c_cancels s) (c_shutdown s)"
      using mv by (intro alloc_inv_move [OF i(1) _ p]) (simp add: moves_def)
    show "ids_inv (q_alloc (queue s)) (q_jobs (queue s)) (q_heap q')" by (rule ids_inv_heap [OF i(2) id])
    show "threads_inv (q_workers (queue s)) (q_nextResume (queue s)) ((w_pc s)(w := pc')) (r_pc s)"
      by (rule threads_inv_worker [OF i(3) ww])
    show "place_inv (q_pending (queue s)) ((w_pc s)(w := pc')) (r_pc s) (g_place s)"
      by (rule place_inv_move [OF i(4) wp pc'])
    show "run_inv (q_alloc (queue s)) (q_heap q') ((w_pc s)(w := pc'))"
      using land by (intro run_inv_move [OF i(5) wp u f(1) pc']) (auto simp: lands_def)
    show "job_inv (q_alloc (queue s)) (q_heap q')" by (rule job_inv_heap [OF i(6) f(1) ok])
    show "claim_inv (q_claimExecution (queue s)) (q_heap q') ((w_pc s)(w := pc')) G"
      using land by (intro claim_inv_move [OF i(7) u f(1) G pc']) (auto simp: lands_def)
    show "serial_inv (q_heap q') ((w_pc s)(w := pc'))"
      using mv by (intro serial_inv_move [OF i(8) tk]) (simp add: moves_def)
    show "target_inv (q_targets (queue s)) (q_entries (queue s)) (q_nextEntry (queue s)) ((w_pc s)(w := pc'))"
      using mv by (intro target_inv_same [OF i(9)]) (simp_all add: moves_def)
  qed (simp add: set_worker_def evolve_frame [OF fr ke])
qed

lemma worker_section_inv':
  assumes "qinv s" "moves (w_pc s w) pc' p" "owner_section p (queue s) q'"
    "lands pc' p (q_heap q' p) (q_claimExecution (queue s)) (g_granted s)"
  shows "good s (set_worker w (q', pc') s)"
  using worker_section_inv [OF assms order_refl] by (simp add: set_worker_def good_def)

lemma held_job:
  assumes I: "qinv s" and w: "wjob (w_pc s w) = Some p"
  shows "job_ok (q_heap (queue s) p)" "p < q_alloc (queue s)"
    "wcover (w_pc s w) = None \<Longrightarrow> j_State (q_heap (queue s) p) \<noteq> JobStateRunning"
proof -
  note i = qinvD [OF I]
  show p: "p < q_alloc (queue s)" using i(1) wjob_ment [OF w] unfolding alloc_inv_def by blast
  show "job_ok (q_heap (queue s) p)" using i(6) p by (simp add: job_inv_def)
  show "j_State (q_heap (queue s) p) \<noteq> JobStateRunning" if "wcover (w_pc s w) = None"
  proof
    assume "j_State (q_heap (queue s) p) = JobStateRunning"
    then obtain x where x: "wcover (w_pc s x) = Some p" using i(5) p by (auto simp: run_inv_def)
    then have "x = w" using place_unique(1) [OF i(4) w wcover_job] by blast
    then show False using x that by simp
  qed
qed

lemma active_job:
  assumes "qinv s" "wactive (w_pc s w) = Some p"
  shows "j_State (q_heap (queue s) p) = JobStateRunning"
  using qinvD(5) [OF assms(1)] assms(2) by (auto simp: run_inv_def)

lemma claimed_job:
  assumes "qinv s" "wclaimed (w_pc s w) = Some p" "q_claimExecution (queue s)"
  shows "\<exists>c\<in>set (g_granted s). claim_of c (q_heap (queue s) p)"
  using qinvD(7) [OF assms(1)] assms(2,3) by (auto simp: claim_inv_def)

lemma owner_section_refl: "job_ok (q_heap q p) \<Longrightarrow> owner_section p q q"
  by (simp add: owner_section_def)

lemma owner_section_ctx: "owner_section p q q' \<Longrightarrow> owner_section p q (cancel_ctx c q')"
  using frame_trans [OF _ frame_cancel_ctx] by (auto simp: owner_section_def)

lemma goto_after_inv:
  assumes sec: "owner_section p q (fst r)" and st: "j_State (q_heap (fst r) p) \<noteq> JobStateRunning"
    and pc: "wjob pc = Some p" "wtgt pc = t" "whold pc = t" "wserial pc = Some (p, map_option fst t)"
  shows "owner_section p q (fst (goto_after p t att r))" "moves pc (snd (goto_after p t att r)) p"
    "lands (snd (goto_after p t att r)) p (q_heap (fst (goto_after p t att r)) p) c G"
proof -
  obtain q' a where r: "r = (q', a)" by fastforce
  show "owner_section p q (fst (goto_after p t att r))"
    using sec owner_section_ctx by (cases a) (simp_all add: r goto_after_def)
  show "moves pc (snd (goto_after p t att r)) p"
    using pc by (cases a) (simp_all add: r goto_after_def moves_def)
  show "lands (snd (goto_after p t att r)) p (q_heap (fst (goto_after p t att r)) p) c G"
    using st by (cases a) (simp_all add: r goto_after_def lands_def)
qed

lemma step_WBegin:
  assumes I: "qinv s" and pc: "w_pc s w = WBegin p t"
  shows "good s (set_worker w (begin_context p t (queue s)) s)"
proof -
  have w: "wjob (w_pc s w) = Some p" "wcover (w_pc s w) = None" by (simp_all add: pc)
  note h = held_job [OF I w(1)]
  obtain q' pc' where b: "begin_context p t (queue s) = (q', pc')" by fastforce
  have pc': "pc' = WRelease t \<or> (\<exists>c. pc' = WStart p t c)" and hp: "q_heap q' = q_heap (queue s)"
    and fr: "frame p (queue s) q'"
    using b by (auto simp: begin_context_def frame_def cancel_ctx_def Let_def split: if_splits)
  show ?thesis unfolding b
    using pc' h(1) h(3) [OF w(2)] fr
    by (intro worker_section_inv' [OF I, of w pc' p]) (auto simp: pc moves_def lands_def owner_section_def hp)
qed

lemma step_WStart:
  assumes I: "qinv s" and pc: "w_pc s w = WStart p t c"
  shows "good s (set_worker w (begin_start i p t c (queue s)) s)"
proof -
  have w: "wjob (w_pc s w) = Some p" "wcover (w_pc s w) = None" by (simp_all add: pc)
  note h = held_job [OF I w(1)]
  show ?thesis
  proof (cases "start_job (q_claimExecution (queue s)) c (wi_now i) (q_heap (queue s) p)")
    case None
    then have b: "begin_start i p t c (queue s) = (cancel_ctx c (queue s), WRelease t)" by (simp add: begin_start_def)
    show ?thesis unfolding b
      using h(1) h(3) [OF w(2)]
      by (intro worker_section_inv' [OF I, of w _ p] owner_section_ctx owner_section_refl)
        (simp_all add: pc moves_def lands_def)
  next
    case (Some r)
    then obtain att claim j where r: "start_job (q_claimExecution (queue s)) c (wi_now i) (q_heap (queue s) p) = Some (att, claim, j)"
      by (cases r) auto
    note st = start_job_inv [OF h(1) r]
    define pc' where "pc' = (if q_claimExecution (queue s) then WClaim p t att claim else WCheck p t att)"
    have b: "begin_start i p t c (queue s) = (update_job p (\<lambda>_. j) (queue s), pc')"
      using r by (simp add: begin_start_def pc'_def)
    show ?thesis unfolding b
      using st
      by (intro worker_section_inv' [OF I, of w _ p])
        (auto simp: pc pc'_def moves_def lands_def owner_section_def claim_of_def)
  qed
qed

lemma step_WClaim:
  assumes I: "qinv s" and pc: "w_pc s w = WClaim p t att claim"
    and G: "G = (if ec_TenantID claim \<noteq> [] \<and> wi_err i = None then claim # g_granted s else g_granted s)"
  shows "good s ((set_worker w (begin_claim i p t att claim (queue s)) s)\<lparr>g_granted := G\<rparr>)"
proof -
  have w: "wjob (w_pc s w) = Some p" "wactive (w_pc s w) = Some p" "wclaim (w_pc s w) = Some (p, att, claim)"
    by (simp_all add: pc)
  note h = held_job(1) [OF I w(1)] and run = active_job [OF I w(2)]
  have cl: "att_ok att (q_heap (queue s) p)" "claim_of claim (q_heap (queue s) p)"
    using qinvD(7) [OF I] w(3) by (auto simp: claim_inv_def)
  have G': "set (g_granted s) \<subseteq> set G" by (auto simp: G)
  have err: "good s ((set_worker w (goto_after p t att (handleExecutionClaimError p att e (wi_now i) (queue s))) s)\<lparr>g_granted := G\<rparr>)" for e
  proof -
    define r where "r = handleExecutionClaimError p att e (wi_now i) (queue s)"
    have "unclaimed p (queue s) r" using handleExecutionClaimError_unclaimed [OF h run cl(1)] by (simp add: r_def)
    then have "owner_section p (queue s) (fst r)" "j_State (q_heap (fst r) p) \<noteq> JobStateRunning"
      by (simp_all add: unclaimed_def)
    from goto_after_inv [OF this, of "WClaim p t att claim" t att] show ?thesis
      unfolding r_def [symmetric] using worker_section_inv [OF I _ _ _ G'] by (cases "goto_after p t att r") (simp add: pc)
  qed
  show ?thesis
  proof (cases "ec_TenantID claim \<noteq> [] \<and> wi_err i = None")
    case True
    then have b: "begin_claim i p t att claim (queue s) = (update_job p claim_won (queue s), WCheck p t att)"
      by (simp add: begin_claim_def)
    have "job_ok (claim_won (q_heap (queue s) p))" "keeps (q_heap (queue s) p) (claim_won (q_heap (queue s) p))"
      using h by (simp_all add: claim_won_def keeps_flags)
    moreover have "claim_of claim (claim_won (q_heap (queue s) p))" "claim \<in> set G"
      using cl(2) True by (simp_all add: claim_of_def claim_won_def G)
    ultimately show ?thesis unfolding b
      using run by (intro worker_section_inv [OF I _ _ _ G', of w _ p])
        (auto simp: pc moves_def lands_def owner_section_def claim_won_def)
  next
    case False
    then show ?thesis using err by (cases "wi_err i") (auto simp: begin_claim_def)
  qed
qed

text \<open>Steps between sections leave the job as it is.\<close>

lemma same_job_section:
  assumes I: "qinv s" and w: "wactive (w_pc s w) = Some p" "wclaim (w_pc s w) = None"
    and q': "frame p (queue s) q'" "q_heap q' p = f (q_heap (queue s) p)" "job_ok (f (q_heap (queue s) p))"
      "keeps (q_heap (queue s) p) (f (q_heap (queue s) p))" "outside (q_heap (queue s) p) (f (q_heap (queue s) p))"
    and mv: "moves (w_pc s w) pc' p" and cov: "wcover pc' = Some p" and cl: "wclaim pc' = None"
  shows "good s (set_worker w (q', pc') s)"
proof -
  note run = active_job [OF I w(1)]
  have run': "j_State (q_heap q' p) = JobStateRunning" "j_StartedAt (q_heap q' p) = j_StartedAt (q_heap (queue s) p)"
    using q'(2,5) run by (auto simp: outside_def)
  have "wclaimed (w_pc s w) = Some p" using w by (cases "w_pc s w") simp_all
  then have "\<exists>c\<in>set (g_granted s). claim_of c (q_heap q' p)" if "q_claimExecution (queue s)"
    using claimed_job [OF I _ that] run' q'(2,4) by (auto simp: claim_of_def keeps_def)
  then show ?thesis
    using run' q' cov cl by (intro worker_section_inv' [OF I mv]) (auto simp: owner_section_def lands_def)
qed

lemma step_WCheck:
  assumes I: "qinv s" and pc: "w_pc s w = WCheck p t att"
  shows "good s (set_worker w (begin_check p t att (queue s)) s)"
proof -
  define q1 where "q1 = (queue s)\<lparr>q_defers := clearExecutionDefer (j_ID (q_heap (queue s) p)) (q_defers (queue s))\<rparr>"
  have w: "wactive (w_pc s w) = Some p" "wclaim (w_pc s w) = None" "wjob (w_pc s w) = Some p" by (simp_all add: pc)
  note h = held_job(1) [OF I w(3)]
  have fr: "frame p (queue s) q1" "frame p (queue s) (cancel_ctx c q1)" "q_heap q1 = q_heap (queue s)" for c
    using frame_trans [OF frame_defers(1) frame_cancel_ctx] by (simp_all add: q1_def)
  show ?thesis
  proof (cases "jobCancellation (queue s) (q_heap (queue s) p) (at_ctx att)")
    case None
    then have b: "begin_check p t att (queue s) = (q1, WRun p t att)" by (simp add: begin_check_def q1_def)
    show ?thesis unfolding b
      by (rule same_job_section [OF I w(1,2), where f = "\<lambda>j. j"]) (simp_all add: fr h pc moves_def)
  next
    case (Some r)
    then have b: "begin_check p t att (queue s) = (cancel_ctx (at_ctx att) q1, WCancel p t att r)"
      by (simp add: begin_check_def q1_def)
    show ?thesis unfolding b
      by (rule same_job_section [OF I w(1,2), where f = "\<lambda>j. j"]) (simp_all add: fr h pc moves_def)
  qed
qed

lemma step_WRun:
  assumes I: "qinv s" and pc: "w_pc s w = WRun p t att"
  shows "good s (set_worker w (run_handler i p t att (queue s)) s)"
proof -
  have w: "wactive (w_pc s w) = Some p" "wclaim (w_pc s w) = None" "wjob (w_pc s w) = Some p" by (simp_all add: pc)
  note h = held_job(1) [OF I w(3)]
  show ?thesis
  proof (cases "getHandler (j_Type (q_heap (queue s) p)) (queue s)")
    case True
    obtain m where b: "run_handler i p t att (queue s) =
        (update_job p (addLogUnlessRecent (wi_now i) ''info'' m) (queue s), WHandler p t att)"
      using True by (simp add: run_handler_def)
    show ?thesis unfolding b
      using addLogUnlessRecent_inv [OF h, of "wi_now i" "''info''" m]
      by (intro same_job_section [OF I w(1,2)]) (simp_all add: pc moves_def)
  next
    case False
    obtain m where b: "run_handler i p t att (queue s) =
        (cancel_ctx (at_ctx att) (failJob p m (wi_now i) (queue s)), WRelease t)"
      using False by (simp add: run_handler_def)
    have "j_State (q_heap (failJob p m (wi_now i) (queue s)) p) \<noteq> JobStateRunning"
      using failJob_inv(2) [OF h, of m "wi_now i"] by auto
    then show ?thesis unfolding b
      using failJob_inv(1) [OF h]
      by (intro worker_section_inv' [OF I, of w _ p] owner_section_ctx) (simp_all add: pc moves_def lands_def)
  qed
qed

lemma step_WHandler:
  assumes I: "qinv s" and pc: "w_pc s w = WHandler p t att"
  shows "good s (set_worker w (queue s, WFinish p t att e) s)"
  using held_job(1) [OF I, of w p]
  by (intro same_job_section [OF I, where f = "\<lambda>j. j"]) (simp_all add: pc moves_def)

lemma step_WFinish:
  assumes I: "qinv s" and pc: "w_pc s w = WFinish p t att e"
  shows "good s (set_worker w (finish_check p t att e (queue s)) s)"
proof -
  have h: "job_ok (q_heap (queue s) p)" using held_job(1) [OF I, of w p] by (simp add: pc)
  show ?thesis
  proof (cases "jobCancellation (queue s) (q_heap (queue s) p) (at_ctx att)")
    case None
    then have b: "finish_check p t att e (queue s) = (queue s, WSettle p t att e)" by (simp add: finish_check_def)
    show ?thesis unfolding b
      by (rule same_job_section [OF I, of w p "queue s" "\<lambda>j. j"]) (simp_all add: h pc moves_def)
  next
    case (Some r)
    then have b: "finish_check p t att e (queue s) = (queue s, WCancel p t att r)" by (simp add: finish_check_def)
    show ?thesis unfolding b
      by (rule same_job_section [OF I, of w p "queue s" "\<lambda>j. j"]) (simp_all add: h pc moves_def)
  qed
qed

lemma step_WSettle:
  assumes I: "qinv s" and pc: "w_pc s w = WSettle p t att e"
  shows "good s (set_worker w (goto_after p t att (settleJobExecution p e now (queue s))) s)"
proof -
  have w: "wactive (w_pc s w) = Some p" "wjob (w_pc s w) = Some p" by (simp_all add: pc)
  define r where "r = settleJobExecution p e now (queue s)"
  have "settled p (queue s) r"
    using settleJobExecution_settled [OF held_job(1) [OF I w(2)] active_job [OF I w(1)]] by (simp add: r_def)
  then have "owner_section p (queue s) (fst r)" "j_State (q_heap (fst r) p) \<noteq> JobStateRunning"
    by (auto simp: settled_def split: after.splits)
  from goto_after_inv [OF this, of "WSettle p t att e" t att] show ?thesis
    unfolding r_def [symmetric] using worker_section_inv' [OF I] by (cases "goto_after p t att r") (simp add: pc)
qed

lemma step_WCancel:
  assumes I: "qinv s" and pc: "w_pc s w = WCancel p t att r"
  shows "good s (set_worker w (cancel_ctx (at_ctx att) (cancelJobInternal p r now (queue s)), WRelease t) s)"
proof -
  have h: "job_ok (q_heap (queue s) p)" using held_job(1) [OF I, of w p] by (simp add: pc)
  have "j_State (q_heap (cancelJobInternal p r now (queue s)) p) \<noteq> JobStateRunning"
    using cancelJobInternal_inv(2) [OF h, of r now] by auto
  then show ?thesis
    using cancelJobInternal_inv(1) [OF h]
    by (intro worker_section_inv' [OF I, of w _ p] owner_section_ctx) (simp_all add: pc moves_def lands_def)
qed

subsection \<open>A worker's steps outside an execution\<close>

lemma quiet_run_inv:
  assumes I: "run_inv n h wp" and w: "wcover (wp w) = None" and pc': "wcover pc' = None"
  shows "run_inv n h (wp(w := pc'))"
  unfolding run_inv_def
proof (intro conjI allI impI)
  fix x y assume "wactive ((wp(w := pc')) x) = Some y"
  then show "j_State (h y) = JobStateRunning"
    using I pc' wactive_cover by (cases "x = w") (fastforce simp: run_inv_def)+
next
  fix y assume "y < n" "j_State (h y) = JobStateRunning"
  then obtain x where x: "wcover (wp x) = Some y" using I by (auto simp: run_inv_def)
  then have "x \<noteq> w" using w by auto
  then show "\<exists>x. wcover ((wp(w := pc')) x) = Some y" using x by (intro exI [of _ x]) simp
qed

lemma quiet_claim_inv:
  assumes I: "claim_inv c h wp G" and pc': "wcover pc' = None"
  shows "claim_inv c h (wp(w := pc')) G"
proof -
  have "wclaim pc' = None" "wclaimed pc' = None" using pc' by (cases pc'; simp)+
  then show ?thesis using I by (auto simp: claim_inv_def)
qed

definition same_jobs :: "JobQueue \<Rightarrow> JobQueue \<Rightarrow> bool" where
  "same_jobs q q' \<longleftrightarrow> q_heap q' = q_heap q \<and> q_alloc q' = q_alloc q \<and> q_jobs q' = q_jobs q \<and>
     q_pending q' = q_pending q \<and> q_workers q' = q_workers q \<and> q_nextResume q' = q_nextResume q \<and>
     q_claimExecution q' = q_claimExecution q"

lemma quiet_step_inv:
  assumes I: "qinv s" and w: "w < q_workers (queue s)" and same: "same_jobs (queue s) q'"
    and cov: "wcover (w_pc s w) = None" "wcover pc' = None"
    and job: "wjob pc' = None \<or> wjob pc' = wjob (w_pc s w)" and ment: "wment pc' = wjob pc'"
    and ser: "\<And>p k. wserial pc' = Some (p, k) \<Longrightarrow> k = target_key (q_heap (queue s) p)"
    and tgt: "target_inv (q_targets q') (q_entries q') (q_nextEntry q') ((w_pc s)(w := pc'))"
  shows "good s (set_worker w (q', pc') s)"
proof -
  note i = qinvD [OF I]
  have m: "wment pc' = Some p \<Longrightarrow> p < q_alloc (queue s)" for p
    using held_job(2) [OF I] job ment by (metis option.distinct(1))
  show ?thesis
  proof (rule goodI, (rule qinv_intro; simp add: set_worker_def same [unfolded same_jobs_def]))
    show "alloc_inv (q_alloc (queue s)) (q_pending (queue s)) ((w_pc s)(w := pc')) (r_pc s) (c_cancels s) (c_shutdown s)"
      using i(1) m by (auto simp: alloc_inv_def)
    show "threads_inv (q_workers (queue s)) (q_nextResume (queue s)) ((w_pc s)(w := pc')) (r_pc s)"
      by (rule threads_inv_worker [OF i(3) w])
    show "place_inv (q_pending (queue s)) ((w_pc s)(w := pc')) (r_pc s) (g_place s)"
      using i(4) job by (auto simp: place_inv_def)
    show "serial_inv (q_heap (queue s)) ((w_pc s)(w := pc'))" using i(8) ser by (auto simp: serial_inv_def)
    show "ids_inv (q_alloc (queue s)) (q_jobs (queue s)) (q_heap (queue s))" by (rule i(2))
    show "run_inv (q_alloc (queue s)) (q_heap (queue s)) ((w_pc s)(w := pc'))" by (rule quiet_run_inv [OF i(5) cov])
    show "job_inv (q_alloc (queue s)) (q_heap (queue s))" by (rule i(6))
    show "claim_inv (q_claimExecution (queue s)) (q_heap (queue s)) ((w_pc s)(w := pc')) (g_granted s)"
      by (rule quiet_claim_inv [OF i(7) cov(2)])
  qed (rule tgt, use same in \<open>simp add: set_worker_def same_jobs_def evolve_same\<close>)
qed

lemma same_jobs_refl [simp]: "same_jobs q q" by (simp add: same_jobs_def)

lemma same_jobs_set_token [simp]: "same_jobs q (set_token e b q)" by (simp add: same_jobs_def set_token_def)

lemma same_jobs_release [simp]: "same_jobs q (releaseTargetExecutionRef key e q)"
  by (simp add: same_jobs_def releaseTargetExecutionRef_def Let_def)

lemma same_jobs_acquire: "acquire_entry key q = (e, q') \<Longrightarrow> same_jobs q q'"
  by (auto simp: acquire_entry_def same_jobs_def split: option.splits)

lemma step_WAcquire:
  assumes I: "qinv s" and w: "w < q_workers (queue s)" and pc: "w_pc s w = WAcquire p"
  shows "good s (set_worker w (acquireTargetExecution p (queue s)) s)"
proof -
  note i = qinvD [OF I]
  show ?thesis
  proof (cases "target_key (q_heap (queue s) p)")
    case None
    then have b: "acquireTargetExecution p (queue s) = (queue s, WBegin p None)" by (simp add: acquireTargetExecution_def)
    show ?thesis unfolding b
      using None by (intro quiet_step_inv [OF I w] target_inv_same [OF i(9)]) (auto simp: pc)
  next
    case (Some key)
    obtain e q' where a: "acquire_entry key (queue s) = (e, q')" by fastforce
    have b: "acquireTargetExecution p (queue s) = (q', WWaitToken p key e)"
      using Some a by (simp add: acquireTargetExecution_def)
    show ?thesis unfolding b
      using Some same_jobs_acquire [OF a]
      by (intro quiet_step_inv [OF I w] target_inv_acquire [OF i(9) finite_refs [OF i(3)] _ a]) (auto simp: pc)
  qed
qed

lemma step_WWaitToken:
  assumes I: "qinv s" and w: "w < q_workers (queue s)" and pc: "w_pc s w = WWaitToken p key e"
    and r: "await_token i p key e (queue s) = Some r"
  shows "good s (set_worker w r s)"
proof -
  note i = qinvD [OF I]
  have ser: "Some key = target_key (q_heap (queue s) p)" using i(8) pc unfolding serial_inv_def by (metis fst_conv option.map(2) wjob.simps(2) wserial.simps(4) wtgt.simps(1))
  consider (stop) "r = (releaseTargetExecutionRef key e (queue s), WIdle)"
    | (take) "r = (set_token e False (queue s), WBegin p (Some (key, e)))" "te_token (q_entries (queue s) e)"
    using r by (auto simp: await_token_def split: if_splits)
  then show ?thesis
  proof cases
    case stop
    show ?thesis unfolding stop
      by (intro quiet_step_inv [OF I w] target_inv_unref [OF i(9) finite_refs [OF i(3)], where key = key and e = e])
        (auto simp: pc)
  next
    case take
    have "target_inv (q_targets (queue s)) ((q_entries (queue s))(e := (q_entries (queue s) e)\<lparr>te_token := \<not> True\<rparr>))
        (q_nextEntry (queue s)) ((w_pc s)(w := WBegin p (Some (key, e))))"
      using take(2) by (intro target_inv_token [OF i(9), where key = key]) (simp_all add: pc)
    then show ?thesis unfolding take(1)
      using ser by (intro quiet_step_inv [OF I w]) (auto simp: pc set_token_def same_jobs_def)
  qed
qed

lemma step_WRelease:
  assumes I: "qinv s" and w: "w < q_workers (queue s)" and pc: "w_pc s w = WRelease t"
  shows "good s (set_worker w (release_target t (queue s)) s)"
proof (cases t)
  case None
  then have b: "release_target t (queue s) = (queue s, WIdle)" by (simp add: release_target_def)
  show ?thesis unfolding b
    by (intro quiet_step_inv [OF I w] target_inv_same [OF qinvD(9) [OF I]]) (auto simp: pc None)
next
  case (Some x)
  obtain key e where x: "x = (key, e)" by fastforce
  note i = qinvD [OF I]
  have b: "release_target t (queue s) = (set_token e True (queue s), WUnref key e)"
    by (simp add: release_target_def Some x)
  have "whold (w_pc s w) = Some (key, e)" "wtgt (w_pc s w) = Some (key, e)" by (simp_all add: pc Some x)
  then have tok: "te_token (q_entries (queue s) e) = False" using target_invD(1,5) [OF i(9)] by metis
  have "target_inv (q_targets (queue s)) ((q_entries (queue s))(e := (q_entries (queue s) e)\<lparr>te_token := \<not> False\<rparr>))
      (q_nextEntry (queue s)) ((w_pc s)(w := WUnref key e))"
    using tok by (intro target_inv_token [OF i(9), where key = key]) (simp_all add: pc Some x)
  then show ?thesis unfolding b
    by (intro quiet_step_inv [OF I w]) (auto simp: pc set_token_def same_jobs_def)
qed

lemma step_WUnref:
  assumes I: "qinv s" and w: "w < q_workers (queue s)" and pc: "w_pc s w = WUnref key e"
  shows "good s (set_worker w (releaseTargetExecutionRef key e (queue s), WIdle) s)"
  using qinvD [OF I]
  by (intro quiet_step_inv [OF I w] target_inv_unref [OF _ finite_refs, where key = key and e = e]) (auto simp: pc)

subsection \<open>Handing jobs between channel, workers and timers\<close>

lemma step_WIdle:
  assumes I: "qinv s" and w: "w < q_workers (queue s)" and pc: "w_pc s w = WIdle"
    and t: "worker_step i w s WIdle = Some t"
  shows "good s t"
proof -
  note i = qinvD [OF I]
  consider (off) "t = set_worker w (queue s, WOff) s"
    | (take) p ps where "q_pending (queue s) = p # ps"
        "t = set_place p (AtWorker w) (set_worker w ((queue s)\<lparr>q_pending := ps\<rparr>, WAcquire p) s)"
    using t by (auto simp: worker_idle_def split: if_splits list.splits)
  then show ?thesis
  proof cases
    case off
    show ?thesis unfolding off
      by (intro quiet_step_inv [OF I w] target_inv_same [OF i(9)]) (auto simp: pc)
  next
    case take
    have pl: "distinct (p # ps)" "g_place s p = InPending" "\<And>x. x \<in> set ps \<Longrightarrow> g_place s x = InPending"
      using i(4) take(1) by (auto simp: place_inv_def)
    have nw: "wjob (w_pc s x) \<noteq> Some p" "rjob (r_pc s y) \<noteq> Some p" for x y
      using i(4) pl(2) unfolding place_inv_def by (metis place.distinct)+
    show ?thesis unfolding take(2)
    proof (rule goodI, (rule qinv_intro; simp add: set_place_def set_worker_def))
      show "alloc_inv (q_alloc (queue s)) ps ((w_pc s)(w := WAcquire p)) (r_pc s) (c_cancels s) (c_shutdown s)"
        using i(1) take(1) by (auto simp: alloc_inv_def)
      show "place_inv ps ((w_pc s)(w := WAcquire p)) (r_pc s) ((g_place s)(p := AtWorker w))"
        using i(4) pl nw by (auto simp: place_inv_def)
      show "target_inv (q_targets (queue s)) (q_entries (queue s)) (q_nextEntry (queue s)) ((w_pc s)(w := WAcquire p))"
        by (rule target_inv_same [OF i(9)]) (simp_all add: pc)
      show "serial_inv (q_heap (queue s)) ((w_pc s)(w := WAcquire p))" using i(8) by (auto simp: serial_inv_def)
      show "claim_inv (q_claimExecution (queue s)) (q_heap (queue s)) ((w_pc s)(w := WAcquire p)) (g_granted s)"
        by (rule quiet_claim_inv [OF i(7)]) simp
      show "run_inv (q_alloc (queue s)) (q_heap (queue s)) ((w_pc s)(w := WAcquire p))"
        by (rule quiet_run_inv [OF i(5)]) (simp_all add: pc)
      show "threads_inv (q_workers (queue s)) (q_nextResume (queue s)) ((w_pc s)(w := WAcquire p)) (r_pc s)"
        by (rule threads_inv_worker [OF i(3) w])
    qed (rule i(2), rule i(6), simp add: set_place_def set_worker_def evolve_same)
  qed
qed

lemma step_WSchedule:
  assumes I: "qinv s" and w: "w < q_workers (queue s)" and pc: "w_pc s w = WSchedule p t att d b"
  shows "good s (schedule_step w p t att d b s)"
proof -
  note i = qinvD [OF I]
  have wp: "wjob (w_pc s w) = Some p" "wcover (w_pc s w) = None" by (simp_all add: pc)
  note h = held_job [OF I wp(1)]
  show ?thesis
  proof (cases "q_resumesClosed (queue s)")
    case True
    then have b: "schedule_step w p t att d b s = set_worker w (cancel_ctx (at_ctx att) (queue s), WRelease t) s"
      by (simp add: schedule_step_def scheduleResume_def)
    show ?thesis unfolding b
      using h(1) h(3) [OF wp(2)]
      by (intro worker_section_inv' [OF I, of w _ p] owner_section_ctx owner_section_refl)
        (simp_all add: pc moves_def lands_def)
  next
    case False
    define n where "n = q_nextResume (queue s)"
    define pc' where "pc' = (if b then WRecheck p t att n else WRelease t)"
    have pc': "wcover pc' = None" "wjob pc' = None" "wtgt pc' = t" "whold pc' = t" "wserial pc' = None"
      "wment pc' = None \<or> wment pc' = Some p"
      by (simp_all add: pc'_def)
    obtain q' where q': "schedule_step w p t att d b s =
        set_place p (AtResume n) ((set_worker w (q', pc') s)\<lparr>r_pc := (r_pc s)(n := RStart p d)\<rparr>)"
      and sm: "q_heap q' = q_heap (queue s)" "q_alloc q' = q_alloc (queue s)" "q_jobs q' = q_jobs (queue s)"
        "q_pending q' = q_pending (queue s)" "q_workers q' = q_workers (queue s)" "q_nextResume q' = Suc n"
        "q_claimExecution q' = q_claimExecution (queue s)" "q_targets q' = q_targets (queue s)"
        "q_entries q' = q_entries (queue s)" "q_nextEntry q' = q_nextEntry (queue s)"
      using that False
      by (cases b; simp add: schedule_step_def scheduleResume_def Let_def pc'_def n_def cancel_ctx_def cancel_schedule_def split: option.splits)
    have off: "r_pc s n = ROff" using i(3) by (simp add: threads_inv_def n_def)
    have "g_place s p = AtWorker w" using i(4) wp(1) by (simp add: place_inv_def)
    then have np: "p \<notin> set (q_pending (queue s))" "rjob (r_pc s y) \<noteq> Some p" for y
      using place_unique [OF i(4) wp(1)] by blast+
    show ?thesis unfolding q'
    proof (rule goodI, (rule qinv_intro; simp add: set_place_def set_worker_def sm))
      show "alloc_inv (q_alloc (queue s)) (q_pending (queue s)) ((w_pc s)(w := pc')) ((r_pc s)(n := RStart p d)) (c_cancels s) (c_shutdown s)"
        using i(1) pc' h(2) by (auto simp: alloc_inv_def)
      show "threads_inv (q_workers (queue s)) (Suc n) ((w_pc s)(w := pc')) ((r_pc s)(n := RStart p d))"
        using i(3) w by (auto simp: threads_inv_def n_def)
      show "place_inv (q_pending (queue s)) ((w_pc s)(w := pc')) ((r_pc s)(n := RStart p d)) ((g_place s)(p := AtResume n))"
        using i(4) pc'(2) np place_unique(1) [OF i(4) wp(1)] by (auto simp: place_inv_def)
      show "run_inv (q_alloc (queue s)) (q_heap (queue s)) ((w_pc s)(w := pc'))"
        by (rule quiet_run_inv [OF i(5) wp(2) pc'(1)])
      show "claim_inv (q_claimExecution (queue s)) (q_heap (queue s)) ((w_pc s)(w := pc')) (g_granted s)"
        by (rule quiet_claim_inv [OF i(7) pc'(1)])
      show "serial_inv (q_heap (queue s)) ((w_pc s)(w := pc'))" using i(8) pc'(5) by (auto simp: serial_inv_def)
      show "target_inv (q_targets (queue s)) (q_entries (queue s)) (q_nextEntry (queue s)) ((w_pc s)(w := pc'))"
        by (rule target_inv_same [OF i(9)]) (simp_all add: pc pc')
    qed (rule i(2), rule i(6), simp add: set_place_def set_worker_def evolve_same sm)
  qed
qed

lemma step_WRecheck:
  assumes I: "qinv s" and w: "w < q_workers (queue s)" and pc: "w_pc s w = WRecheck p t att n"
  shows "good s (set_worker w (cancel_ctx c (recheck_step p n (queue s)), WRelease t) s)"
proof -
  have "same_jobs (queue s) (cancel_ctx c (recheck_step p n (queue s)))"
    by (auto simp: same_jobs_def cancel_ctx_def recheck_step_def cancelResumeSchedule_def cancel_schedule_def)
  moreover have "q_targets (cancel_ctx c (recheck_step p n (queue s))) = q_targets (queue s)"
    "q_entries (cancel_ctx c (recheck_step p n (queue s))) = q_entries (queue s)"
    "q_nextEntry (cancel_ctx c (recheck_step p n (queue s))) = q_nextEntry (queue s)"
    by (auto simp: cancel_ctx_def recheck_step_def cancelResumeSchedule_def cancel_schedule_def)
  ultimately show ?thesis
    using target_inv_same [OF qinvD(9) [OF I], of "(w_pc s)(w := WRelease t)"]
    by (intro quiet_step_inv [OF I w]) (auto simp: pc)
qed

lemma worker_step_inv:
  assumes "qinv s" "w < q_workers (queue s)" "worker_step i w s (w_pc s w) = Some t"
  shows "good s t"
proof (cases "w_pc s w")
  case WIdle then show ?thesis using assms step_WIdle by metis
next
  case WWaitToken then show ?thesis using assms step_WWaitToken by fastforce
qed (use assms in \<open>auto intro: step_WAcquire step_WBegin step_WStart step_WClaim step_WCheck step_WRun step_WHandler
       step_WFinish step_WSettle step_WCancel step_WSchedule step_WRecheck step_WRelease step_WUnref\<close>)

subsection \<open>Steps of others on a job\<close>

lemma outside_run_inv:
  assumes I: "run_inv n h wp" and h: "\<And>x. x \<noteq> p \<Longrightarrow> h' x = h x" and o: "outside (h p) (h' p)"
  shows "run_inv n h' wp"
proof -
  have "j_State (h' x) = JobStateRunning \<longleftrightarrow> j_State (h x) = JobStateRunning" for x
    using h o by (cases "x = p") (auto simp: outside_def)
  then show ?thesis using I by (simp add: run_inv_def)
qed

lemma outside_claim_inv:
  assumes I: "claim_inv c h wp G" and r: "run_inv n h wp" and h: "\<And>x. x \<noteq> p \<Longrightarrow> h' x = h x"
    and o: "outside (h p) (h' p)" and k: "keeps (h p) (h' p)"
  shows "claim_inv c h' wp G"
proof -
  have eq: "claim_of cl (h' x) = claim_of cl (h x)" "att_ok att (h' x) = att_ok att (h x)"
    if "wactive (wp w) = Some x" for w x cl att
    using h o k r that by (cases "x = p"; auto simp: outside_def keeps_def claim_of_def att_ok_def run_inv_def)+
  show ?thesis
    unfolding claim_inv_def
  proof (intro conjI allI impI)
    fix w p att cl assume "wclaim (wp w) = Some (p, att, cl)"
    then show "att_ok att (h' p)" "claim_of cl (h' p)"
      using I eq wclaim_active unfolding claim_inv_def by blast+
  next
    fix w p assume "wclaimed (wp w) = Some p" c
    then show "\<exists>cl\<in>set G. claim_of cl (h' p)"
      using I eq wclaimed_active unfolding claim_inv_def by blast
  qed
qed

lemma outside_inv:
  assumes I: "qinv s" and fr: "frame p (queue s) q'" and ok: "job_ok (q_heap q' p)"
    and ke: "keeps (q_heap (queue s) p) (q_heap q' p)" and o: "outside (q_heap (queue s) p) (q_heap q' p)"
    and cs: "\<forall>c\<in>set cs. cc_job c < q_alloc (queue s)" and sh: "\<forall>x\<in>set sh. x < q_alloc (queue s)"
  shows "good s (s\<lparr>queue := q', c_cancels := cs, c_shutdown := sh\<rparr>)"
proof -
  note i = qinvD [OF I] and f = frameD [OF fr]
  have id: "j_ID (q_heap q' x) = j_ID (q_heap (queue s) x)" for x using ke f(1) by (cases "x = p") (auto simp: keeps_def)
  have tk: "target_key (q_heap q' x) = target_key (q_heap (queue s) x)" for x
    using target_key_keeps [OF ke] f(1) by (cases "x = p") auto
  show ?thesis
  proof (rule goodI, (rule qinv_intro; simp add: f(2-10)))
    show "alloc_inv (q_alloc (queue s)) (q_pending (queue s)) (w_pc s) (r_pc s) cs sh"
      using i(1) cs sh by (auto simp: alloc_inv_def)
    show "ids_inv (q_alloc (queue s)) (q_jobs (queue s)) (q_heap q')" by (rule ids_inv_heap [OF i(2) id])
    show "run_inv (q_alloc (queue s)) (q_heap q') (w_pc s)" by (rule outside_run_inv [OF i(5) f(1) o])
    show "job_inv (q_alloc (queue s)) (q_heap q')" by (rule job_inv_heap [OF i(6) f(1) ok])
    show "claim_inv (q_claimExecution (queue s)) (q_heap q') (w_pc s) (g_granted s)"
      by (rule outside_claim_inv [OF i(7) i(5) f(1) o ke])
    show "serial_inv (q_heap q') (w_pc s)" using i(8) tk by (simp add: serial_inv_def)
  qed (rule i(3), rule i(4), rule i(9), simp add: evolve_frame [OF fr ke])
qed

lemma outside_inv':
  assumes "qinv s" "frame p (queue s) q'" "job_ok (q_heap q' p)"
    "keeps (q_heap (queue s) p) (q_heap q' p)" "outside (q_heap (queue s) p) (q_heap q' p)"
  shows "good s (s\<lparr>queue := q'\<rparr>)"
proof -
  have "good s (s\<lparr>queue := q', c_cancels := c_cancels s, c_shutdown := c_shutdown s\<rparr>)"
    using qinvD(1) [OF assms(1)] by (intro outside_inv [OF assms]) (auto simp: alloc_inv_def)
  then show ?thesis by simp
qed

text \<open>Steps that leave the jobs alone.\<close>

definition calm :: "JobQueue \<Rightarrow> JobQueue \<Rightarrow> bool" where
  "calm q q' \<longleftrightarrow> q_heap q' = q_heap q \<and> q_alloc q' = q_alloc q \<and> fmdom (q_jobs q') |\<subseteq>| fmdom (q_jobs q) \<and>
     (\<forall>i p. fmlookup (q_jobs q') i = Some p \<longrightarrow> fmlookup (q_jobs q) i = Some p) \<and> q_pending q' = q_pending q \<and>
     q_workers q' = q_workers q \<and> q_nextResume q' = q_nextResume q \<and> q_claimExecution q' = q_claimExecution q \<and>
     q_targets q' = q_targets q \<and> q_entries q' = q_entries q \<and> q_nextEntry q' = q_nextEntry q"

lemma calm_trans: "calm a b \<Longrightarrow> calm b c \<Longrightarrow> calm a c"
  by (auto simp: calm_def)

lemma calm_refl [simp]: "calm q q" by (simp add: calm_def)

lemma calm_inv:
  assumes I: "qinv s" and c: "calm (queue s) q'"
    and cs: "\<forall>c\<in>set cs. cc_job c < q_alloc (queue s)" and sh: "\<forall>x\<in>set sh. x < q_alloc (queue s)"
  shows "good s (s\<lparr>queue := q', c_cancels := cs, c_shutdown := sh\<rparr>)"
proof -
  note i = qinvD [OF I]
  have f: "q_heap q' = q_heap (queue s)" "q_alloc q' = q_alloc (queue s)" "q_pending q' = q_pending (queue s)"
    "q_workers q' = q_workers (queue s)" "q_nextResume q' = q_nextResume (queue s)"
    "q_claimExecution q' = q_claimExecution (queue s)" "q_targets q' = q_targets (queue s)"
    "q_entries q' = q_entries (queue s)" "q_nextEntry q' = q_nextEntry (queue s)"
    and j: "\<And>x p. fmlookup (q_jobs q') x = Some p \<Longrightarrow> fmlookup (q_jobs (queue s)) x = Some p"
    using c by (simp_all add: calm_def)
  show ?thesis
  proof (rule goodI, (rule qinv_intro; simp add: f))
    show "alloc_inv (q_alloc (queue s)) (q_pending (queue s)) (w_pc s) (r_pc s) cs sh"
      using i(1) cs sh by (auto simp: alloc_inv_def)
    show "ids_inv (q_alloc (queue s)) (q_jobs q') (q_heap (queue s))" using i(2) j by (auto simp: ids_inv_def)
  qed (rule i(3), rule i(4), rule i(5), rule i(6), rule i(7), rule i(8), rule i(9), simp add: evolve_same f)
qed

lemma calm_inv':
  assumes "qinv s" "calm (queue s) q'"
  shows "good s (s\<lparr>queue := q'\<rparr>)"
proof -
  have "good s (s\<lparr>queue := q', c_cancels := c_cancels s, c_shutdown := c_shutdown s\<rparr>)"
    using qinvD(1) [OF assms(1)] by (intro calm_inv [OF assms]) (auto simp: alloc_inv_def)
  then show ?thesis by simp
qed

lemma calm_cancel_ctx [simp]: "calm q (cancel_ctx c q)" by (simp add: calm_def cancel_ctx_def)

lemma calm_cancelResume [simp]: "calm q (cancelResume i q)"
  by (simp add: calm_def cancelResume_def cancel_schedule_def split: option.split)

lemma calm_clearResume [simp]: "calm q (clearResume i n q)" by (simp add: calm_def clearResume_def)

lemma calm_fold: "(\<And>x q. calm q (f x q)) \<Longrightarrow> calm q (fold f xs q)"
  by (induction xs arbitrary: q) (auto intro: calm_trans)

lemma calm_drop: "calm q (drop_job i q)" "calm q (forget_job i q)"
  by (auto simp: calm_def drop_job_def forget_job_def split: if_splits)

lemma calm_cleanup: "cleanupOldJobs order now q = Some q' \<Longrightarrow> calm q q'"
  by (auto simp: cleanupOldJobs_def Let_def split: if_splits
      intro!: calm_trans [OF calm_fold calm_fold] calm_fold calm_drop)

lemma calm_cancelAllResumes: "calm q (cancelAllResumes q)"
proof -
  have "calm q (fold (\<lambda>jobID q. cancelResume jobID q) (sorted_keys (q_resumes q)) q)" by (rule calm_fold) simp
  then show ?thesis by (simp add: cancelAllResumes_def calm_def)
qed

lemma resume_move:
  assumes I: "qinv s" and r: "r_pc s n \<noteq> ROff" and j: "rjob pc' = None \<or> rjob pc' = rjob (r_pc s n)"
    and m: "rment pc' = None \<or> rment pc' = rment (r_pc s n)"
  shows "good s (s\<lparr>r_pc := (r_pc s)(n := pc')\<rparr>)"
proof -
  note i = qinvD [OF I]
  have n: "n < q_nextResume (queue s)" using i(3) r unfolding threads_inv_def by (meson linorder_not_le)
  show ?thesis
  proof (rule goodI, (rule qinv_intro; simp))
    show "alloc_inv (q_alloc (queue s)) (q_pending (queue s)) (w_pc s) ((r_pc s)(n := pc')) (c_cancels s) (c_shutdown s)"
      using i(1) m by (auto simp: alloc_inv_def)
    show "threads_inv (q_workers (queue s)) (q_nextResume (queue s)) (w_pc s) ((r_pc s)(n := pc'))"
      using i(3) n by (auto simp: threads_inv_def)
    show "place_inv (q_pending (queue s)) (w_pc s) ((r_pc s)(n := pc')) (g_place s)"
      using i(4) j by (auto simp: place_inv_def)
  qed (rule i(2), rule i(5), rule i(6), rule i(7), rule i(8), rule i(9), simp add: set_place_def evolve_same)
qed

lemma resume_queue_move:
  assumes q: "good s (s\<lparr>queue := q'\<rparr>)" and r: "r_pc s n \<noteq> ROff"
    and pc: "rjob pc' = None \<or> rjob pc' = rjob (r_pc s n)" "rment pc' = None \<or> rment pc' = rment (r_pc s n)"
  shows "good s (s\<lparr>queue := q', r_pc := (r_pc s)(n := pc')\<rparr>)"
proof -
  have "qinv (s\<lparr>queue := q'\<rparr>)" and ev: "evolve (queue s) q'" using q by (simp_all add: good_def)
  from resume_move [OF this(1), of n pc'] show ?thesis using r pc ev by (simp add: good_def)
qed

lemma resume_send:
  assumes I: "qinv s" and r: "r_pc s n = RSend p"
  shows "good s (set_place p InPending
    (s\<lparr>queue := (queue s)\<lparr>q_pending := q_pending (queue s) @ [p]\<rparr>, r_pc := (r_pc s)(n := RClear p)\<rparr>))"
proof -
  note i = qinvD [OF I]
  have n: "n < q_nextResume (queue s)"
    using i(3) r unfolding threads_inv_def by (metis linorder_not_le rpc.distinct(17))
  have p: "p < q_alloc (queue s)" using i(1) r unfolding alloc_inv_def by (metis rjob.simps(8) rment.simps(11))
  have pl: "g_place s p = AtResume n" using i(4) r by (auto simp: place_inv_def)
  have np: "p \<notin> set (q_pending (queue s))" "wjob (w_pc s x) \<noteq> Some p" for x
    using i(4) pl unfolding place_inv_def by (metis place.distinct)+
  have nr: "y = n" if "rjob (r_pc s y) = Some p" for y
    using i(4) pl that unfolding place_inv_def by (metis place.inject(2))
  show ?thesis
  proof (rule goodI, (rule qinv_intro; simp add: set_place_def))
    show "alloc_inv (q_alloc (queue s)) (q_pending (queue s) @ [p]) (w_pc s) ((r_pc s)(n := RClear p)) (c_cancels s) (c_shutdown s)"
      using i(1) p by (auto simp: alloc_inv_def)
    show "threads_inv (q_workers (queue s)) (q_nextResume (queue s)) (w_pc s) ((r_pc s)(n := RClear p))"
      using i(3) n by (auto simp: threads_inv_def)
    show "place_inv (q_pending (queue s) @ [p]) (w_pc s) ((r_pc s)(n := RClear p)) ((g_place s)(p := InPending))"
      using i(4) np nr by (auto simp: place_inv_def)
  qed (rule i(2), rule i(5), rule i(6), rule i(7), rule i(8), rule i(9), simp add: set_place_def evolve_same)
qed

lemma persist_fence_inv:
  assumes I: "qinv s" and p: "p < q_alloc (queue s)"
  shows "good s (s\<lparr>queue := persist_fence p snap (queue s)\<rparr>)"
proof (rule outside_inv' [OF I])
  have ok: "job_ok (q_heap (queue s) p)" using qinvD(6) [OF I] p by (simp add: job_inv_def)
  show "frame p (queue s) (persist_fence p snap (queue s))" by (simp add: persist_fence_def)
  show "job_ok (q_heap (persist_fence p snap (queue s)) p)" using ok by (simp add: persist_fence_def)
  show "keeps (q_heap (queue s) p) (q_heap (persist_fence p snap (queue s)) p)"
    by (simp add: persist_fence_def keeps_flags)
  show "outside (q_heap (queue s) p) (q_heap (persist_fence p snap (queue s)) p)"
    by (simp add: persist_fence_def outside_def)
qed

text \<open>What a timer's step does to the queue and where it goes.\<close>

lemma resume_step_cases:
  assumes "resume_step i n q pc = Some (q', pc')"
  obtains (same) p where "q' = q" "rment pc = Some p" "rjob pc' = None \<or> rjob pc' = rjob pc" "rment pc' = Some p"
      "\<nexists>x. pc = RSend x \<and> \<not> wi_stop i"
    | (fence) p snap where "pc = RFenced p snap" "q' = persist_fence p snap q" "pc' = RClear p"
    | (send) p where "pc = RSend p" "\<not> wi_stop i" "int (length (q_pending q)) < pending_cap"
        "q' = q\<lparr>q_pending := q_pending q @ [p]\<rparr>" "pc' = RClear p"
    | (clear) p where "pc = RClear p" "q' = clearResume (j_ID (q_heap q p)) n q" "pc' = ROff"
proof (cases pc)
  case (RFenced p snap) then show ?thesis using assms fence by simp
next
  case (RSend p) then show ?thesis using assms send same by (auto split: if_splits)
next
  case (RClear p) then show ?thesis using assms clear by simp
qed (use assms same in \<open>auto simp: persist_begin_def persist_snapshot_def persist_result_def Let_def
       split: if_splits option.splits\<close>)

lemma resume_thread_inv:
  assumes I: "qinv s" and t: "resume_thread i n s = Some t"
  shows "good s t"
proof -
  obtain q' pc' where rs: "resume_step i n (queue s) (r_pc s n) = Some (q', pc')"
    and t': "t = (case r_pc s n of RSend p \<Rightarrow>
        if wi_stop i then s\<lparr>queue := q', r_pc := (r_pc s)(n := pc')\<rparr>
        else set_place p InPending (s\<lparr>queue := q', r_pc := (r_pc s)(n := pc')\<rparr>)
      | _ \<Rightarrow> s\<lparr>queue := q', r_pc := (r_pc s)(n := pc')\<rparr>)"
    using t by (auto simp: resume_thread_def Let_def split: option.splits)
  have off: "r_pc s n \<noteq> ROff" using rs by auto
  have al: "rment (r_pc s n) = Some p \<Longrightarrow> p < q_alloc (queue s)" for p
    using qinvD(1) [OF I] by (auto simp: alloc_inv_def)
  from rs show ?thesis
  proof (cases rule: resume_step_cases)
    case (same p)
    have "t = s\<lparr>queue := queue s, r_pc := (r_pc s)(n := pc')\<rparr>"
      using t' same by (cases "r_pc s n") (auto split: if_splits)
    then show ?thesis using resume_move [OF I off same(3)] same(2,4) by simp
  next
    case (fence p snap)
    have "t = s\<lparr>queue := q', r_pc := (r_pc s)(n := pc')\<rparr>" using t' fence by simp
    then show ?thesis
      using resume_queue_move [OF persist_fence_inv [OF I al] off] fence by simp
  next
    case (send p)
    then show ?thesis using resume_send [OF I send(1)] t' by simp
  next
    case (clear p)
    have "t = s\<lparr>queue := q', r_pc := (r_pc s)(n := pc')\<rparr>" using t' clear by simp
    then show ?thesis using resume_queue_move [OF calm_inv' [OF I] off] clear by simp
  qed
qed

subsection \<open>Enqueueing\<close>

lemma Enqueue_cases:
  assumes "Enqueue job now i q = (r, q')"
  defines "p \<equiv> q_alloc q"
  defines "job1 \<equiv> enqueue_job now i job"
  defines "job2 \<equiv> append_log now ''info'' ''Job queued'' job1"
  obtains (rejected) e jobs job3 where "r = Inl e" "job3 = job1 \<or> job3 = job2"
      "\<And>x y. fmlookup jobs x = Some y \<Longrightarrow> fmlookup (q_jobs q) x = Some y"
      "q' = q\<lparr>q_heap := (q_heap q)(p := job3), q_alloc := Suc p, q_jobs := jobs\<rparr>"
    | (admitted) "r = Inr p" "int (length (q_pending q)) < pending_cap"
      "\<And>e. fmlookup (q_jobs q) (j_ID job1) = Some e \<Longrightarrow> j_suppressPersistence (((q_heap q)(p := job1)) e)"
      "q' = q\<lparr>q_heap := (q_heap q)(p := job2), q_alloc := Suc p, q_jobs := fmupd (j_ID job1) p (q_jobs q),
              q_pending := q_pending q @ [p]\<rparr>"
proof -
  define h1 where "h1 = (q_heap q)(p := job1)"
  define dup where "dup = (case fmlookup (q_jobs q) (j_ID job1) of Some e \<Rightarrow> \<not> j_suppressPersistence (h1 e) | None \<Rightarrow> False)"
  have eq: "Enqueue job now i q =
     (if dup then (Inl (JobAlreadyEnqueued (j_ID job1)), q\<lparr>q_heap := h1, q_alloc := Suc p\<rparr>)
      else if int (length (q_pending q)) < pending_cap
      then (Inr p, q\<lparr>q_heap := (q_heap q)(p := job2), q_alloc := Suc p, q_jobs := fmupd (j_ID job1) p (q_jobs q),
                     q_pending := q_pending q @ [p]\<rparr>)
      else (Inl JobQueueFull, q\<lparr>q_heap := (q_heap q)(p := job2), q_alloc := Suc p,
              q_jobs := fmdrop (j_ID job1) (fmupd (j_ID job1) p (q_jobs q))\<rparr>))"
    unfolding Enqueue_def Let_def dup_def h1_def p_def job1_def job2_def
    by (simp add: addLog_def update_job_def cong: option.case_cong)
  consider "dup" | "\<not> dup" "int (length (q_pending q)) < pending_cap" | "\<not> dup" "\<not> int (length (q_pending q)) < pending_cap" by blast
  then show ?thesis
  proof cases
    case 1
    then show ?thesis using assms(1) rejected [of "JobAlreadyEnqueued (j_ID job1)" job1 "q_jobs q"]
      by (auto simp: eq h1_def)
  next
    case 2
    have "j_suppressPersistence (h1 e)" if "fmlookup (q_jobs q) (j_ID job1) = Some e" for e
      using 2(1) that by (simp add: dup_def)
    then show ?thesis using assms(1) 2 admitted by (auto simp: eq h1_def)
  next
    case 3
    show ?thesis
      by (rule rejected [of JobQueueFull job2 "fmdrop (j_ID job1) (fmupd (j_ID job1) p (q_jobs q))"])
        (use assms(1) 3 in \<open>auto simp: eq split: if_splits\<close>)
  qed
qed

text \<open>A new pointer, which nothing mentions yet.\<close>

lemma fresh_pointer_inv:
  assumes I: "qinv s" and p: "p = q_alloc (queue s)" and ok: "job_ok j" and pend: "j_State j = JobStatePending"
    and jobs: "\<And>x y. fmlookup jobs x = Some y \<Longrightarrow> fmlookup (q_jobs (queue s)) x = Some y \<or> x = j_ID j \<and> y = p"
    and q': "q' = (queue s)\<lparr>q_heap := (q_heap (queue s))(p := j), q_alloc := Suc p, q_jobs := jobs\<rparr>"
  shows "good s (s\<lparr>queue := q'\<rparr>)"
proof -
  note i = qinvD [OF I]
  define h where "h = (q_heap (queue s))(p := j)"
  have hp: "h p = j" by (simp add: h_def)
  have hx: "h x = q_heap (queue s) x" if "x < p" for x using that by (simp add: h_def)
  have lt: "x < p" if "wjob (w_pc s w) = Some x" for x w using held_job(2) [OF I that] p by simp
  have act: "wactive (w_pc s w) = Some x \<Longrightarrow> h x = q_heap (queue s) x" for w x using hx lt wactive_job by blast
  show ?thesis
  proof (rule goodI, (rule qinv_intro; simp add: q' flip: h_def))
    show "alloc_inv (Suc p) (q_pending (queue s)) (w_pc s) (r_pc s) (c_cancels s) (c_shutdown s)"
      using i(1) p unfolding alloc_inv_def by (meson less_SucI)
    show "ids_inv (Suc p) jobs h"
      unfolding ids_inv_def
    proof (intro allI impI)
      fix x y assume "fmlookup jobs x = Some y"
      from jobs [OF this] show "y < Suc p \<and> j_ID (h y) = x"
        using i(2) hx [of y] hp unfolding ids_inv_def p [symmetric] by (auto simp: less_Suc_eq)
    qed
    show "run_inv (Suc p) h (w_pc s)"
      unfolding run_inv_def
    proof (intro conjI allI impI)
      fix w x assume "wactive (w_pc s w) = Some x"
      then show "j_State (h x) = JobStateRunning" using i(5) act by (simp add: run_inv_def)
    next
      fix x assume "x < Suc p" "j_State (h x) = JobStateRunning"
      then show "\<exists>w. wcover (w_pc s w) = Some x" using i(5) p pend hx [of x] by (cases "x = p") (auto simp: run_inv_def h_def)
    qed
    show "job_inv (Suc p) h" using i(6) ok p by (simp add: job_inv_def less_Suc_eq h_def)
    show "claim_inv (q_claimExecution (queue s)) h (w_pc s) (g_granted s)"
      using i(7) act wclaim_active wclaimed_active unfolding claim_inv_def by metis
    show "serial_inv h (w_pc s)"
      using i(8) lt hx wserial_job unfolding serial_inv_def by metis
  qed (rule i(3), rule i(4), rule i(9), simp add: q' p evolve_def)
qed

lemma enqueue_step_inv:
  assumes I: "qinv s" and f: "fresh_job job"
  shows "good s (enqueue_step job now i s)"
proof -
  obtain r q' where e: "Enqueue job now i (queue s) = (r, q')" by fastforce
  define p job1 job2 where "p = q_alloc (queue s)" and "job1 = enqueue_job now i job"
    and "job2 = append_log now ''info'' ''Job queued'' job1"
  have ok: "job_ok job1" "job_ok job2" "j_State job1 = JobStatePending" "j_State job2 = JobStatePending"
    "j_ID job2 = j_ID job1"
    using enqueue_job_ok [OF f] append_log_inv(1) [OF enqueue_job_ok [OF f]]
    by (simp_all add: job1_def job2_def append_log_def enqueue_job_def)
  note i = qinvD [OF I]
  from e show ?thesis
  proof (cases rule: Enqueue_cases)
    case (rejected er jobs job3)
    have "job_ok job3" "j_State job3 = JobStatePending"
      using rejected(2) ok by (auto simp: job1_def [symmetric] job2_def [symmetric])
    from fresh_pointer_inv [OF I refl this, of jobs q'] show ?thesis
      using rejected by (simp add: enqueue_step_def e)
  next
    case admitted
    define q1 where "q1 = (queue s)\<lparr>q_heap := (q_heap (queue s))(p := job2), q_alloc := Suc p,
       q_jobs := fmupd (j_ID job2) p (q_jobs (queue s))\<rparr>"
    have G1: "good s (s\<lparr>queue := q1\<rparr>)"
      by (rule fresh_pointer_inv [OF I p_def ok(2,4) _ q1_def]) (auto split: if_splits)
    then have I1: "qinv (s\<lparr>queue := q1\<rparr>)" by (simp add: good_def)
    note i1 = qinvD [OF I1, simplified]
    have np: "p \<notin> set (q_pending (queue s))" "wjob (w_pc s w) \<noteq> Some p" "rjob (r_pc s n) \<noteq> Some p" for w n
      using i(1) wjob_ment rjob_ment unfolding alloc_inv_def p_def by (blast dest: less_irrefl_nat)+
    have pend: "q_pending q1 = q_pending (queue s)" by (simp add: q1_def)
    have q': "q' = q1\<lparr>q_pending := q_pending (queue s) @ [p]\<rparr>"
      using admitted(4) ok(5) by (simp add: q1_def p_def job2_def job1_def)
    have eq: "enqueue_step job now i s = set_place p InPending (s\<lparr>queue := q'\<rparr>)"
      using admitted(1) by (simp add: enqueue_step_def e p_def)
    show ?thesis unfolding eq
    proof (rule goodI, (rule qinv_intro; simp add: set_place_def q'))
      show "alloc_inv (q_alloc q1) (q_pending (queue s) @ [p]) (w_pc s) (r_pc s) (c_cancels s) (c_shutdown s)"
        using i1(1) unfolding alloc_inv_def pend by (auto simp: q1_def)
      show "place_inv (q_pending (queue s) @ [p]) (w_pc s) (r_pc s) ((g_place s)(p := InPending))"
        using i(4) np by (auto simp: place_inv_def)
    qed (rule i1(2), rule i1(3), rule i1(5), rule i1(6), rule i1(7), rule i1(8), rule i1(9),
        use G1 in \<open>simp add: good_def set_place_def q' evolve_def\<close>)
  qed
qed

subsection \<open>All steps\<close>

lemma known_job:
  assumes I: "qinv s" and p: "p < q_alloc (queue s)"
  shows "job_ok (q_heap (queue s) p)"
  using qinvD(6) [OF I] p by (simp add: job_inv_def)

lemma lookup_job:
  assumes I: "qinv s" and p: "fmlookup (q_jobs (queue s)) i = Some p"
  shows "job_ok (q_heap (queue s) p)" "p < q_alloc (queue s)" "j_ID (q_heap (queue s) p) = i"
  using qinvD(2) [OF I] p known_job [OF I] by (auto simp: ids_inv_def)

lemma cancel_step_inv:
  assumes I: "qinv s" and c: "Cancel_decide jobID now (queue s) = (Inr c, q')"
  shows "good s (s\<lparr>queue := q', c_cancels := c_cancels s @ [c]\<rparr>)"
proof -
  obtain p j' where p: "fmlookup (q_jobs (queue s)) jobID = Some p" and j': "cancel_job now (q_heap (queue s) p) = Some j'"
    and q': "q' = update_job p (\<lambda>_. j') (queue s)" and cc: "cc_job c = p"
    using c by (auto simp: Cancel_decide_def Let_def split: option.splits)
  note l = lookup_job [OF I p] and ci = cancel_job_inv [OF _ j']
  have "good s (s\<lparr>queue := q', c_cancels := c_cancels s @ [c], c_shutdown := c_shutdown s\<rparr>)"
    using ci [OF l(1)] qinvD(1) [OF I] l(2) cc
    by (intro outside_inv [OF I, of p]) (auto simp: q' alloc_inv_def)
  then show ?thesis by simp
qed

lemma cancel_effects_inv:
  assumes I: "qinv s" and k: "k < length (c_cancels s)"
  shows "good s (s\<lparr>queue := Cancel_effects (c_cancels s ! k) now (queue s),
     c_cancels := take k (c_cancels s) @ drop (Suc k) (c_cancels s)\<rparr>)"
proof -
  define c where "c = c_cancels s ! k"
  have al: "\<forall>x\<in>set (c_cancels s). cc_job x < q_alloc (queue s)" "\<forall>x\<in>set (c_shutdown s). x < q_alloc (queue s)"
    using qinvD(1) [OF I] by (auto simp: alloc_inv_def)
  have p: "cc_job c < q_alloc (queue s)" using al(1) k by (simp add: c_def)
  note l = append_log_inv [OF known_job [OF I p]]
  have fr: "frame (cc_job c) (queue s) (Cancel_effects c now (queue s))"
    unfolding Cancel_effects_def by (intro frame_trans [OF frame_cancelResume frame_trans [OF frame_cancel_func frame_addLog]])
  obtain m where h: "q_heap (Cancel_effects c now (queue s)) (cc_job c) =
      append_log now ''warn'' m (q_heap (queue s) (cc_job c))"
    by (simp add: Cancel_effects_def addLog_def)
  have sub: "\<forall>x\<in>set (take k (c_cancels s) @ drop (Suc k) (c_cancels s)). cc_job x < q_alloc (queue s)"
    using al(1) by (auto dest: in_set_takeD in_set_dropD)
  have "good s (s\<lparr>queue := Cancel_effects c now (queue s),
     c_cancels := take k (c_cancels s) @ drop (Suc k) (c_cancels s), c_shutdown := c_shutdown s\<rparr>)"
    by (rule outside_inv [OF I fr _ _ _ sub al(2)]) (unfold h, rule l(1), rule l(2), rule l(3))
  then show ?thesis by (simp add: c_def)
qed

lemma supersede_inv:
  assumes I: "qinv s"
  shows "good s (s\<lparr>queue := snd (SupersedeWaitingJob i t r receipt persist now (queue s))\<rparr>)"
proof (cases "snd (SupersedeWaitingJob i t r receipt persist now (queue s)) = queue s")
  case True
  then show ?thesis using I by (simp add: good_def)
next
  case False
  then obtain p where p: "fmlookup (q_jobs (queue s)) i = Some p" "j_State (q_heap (queue s) p) = JobStateWaiting"
    and q': "snd (SupersedeWaitingJob i t r receipt persist now (queue s)) =
      cancelResume i (update_job p (supersede_job receipt now) (queue s))"
    by (auto simp: SupersedeWaitingJob_def Let_def split: if_splits option.splits)
  note l = lookup_job [OF I p(1)] and si = supersede_job_inv [OF _ p(2)]
  show ?thesis unfolding q'
    using si [OF l(1)] frame_trans [OF frame_update_job frame_cancelResume] by (intro outside_inv' [OF I, of p]) simp_all
qed

lemma detach_inv:
  assumes I: "qinv s"
  shows "good s (s\<lparr>queue := snd (DetachFencedExecutionIfUnchanged i observed reason (queue s))\<rparr>)"
proof (cases "snd (DetachFencedExecutionIfUnchanged i observed reason (queue s)) = queue s")
  case True
  then show ?thesis using I by (simp add: good_def)
next
  case False
  then obtain p j' where p: "fmlookup (q_jobs (queue s)) i = Some p"
    and j': "detach_job observed reason (q_heap (queue s) p) = Some j'"
    and q': "snd (DetachFencedExecutionIfUnchanged i observed reason (queue s)) = update_job p (\<lambda>_. j') (queue s) \<or>
      snd (DetachFencedExecutionIfUnchanged i observed reason (queue s)) =
        cancel_func (j_cancelFunc (q_heap (queue s) p)) (update_job p (\<lambda>_. j') (queue s))"
    by (auto simp: DetachFencedExecutionIfUnchanged_def Let_def split: if_splits option.splits)
  note di = detach_job_inv [OF lookup_job(1) [OF I p] j']
  from q' show ?thesis
  proof
    assume q': "snd (DetachFencedExecutionIfUnchanged i observed reason (queue s)) = update_job p (\<lambda>_. j') (queue s)"
    show ?thesis unfolding q' using di by (intro outside_inv' [OF I, of p]) simp_all
  next
    assume q': "snd (DetachFencedExecutionIfUnchanged i observed reason (queue s)) =
        cancel_func (j_cancelFunc (q_heap (queue s) p)) (update_job p (\<lambda>_. j') (queue s))"
    show ?thesis unfolding q'
      using di frame_trans [OF frame_update_job frame_cancel_func] by (intro outside_inv' [OF I, of p]) simp_all
  qed
qed

lemma progress_inv:
  assumes I: "qinv s"
  shows "good s (s\<lparr>queue := UpdateProgress i n m now (queue s)\<rparr>)"
proof (cases "fmlookup (q_jobs (queue s)) i")
  case None
  then show ?thesis using I by (simp add: UpdateProgress_def good_def)
next
  case (Some p)
  note pr = progress_job_inv [OF lookup_job(1) [OF I Some], of n m]
  note lg = addLogUnlessRecent_inv [OF pr(1), of now "''info''" m]
  define q1 where "q1 = update_job p (progress_job n m) (queue s)"
  define q2 where "q2 = update_job p (addLogUnlessRecent now ''info'' m) q1"
  have g1: "good s (s\<lparr>queue := q1\<rparr>)"
    unfolding q1_def using pr by (intro outside_inv' [OF I, of p]) simp_all
  then have "qinv (s\<lparr>queue := q1\<rparr>)" by (simp add: good_def)
  from outside_inv' [OF this, of p q2] have "good (s\<lparr>queue := q1\<rparr>) (s\<lparr>queue := q2\<rparr>)"
    using lg by (simp add: q2_def q1_def)
  then have "good s (s\<lparr>queue := q2\<rparr>)" using g1 evolve_trans by (auto simp: good_def)
  then show ?thesis using g1 Some by (cases "m = []") (simp_all add: UpdateProgress_def Let_def q1_def q2_def)
qed

lemma shutdown_visit_inv:
  assumes I: "qinv s" and p: "p < q_alloc (queue s)" and sh: "\<forall>x\<in>set sh. x < q_alloc (queue s)"
  shows "good s (s\<lparr>queue := shutdown_visit p (queue s), c_shutdown := sh\<rparr>)"
proof -
  have al: "\<forall>x\<in>set (c_cancels s). cc_job x < q_alloc (queue s)" using qinvD(1) [OF I] by (auto simp: alloc_inv_def)
  note si = shutdown_job_inv [OF known_job [OF I p]]
  have h: "q_heap (shutdown_visit p (queue s)) p = shutdown_job (q_heap (queue s) p)"
    by (simp add: shutdown_visit_def Let_def)
  have fr: "frame p (queue s) (shutdown_visit p (queue s))"
    using frame_trans [OF frame_update_job frame_cancel_func] by (simp add: shutdown_visit_def Let_def)
  have "good s (s\<lparr>queue := shutdown_visit p (queue s), c_cancels := c_cancels s, c_shutdown := sh\<rparr>)"
    by (rule outside_inv [OF I fr _ _ _ al sh]) (unfold h, rule si(1), rule si(2), rule si(3))
  then show ?thesis by simp
qed

lemma job_pointers_alloc:
  assumes "qinv s" "p \<in> set (job_pointers (queue s))"
  shows "p < q_alloc (queue s)"
proof -
  obtain i where "i \<in> fset (fmdom (q_jobs (queue s)))" "p = the (fmlookup (q_jobs (queue s)) i)"
    using assms(2) by (auto simp: job_pointers_def)
  then have "fmlookup (q_jobs (queue s)) i = Some p" by (metis fmlookup_dom_iff option.sel)
  then show ?thesis using lookup_job(2) [OF assms(1)] by blast
qed

lemma exec_inv:
  assumes I: "qinv s" and e: "exec a s = Some t"
  shows "good s t"
proof -
  have sh: "\<forall>x\<in>set (c_shutdown s). x < q_alloc (queue s)"
    and cs: "\<forall>x\<in>set (c_cancels s). cc_job x < q_alloc (queue s)"
    using qinvD(1) [OF I] by (auto simp: alloc_inv_def)
  show ?thesis
  proof (cases a)
    case (AWorker w i) then show ?thesis using e worker_step_inv [OF I] by (simp split: if_splits)
  next
    case (AResume n i) then show ?thesis using e resume_thread_inv [OF I] by simp
  next
    case (AEnqueue job now i) then show ?thesis using e enqueue_step_inv [OF I] by (auto split: if_splits)
  next
    case (ACancel i now)
    then show ?thesis using e cancel_step_inv [OF I] by (auto split: prod.splits sum.splits)
  next
    case (ACancelEffects k now) then show ?thesis using e cancel_effects_inv [OF I] by (auto split: if_splits)
  next
    case (ASupersede i t r rc pe now) then show ?thesis using e supersede_inv [OF I] by auto
  next
    case (ADetach i ob r) then show ?thesis using e detach_inv [OF I] by auto
  next
    case (AEdit p ed)
    then have p: "p < q_alloc (queue s)" and t: "t = s\<lparr>queue := update_job p (apply_edit ed) (queue s)\<rparr>"
      using e by (auto split: if_splits)
    show ?thesis unfolding t
      using apply_edit_inv [OF known_job [OF I p], of ed] by (intro outside_inv' [OF I, of p]) simp_all
  next
    case (AProgress i n m now) then show ?thesis using e progress_inv [OF I] by auto
  next
    case (ACleanup order now) then show ?thesis using e calm_inv' [OF I calm_cleanup] by auto
  next
    case AStopSignal
    then show ?thesis using e calm_inv' [OF I, of "stop_signal (queue s)"] by (auto simp: calm_def stop_signal_def)
  next
    case ACloseResumes
    then show ?thesis using e calm_inv' [OF I calm_cancelAllResumes] by (auto split: if_splits)
  next
    case AShutdownList
    then have t: "t = s\<lparr>queue := queue s, c_cancels := c_cancels s, c_shutdown := job_pointers (queue s)\<rparr>"
      using e by (auto split: if_splits)
    show ?thesis unfolding t by (rule calm_inv [OF I calm_refl cs]) (use job_pointers_alloc [OF I] in blast)
  next
    case AShutdownVisit then show ?thesis using e sh shutdown_visit_inv [OF I] by (auto split: list.splits)
  next
    case (AContextEnds er)
    then show ?thesis using e calm_inv' [OF I, of "(queue s)\<lparr>q_parent := er\<rparr>"] by (auto simp: calm_def split: if_splits)
  next
    case (AAfterFunc c) then show ?thesis using e calm_inv' [OF I calm_cancel_ctx] by (auto split: if_splits)
  qed
qed

interpretation jobs: invariant_system qinit qstep qinv
proof
  fix s show "qinit s \<Longrightarrow> qinv s" by (rule qinit_inv)
next
  fix s t show "qinv s \<Longrightarrow> qstep s t \<Longrightarrow> qinv t" unfolding qstep_def using exec_inv by (auto simp: good_def)
qed

end
