(* ===== verification/Job_Properties.thy ===== *)
theory Job_Properties
  imports Job_Safety
begin

text \<open>
  The properties of the job queue, its errors and its outcomes, each with a concrete instance of its
  hypotheses.  Statements about the running queue are about every state the step relation reaches
  from a started queue.
\<close>

section \<open>A run to instantiate the properties with\<close>

definition demo_job :: "string \<Rightarrow> string \<Rightarrow> Job" where
  "demo_job i target = zero_job\<lparr>j_ID := i, j_Type := JobTypeDeploy, j_TargetType := ''stack'', j_TargetID := target,
     j_Payload := Some (fmap_of_list [(''tenant_id'', RVal (AStr ''t1''))])\<rparr>"

definition go :: winput where
  "go = \<lparr>wi_now = 5000, wi_err = None, wi_stop = False\<rparr>"

definition go_err :: "gerr \<Rightarrow> winput" where
  "go_err e = \<lparr>wi_now = 5000, wi_err = Some e, wi_stop = False\<rparr>"

definition demo_start :: qsys where
  "demo_start = start_system 2 True False [JobTypeDeploy]"

text \<open>Two jobs on different stacks, both workers in their handlers.\<close>

definition demo_actions :: "action list" where
  "demo_actions = [AEnqueue (demo_job ''j1'' ''s1'') 1000 [], AEnqueue (demo_job ''j2'' ''s2'') 1000 []] @
     replicate 8 (AWorker 0 go) @ replicate 8 (AWorker 1 go)"

definition demo_state :: qsys where
  "demo_state = the (run demo_actions demo_start)"

lemma qstepI: "exec a s = Some t \<Longrightarrow> qstep s t"
  by (auto simp: qstep_def)

lemma run_steps: "run as s = Some t \<Longrightarrow> qstep\<^sup>*\<^sup>* s t"
proof (induction as arbitrary: s)
  case (Cons a as)
  then obtain s' where e: "exec a s = Some s'" "run as s' = Some t" by (auto split: option.splits)
  show ?case by (rule converse_rtranclp_into_rtranclp [OF qstepI [OF e(1)] Cons.IH [OF e(2)]])
qed simp

lemma run_reach: "run as s = Some t \<Longrightarrow> reach qinit qstep s \<Longrightarrow> reach qinit qstep t"
proof (induction as arbitrary: s)
  case (Cons a as)
  then obtain s' where e: "exec a s = Some s'" "run as s' = Some t" by (auto split: option.splits)
  show ?case by (rule Cons.IH [OF e(2) reach_step [OF Cons.prems(2) qstepI [OF e(1)]]])
qed simp

lemma demo_start_reach: "reach qinit qstep demo_start"
  by (rule reach_init) (auto simp: qinit_def demo_start_def)

definition demo_view :: "qsys \<Rightarrow> _" where
  "demo_view s = (wactive (w_pc s 0), wactive (w_pc s 1), case w_pc s 0 of WHandler p t a \<Rightarrow> p = 0 | _ \<Rightarrow> False,
     q_claimExecution (queue s), q_alloc (queue s), j_State (q_heap (queue s) 0), j_ID (q_heap (queue s) 0),
     target_key (q_heap (queue s) 0))"

lemma demo_runs: "map_option demo_view (run demo_actions demo_start) =
    Some (Some 0, Some 1, True, True, 2, JobStateRunning, ''j1'', Some (''stack'' @ [CHR 0x00] @ ''s1''))"
  by code_simp

lemma demo_run: "run demo_actions demo_start = Some demo_state"
  using demo_runs by (cases "run demo_actions demo_start") (simp_all add: demo_state_def)

lemma demo_reach: "reach qinit qstep demo_state"
  by (rule run_reach [OF demo_run demo_start_reach])

lemma demo_facts:
  "wactive (w_pc demo_state 0) = Some 0" "wactive (w_pc demo_state 1) = Some 1"
  "\<exists>t att. w_pc demo_state 0 = WHandler 0 t att"
  "q_claimExecution (queue demo_state)" "q_alloc (queue demo_state) = 2"
  "j_State (q_heap (queue demo_state) 0) = JobStateRunning" "j_ID (q_heap (queue demo_state) 0) = ''j1''"
  "target_key (q_heap (queue demo_state) 0) = Some (''stack'' @ [CHR 0x00] @ ''s1'')"
  using demo_runs unfolding demo_run demo_view_def by (auto split: wpc.splits)

section \<open>Execution\<close>

text \<open>
  C11: two workers that execute at the same time execute different jobs, and jobs with different
  targets: a target (stack, node, service) never has two operations in flight.
\<close>

theorem executions_exclusive:
  assumes "reach qinit qstep s"
    and "wactive (w_pc s w1) = Some p1" "wactive (w_pc s w2) = Some p2" "w1 \<noteq> w2"
  shows "p1 \<noteq> p2 \<and> (target_key (q_heap (queue s) p1) = None \<or>
    target_key (q_heap (queue s) p1) \<noteq> target_key (q_heap (queue s) p2))"
proof -
  have I: "qinv s" by (rule jobs.reach_inv [OF assms(1)])
  note i = qinvD [OF I]
  have j: "wjob (w_pc s w1) = Some p1" "wjob (w_pc s w2) = Some p2" using assms(2,3) wactive_job by blast+
  have ne: "p1 \<noteq> p2" using place_unique(1) [OF i(4) j(1)] j(2) assms(4) by blast
  have ser: "target_key (q_heap (queue s) p) = map_option fst (wtgt (w_pc s w))" "whold (w_pc s w) = wtgt (w_pc s w)"
    if "wactive (w_pc s w) = Some p" for w p
  proof -
    have "wserial (w_pc s w) = Some (p, map_option fst (wtgt (w_pc s w)))" "whold (w_pc s w) = wtgt (w_pc s w)"
      using that by (cases "w_pc s w"; simp)+
    then show "target_key (q_heap (queue s) p) = map_option fst (wtgt (w_pc s w))" "whold (w_pc s w) = wtgt (w_pc s w)"
      using i(8) unfolding serial_inv_def by metis+
  qed
  have "target_key (q_heap (queue s) p1) \<noteq> target_key (q_heap (queue s) p2)"
    if "target_key (q_heap (queue s) p1) \<noteq> None"
  proof
    assume eq: "target_key (q_heap (queue s) p1) = target_key (q_heap (queue s) p2)"
    from that obtain k e1 where t1: "wtgt (w_pc s w1) = Some (k, e1)"
      using ser(1) [OF assms(2)] by (cases "wtgt (w_pc s w1)") auto
    then obtain e2 where t2: "wtgt (w_pc s w2) = Some (k, e2)"
      using eq ser(1) [OF assms(2)] ser(1) [OF assms(3)] by (cases "wtgt (w_pc s w2)") auto
    have "e1 = e2" using target_invD(1) [OF i(9) t1] target_invD(1) [OF i(9) t2] by simp
    then have "whold (w_pc s w1) = Some (k, e1)" "whold (w_pc s w2) = Some (k, e1)"
      using t1 t2 ser(2) [OF assms(2)] ser(2) [OF assms(3)] by simp_all
    then show False using target_invD(7) [OF i(9)] assms(4) by blast
  qed
  then show ?thesis using ne by blast
qed

theorem executions_exclusive_witness:
  "reach qinit qstep demo_state \<and>
   target_key (q_heap (queue demo_state) 0) \<noteq> target_key (q_heap (queue demo_state) 1)"
  using executions_exclusive [OF demo_reach demo_facts(1,2)] demo_reach demo_facts(8) by simp

text \<open>
  C12: with a durable claimer installed, a worker is past the claim of a job (in its handler, or
  before or after it) only if the claimer granted a claim for this job and this start time.
\<close>

theorem handler_needs_claim:
  assumes "reach qinit qstep s" "q_claimExecution (queue s)" "w_pc s w = WHandler p t att"
  shows "\<exists>c\<in>set (g_granted s). ec_JobID c = j_ID (q_heap (queue s) p) \<and>
    j_StartedAt (q_heap (queue s) p) = Some (ec_StartedAt c) \<and> j_State (q_heap (queue s) p) = JobStateRunning"
  using claimed_job [OF jobs.reach_inv [OF assms(1)], of w p] active_job [OF jobs.reach_inv [OF assms(1)], of w p] assms(2,3)
  by (auto simp: claim_of_def)

theorem handler_needs_claim_witness:
  "\<exists>c\<in>set (g_granted demo_state). ec_JobID c = ''j1''"
proof -
  obtain t att where "w_pc demo_state 0 = WHandler 0 t att" using demo_facts(3) by blast
  from handler_needs_claim [OF demo_reach demo_facts(4) this] show ?thesis unfolding demo_facts(7) by blast
qed

text \<open>
  C13: a job that the queue shows as running is executed by exactly one worker.
\<close>

theorem running_has_worker:
  assumes "reach qinit qstep s" "p < q_alloc (queue s)" "j_State (q_heap (queue s) p) = JobStateRunning"
  shows "\<exists>!w. wcover (w_pc s w) = Some p"
proof -
  have I: "qinv s" by (rule jobs.reach_inv [OF assms(1)])
  obtain w where w: "wcover (w_pc s w) = Some p" using qinvD(5) [OF I] assms(2,3) by (auto simp: run_inv_def)
  have "x = w" if "wcover (w_pc s x) = Some p" for x
    using place_unique(1) [OF qinvD(4) [OF I] wcover_job [OF w] wcover_job [OF that]] .
  then show ?thesis using w by blast
qed

theorem running_has_worker_witness:
  "\<exists>!w. wcover (w_pc demo_state w) = Some 0"
  by (rule running_has_worker [OF demo_reach _ demo_facts(6)]) (simp add: demo_facts(5))



lemma steps_evolve:
  assumes "qstep\<^sup>*\<^sup>* s t" "qinv s"
  shows "evolve (queue s) (queue t)"
  using assms
proof (induction rule: rtranclp_induct)
  case (step u v)
  then have "qinv u" using jobs.steps_inv by blast
  then have "evolve (queue u) (queue v)" using step.hyps(2) exec_inv by (auto simp: qstep_def good_def)
  then show ?case using step evolve_trans by blast
qed simp

lemma steps_keep:
  assumes "reach qinit qstep s" "p < q_alloc (queue s)" "qstep\<^sup>*\<^sup>* s t"
  shows "keeps (q_heap (queue s) p) (q_heap (queue t) p)"
  using steps_evolve [OF assms(3) jobs.reach_inv [OF assms(1)]] assms(2) by (simp add: evolve_def)






lemma run_append: "run (as @ bs) s = (case run as s of None \<Rightarrow> None | Some t \<Rightarrow> run bs t)"
  by (induction as arbitrary: s) (auto split: option.splits)



text \<open>
  C16: a job that shutdown or a durable fence has detached from this process while it was not running
  never runs here again, and stays detached.
\<close>

theorem detached_never_runs:
  assumes "reach qinit qstep s" "p < q_alloc (queue s)" "qstep\<^sup>*\<^sup>* s t"
    and "j_suppressPersistence (q_heap (queue s) p)" "j_State (q_heap (queue s) p) \<noteq> JobStateRunning"
  shows "j_State (q_heap (queue t) p) \<noteq> JobStateRunning \<and> j_suppressPersistence (q_heap (queue t) p)"
  using steps_keep [OF assms(1-3)] assms(4,5) by (simp add: keeps_def)

text \<open>A queued job detached by a fence, and a worker then taking it from the channel.\<close>

definition detach_actions :: "action list" where
  "detach_actions = [AEnqueue (demo_job ''j1'' ''s1'') 1000 [], ADetach ''j1'' (zero_snapshot ''j1'') []]"

definition detached_state :: qsys where
  "detached_state = the (run detach_actions demo_start)"

definition detached_later :: qsys where
  "detached_later = the (run (replicate 6 (AWorker 0 go)) detached_state)"

lemma detached_runs:
  "map_option (\<lambda>s. (q_alloc (queue s), j_State (q_heap (queue s) 0), j_suppressPersistence (q_heap (queue s) 0)))
     (run detach_actions demo_start) = Some (1, JobStatePending, True)"
  "map_option (\<lambda>_. ()) (run (detach_actions @ replicate 6 (AWorker 0 go)) demo_start) = Some ()"
  by code_simp+

lemma detached_facts:
  "reach qinit qstep detached_state" "qstep\<^sup>*\<^sup>* detached_state detached_later"
  "0 < q_alloc (queue detached_state)" "j_suppressPersistence (q_heap (queue detached_state) 0)"
  "j_State (q_heap (queue detached_state) 0) \<noteq> JobStateRunning"
proof -
  have c: "run detach_actions demo_start = Some detached_state"
    using detached_runs(1) by (cases "run detach_actions demo_start") (simp_all add: detached_state_def)
  show "reach qinit qstep detached_state" by (rule run_reach [OF c demo_start_reach])
  show "0 < q_alloc (queue detached_state)" "j_suppressPersistence (q_heap (queue detached_state) 0)"
    "j_State (q_heap (queue detached_state) 0) \<noteq> JobStateRunning"
    using detached_runs(1) unfolding c by simp_all
  have "run (replicate 6 (AWorker 0 go)) detached_state \<noteq> None"
    using detached_runs(2) unfolding run_append c by (cases "run (replicate 6 (AWorker 0 go)) detached_state") simp_all
  then have "run (replicate 6 (AWorker 0 go)) detached_state = Some detached_later" by (auto simp: detached_later_def)
  then show "qstep\<^sup>*\<^sup>* detached_state detached_later" by (rule run_steps)
qed

theorem detached_never_runs_witness:
  "j_State (q_heap (queue detached_later) 0) \<noteq> JobStateRunning"
  using detached_never_runs [OF detached_facts(1,3,2,4,5)] by simp

text \<open>
  Giving back a target never blocks: when a worker returns the token of its target, the entry
  is still registered and its one-slot channel is empty, and the last reference removes the entry.
\<close>

theorem release_never_blocks:
  assumes "reach qinit qstep s" "w_pc s w = WRelease (Some (key, e))"
  shows "fmlookup (q_targets (queue s)) key = Some e \<and> \<not> te_token (q_entries (queue s) e) \<and>
    0 < te_refs (q_entries (queue s) e) \<and>
    (te_refs (q_entries (queue s) e) = 1 \<longleftrightarrow> (\<forall>x. x \<noteq> w \<longrightarrow> wtgt (w_pc s x) \<noteq> Some (key, e)))"
proof -
  note i = qinvD [OF jobs.reach_inv [OF assms(1)]]
  have t: "wtgt (w_pc s w) = Some (key, e)" "whold (w_pc s w) = Some (key, e)" by (simp_all add: assms(2))
  note d = target_invD [OF i(9)]
  have e: "fmlookup (q_targets (queue s)) key = Some e" using d(1) t(1) by blast
  have w: "w \<in> refs_of (w_pc s) (key, e)" using t(1) by (simp add: refs_of_def)
  have "card (refs_of (w_pc s) (key, e)) = 1 \<longleftrightarrow> refs_of (w_pc s) (key, e) = {w}"
    using w by (auto simp: card_1_singleton_iff)
  also have "\<dots> \<longleftrightarrow> (\<forall>x. x \<noteq> w \<longrightarrow> wtgt (w_pc s x) \<noteq> Some (key, e))" using w by (auto simp: refs_of_def)
  finally show ?thesis using e d(3) [OF e] d(4) [OF e] d(5) [OF e] t(2) by auto
qed

end
