(* ===== verification/Job_Cancel.thy ===== *)
theory Job_Cancel
  imports Job_Properties
begin

text \<open>
  Cancelling a running job: when the request is honoured, and the interleaving in which it is lost.
\<close>

section \<open>Cancellation\<close>

text \<open>
  C19: a cancellation requested before the worker looks for it after the handler returned ends the
  job as canceled with the recorded reason, whatever the handler returned.
\<close>

theorem cancel_honoured:
  assumes "reach qinit qstep s" "w < q_workers (queue s)" "w_pc s w = WFinish p t att err"
    and "j_cancellationRequested (q_heap (queue s) p)" "j_cancellationReason (q_heap (queue s) p) = reason" "reason \<noteq> []"
  shows "\<exists>u. run [AWorker w i1, AWorker w i2] s = Some u \<and> j_State (q_heap (queue u) p) = JobStateCancelled \<and>
    j_Error (q_heap (queue u) p) = reason \<and> w_pc u w = WRelease t"
proof -
  have run: "j_State (q_heap (queue s) p) = JobStateRunning"
    using active_job [OF jobs.reach_inv [OF assms(1)], of w p] assms(3) by simp
  have "jobCancellation (queue s) (q_heap (queue s) p) (at_ctx att) = Some reason"
    using assms(4-6) by (simp add: jobCancellation_def)
  then have f: "finish_check p t att err (queue s) = (queue s, WCancel p t att reason)" by (simp add: finish_check_def)
  show ?thesis
    using assms(2,3) run
    by (simp add: f set_worker_def cancelJobInternal_def cancel_job_internal_def terminate_job_def append_log_def)
qed

definition finish_actions :: "action list" where
  "finish_actions = demo_actions @ [ACancel ''j1'' 6000, AWorker 0 (go_err (ErrText ''boom''))]"

definition finish_state :: qsys where
  "finish_state = the (run finish_actions demo_start)"

lemma finish_runs:
  "map_option (\<lambda>s. (q_workers (queue s), case w_pc s 0 of WFinish p t att e \<Rightarrow> p = 0 | _ \<Rightarrow> False,
      j_cancellationRequested (q_heap (queue s) 0), j_cancellationReason (q_heap (queue s) 0)))
     (run finish_actions demo_start) = Some (2, True, True, ''Job canceled by user request'')"
  by code_simp

theorem cancel_honoured_witness:
  "\<exists>u. run [AWorker 0 go, AWorker 0 go] finish_state = Some u \<and> j_State (q_heap (queue u) 0) = JobStateCancelled"
proof -
  have c: "run finish_actions demo_start = Some finish_state"
    using finish_runs by (cases "run finish_actions demo_start") (simp_all add: finish_state_def)
  have w: "0 < q_workers (queue finish_state)" "j_cancellationRequested (q_heap (queue finish_state) 0)"
    and "case w_pc finish_state 0 of WFinish p t att e \<Rightarrow> p = 0 | _ \<Rightarrow> False"
    and r: "j_cancellationReason (q_heap (queue finish_state) 0) = ''Job canceled by user request''"
    using finish_runs unfolding c by simp_all
  then obtain t att e where pc: "w_pc finish_state 0 = WFinish 0 t att e" by (auto split: wpc.splits)
  from cancel_honoured [OF run_reach [OF c demo_start_reach] w(1) pc w(2) r, of go go] show ?thesis by blast
qed

text \<open>A waiting job that nothing will take up again: not queued, with no worker and no timer.\<close>

definition stranded :: "qsys \<Rightarrow> nat \<Rightarrow> bool" where
  "stranded s p \<longleftrightarrow> j_State (q_heap (queue s) p) = JobStateWaiting \<and> p \<notin> set (q_pending (queue s)) \<and>
     (\<forall>w. wjob (w_pc s w) \<noteq> Some p) \<and> (\<forall>n. rjob (r_pc s n) \<noteq> Some p)"

lemma wait_job_SomeD:
  assumes "wait_job r m t now j = Some j'"
  shows "j_State j' = JobStateWaiting" "j_ID j' = j_ID j"
  using assms by (auto simp: wait_job_def Let_def append_log_def split: if_splits)

lemma waitJob_eq:
  assumes "j_State (q_heap q p) = JobStateRunning"
  obtains j d where "waitJob p we now q = (update_job p (\<lambda>_. j) q, AfterSchedule d True)"
    "j_State j = JobStateWaiting" "j_ID j = j_ID (q_heap q p)"
proof (cases we)
  case (fields reason msg resumeAfter cause)
  define delay where "delay = (if resumeAfter \<le> 0 then defaultJobWaitResumeDelay else resumeAfter)"
  define r where "r = (if reason = [] then ''waiting_dependency'' else reason)"
  define m where "m = Error_text (JobWaitError reason msg resumeAfter cause)"
  obtain j where j: "wait_job r m (now + delay) now (q_heap q p) = Some j"
    using assms by (simp add: wait_job_def Let_def)
  have "waitJob p we now q = (update_job p (\<lambda>_. j) q, AfterSchedule delay True)"
    using j unfolding delay_def r_def m_def fields by (simp add: waitJob_def Let_def)
  then show ?thesis using that wait_job_SomeD [OF j] by blast
qed

lemma settle_wait_eq:
  assumes "asJobWaitError err = Some we" "j_State (q_heap q p) = JobStateRunning"
  obtains j d where "settleJobExecution p (Some err) now q = (update_job p (\<lambda>_. j) q, AfterSchedule d True)"
    "j_State j = JobStateWaiting" "j_ID j = j_ID (q_heap q p)"
proof -
  obtain r m d c where we: "we = (r, m, d, c)" by (cases we)
  obtain dc where "settleJobExecution p (Some err) now q = waitJob p we now (update_job p (recordJobOutcome dc now) q)"
    using assms(1) by (simp add: settleJobExecution_def handleJobExecutionError_def we Let_def)
  moreover have "j_State (q_heap (update_job p (recordJobOutcome dc now) q) p) = JobStateRunning" using assms(2) by simp
  then obtain j d' where "waitJob p we now (update_job p (recordJobOutcome dc now) q) =
      (update_job p (\<lambda>_. j) (update_job p (recordJobOutcome dc now) q), AfterSchedule d' True)"
    "j_State j = JobStateWaiting" "j_ID j = j_ID (q_heap (update_job p (recordJobOutcome dc now) q) p)"
    by (rule waitJob_eq)
  ultimately show ?thesis using that by (simp add: update_job_def)
qed

text \<open>The call decides while the job still runs; then the worker lets it wait and sets the timer.\<close>

lemma cancel_then_wait:
  assumes I: "qinv s" and w: "w < q_workers (queue s)" "w_pc s w = WSettle p t att (Some err)"
    and we: "asJobWaitError err = Some we" and j: "fmlookup (q_jobs (queue s)) i = Some p"
    and q: "\<not> q_resumesClosed (queue s)"
  defines "n \<equiv> q_nextResume (queue s)"
  obtains q' c d pl where
    "run [ACancel i now, AWorker w go, AWorker w go] s =
       Some (s\<lparr>queue := q', w_pc := (w_pc s)(w := WRecheck p t att n), r_pc := (r_pc s)(n := RStart p d),
               c_cancels := c_cancels s @ [c], g_place := pl\<rparr>)"
    "cc_job c = p" "cc_id c = i" "j_State (q_heap q' p) = JobStateWaiting" "fmlookup (q_resumes q') i = Some n"
    "q_workers q' = q_workers (queue s)" "q_pending q' = q_pending (queue s)" "q_syncExecution q' = q_syncExecution (queue s)"
proof -
  have run: "j_State (q_heap (queue s) p) = JobStateRunning" using active_job [OF I, of w p] w(2) by simp
  have id: "j_ID (q_heap (queue s) p) = i" using lookup_job(3) [OF I j] .
  define j1 where "j1 = (q_heap (queue s) p)\<lparr>j_cancellationRequested := True, j_cancellationReason := user_cancel_reason\<rparr>"
  define c where "c = \<lparr>cc_job = p, cc_id = i, cc_func = j_cancelFunc (q_heap (queue s) p), cc_state = JobStateRunning\<rparr>"
  define q1 where "q1 = update_job p (\<lambda>_. j1) (queue s)"
  have e1: "exec (ACancel i now) s = Some (s\<lparr>queue := q1, c_cancels := c_cancels s @ [c]\<rparr>)"
    using run by (simp add: Cancel_decide_def j cancel_job_def Let_def q1_def j1_def c_def)
  have r1: "j_State (q_heap q1 p) = JobStateRunning" "j_ID (q_heap q1 p) = i" using run id by (simp_all add: q1_def j1_def)
  obtain j2 d where st: "settleJobExecution p (Some err) (wi_now go) q1 = (update_job p (\<lambda>_. j2) q1, AfterSchedule d True)"
    and j2: "j_State j2 = JobStateWaiting" "j_ID j2 = i"
    using settle_wait_eq [OF we r1(1)] r1(2) by metis
  define q2 where "q2 = update_job p (\<lambda>_. j2) q1"
  have e2: "exec (AWorker w go) (s\<lparr>queue := q1, c_cancels := c_cancels s @ [c]\<rparr>) =
      Some (s\<lparr>queue := q2, w_pc := (w_pc s)(w := WSchedule p t att d True), c_cancels := c_cancels s @ [c]\<rparr>)"
    using w st by (simp add: q2_def q1_def update_job_def goto_after_def set_worker_def)
  have h2: "q_heap q2 p = j2" "q_resumesClosed q2 = q_resumesClosed (queue s)" "q_nextResume q2 = n"
    "q_workers q2 = q_workers (queue s)" "q_pending q2 = q_pending (queue s)" "q_syncExecution q2 = q_syncExecution (queue s)"
    by (simp_all add: q2_def q1_def update_job_def n_def)
  obtain q3 where sr: "scheduleResume i q2 = (Some n, q3)" and h3: "q_heap q3 = q_heap q2"
      "fmlookup (q_resumes q3) i = Some n" "q_workers q3 = q_workers q2" "q_pending q3 = q_pending q2"
      "q_syncExecution q3 = q_syncExecution q2"
    using q by (cases "fmlookup (q_resumes q2) i") (simp_all add: scheduleResume_def h2 Let_def cancel_schedule_def)
  have e3: "exec (AWorker w go) (s\<lparr>queue := q2, w_pc := (w_pc s)(w := WSchedule p t att d True), c_cancels := c_cancels s @ [c]\<rparr>) =
      Some (s\<lparr>queue := q3, w_pc := (w_pc s)(w := WRecheck p t att n), r_pc := (r_pc s)(n := RStart p d),
              c_cancels := c_cancels s @ [c], g_place := (g_place s)(p := AtResume n)\<rparr>)"
    using w(1) h2 j2 sr by (simp add: schedule_step_def set_worker_def set_place_def)
  show ?thesis
  proof (rule that [where q' = q3 and c = c and d = d and pl = "(g_place s)(p := AtResume n)"])
    show "run [ACancel i now, AWorker w go, AWorker w go] s =
       Some (s\<lparr>queue := q3, w_pc := (w_pc s)(w := WRecheck p t att n), r_pc := (r_pc s)(n := RStart p d),
               c_cancels := c_cancels s @ [c], g_place := (g_place s)(p := AtResume n)\<rparr>)"
      unfolding run.simps e1 option.case e2 e3 by (rule refl)
  qed (use h2 h3 j2 in \<open>simp_all add: c_def\<close>)
qed

text \<open>A cancelled timer ends without submitting its job.\<close>

lemma canceled_timer_ends:
  assumes "r_pc s n = RStart p d" "n \<in> set (q_canceledResumes (queue s))" "\<not> q_syncExecution (queue s)"
  obtains u where "run [AResume n go, AResume n go, AResume n (go\<lparr>wi_stop := True\<rparr>), AResume n go] s = Some u"
    "r_pc u = (r_pc s)(n := ROff)" "w_pc u = w_pc s" "q_heap (queue u) = q_heap (queue s)"
    "q_pending (queue u) = q_pending (queue s)"
proof -
  have "\<exists>u. run [AResume n go, AResume n go, AResume n (go\<lparr>wi_stop := True\<rparr>), AResume n go] s = Some u \<and>
      r_pc u = (r_pc s)(n := ROff) \<and> w_pc u = w_pc s \<and> q_heap (queue u) = q_heap (queue s) \<and>
      q_pending (queue u) = q_pending (queue s)"
    using assms
    by (simp add: resume_thread_def persist_begin_def Let_def go_def stop_ready_def resume_done_def clearResume_def)
  then show ?thesis using that by blast
qed

text \<open>
  C38: a cancellation can be lost.  If a caller cancels a job after its worker has looked for a
  cancellation and before the handler's request to wait is carried out, the call succeeds, yet the job
  becomes waiting; when the timer is scheduled before the call reaches its last part, that part kills
  the timer, and the job is left waiting with nothing that would ever resume or end it.
\<close>

theorem cancel_strands_waiting_job:
  assumes R: "reach qinit qstep s" and w: "w < q_workers (queue s)" "w_pc s w = WSettle p t att (Some err)"
    and we: "asJobWaitError err = Some we" and j: "fmlookup (q_jobs (queue s)) i = Some p"
    and q: "\<not> q_resumesClosed (queue s)" "\<not> q_syncExecution (queue s)"
  defines "n \<equiv> q_nextResume (queue s)" and "k \<equiv> length (c_cancels s)"
  shows "\<exists>u. run [ACancel i now, AWorker w go, AWorker w go, ACancelEffects k now, AWorker w go,
      AResume n go, AResume n go, AResume n (go\<lparr>wi_stop := True\<rparr>), AResume n go] s = Some u \<and> stranded u p"
proof -
  have I: "qinv s" by (rule jobs.reach_inv [OF R])
  have "wjob (w_pc s w) = Some p" by (simp add: w(2))
  note un = place_unique [OF qinvD(4) [OF I] this]
  from cancel_then_wait [OF I w we j q(1)] obtain q3 c d pl where
    e3: "run [ACancel i now, AWorker w go, AWorker w go] s =
       Some (s\<lparr>queue := q3, w_pc := (w_pc s)(w := WRecheck p t att n), r_pc := (r_pc s)(n := RStart p d),
               c_cancels := c_cancels s @ [c], g_place := pl\<rparr>)"
    and c: "cc_job c = p" "cc_id c = i" and h3: "j_State (q_heap q3 p) = JobStateWaiting"
      "fmlookup (q_resumes q3) i = Some n" "q_workers q3 = q_workers (queue s)" "q_pending q3 = q_pending (queue s)"
      "q_syncExecution q3 = q_syncExecution (queue s)"
    unfolding n_def by metis
  define q4 where "q4 = Cancel_effects c now q3"
  define s5 where "s5 = s\<lparr>queue := cancel_ctx (at_ctx att) q4, w_pc := (w_pc s)(w := WRelease t),
      r_pc := (r_pc s)(n := RStart p d), c_cancels := c_cancels s, g_place := pl\<rparr>"
  have h4: "j_State (q_heap q4 p) = JobStateWaiting" "q_workers q4 = q_workers q3" "q_pending q4 = q_pending q3"
    "n \<in> set (q_canceledResumes q4)" "q_syncExecution q4 = q_syncExecution q3"
    using h3(1,2) c
    by (simp_all add: q4_def Cancel_effects_def addLog_def update_job_def append_log_def cancelResume_def
        cancel_schedule_def cancel_func_def cancel_ctx_def split: option.split)
  have e5: "run [ACancelEffects k now, AWorker w go] (s\<lparr>queue := q3, w_pc := (w_pc s)(w := WRecheck p t att n),
      r_pc := (r_pc s)(n := RStart p d), c_cancels := c_cancels s @ [c], g_place := pl\<rparr>) = Some s5"
    using w(1) h3 h4 by (simp add: k_def s5_def recheck_step_def set_worker_def flip: q4_def)
  have "r_pc s5 n = RStart p d" "n \<in> set (q_canceledResumes (queue s5))" "\<not> q_syncExecution (queue s5)"
    using h3 h4 q(2) by (simp_all add: s5_def cancel_ctx_def)
  then obtain u where u: "run [AResume n go, AResume n go, AResume n (go\<lparr>wi_stop := True\<rparr>), AResume n go] s5 = Some u"
    "r_pc u = (r_pc s5)(n := ROff)" "w_pc u = w_pc s5" "q_heap (queue u) = q_heap (queue s5)"
    "q_pending (queue u) = q_pending (queue s5)"
    by (rule canceled_timer_ends)
  have "stranded u p"
    using un h4 h3 unfolding stranded_def u by (auto simp: s5_def cancel_ctx_def)
  moreover have "run ([ACancel i now, AWorker w go, AWorker w go] @ [ACancelEffects k now, AWorker w go] @
      [AResume n go, AResume n go, AResume n (go\<lparr>wi_stop := True\<rparr>), AResume n go]) s = Some u"
    unfolding run_append e3 option.case e5 u(1) by (rule refl)
  ultimately show ?thesis by (intro exI [of _ u]) (simp only: append.simps simp_thms)
qed

definition wait_error :: gerr where
  "wait_error = JobWaitError ''waiting_enrollment'' ''still enrolling'' second None"

definition settle_actions :: "action list" where
  "settle_actions = [AEnqueue (demo_job ''j1'' ''s1'') 1000 []] @ replicate 8 (AWorker 0 go) @
     [AWorker 0 (go_err wait_error), AWorker 0 go]"

definition settle_state :: qsys where
  "settle_state = the (run settle_actions demo_start)"

lemma settle_runs:
  "map_option (\<lambda>s. (q_workers (queue s), case w_pc s 0 of WSettle p t att (Some e) \<Rightarrow> p = 0 \<and> e = wait_error | _ \<Rightarrow> False,
      fmlookup (q_jobs (queue s)) ''j1'', q_resumesClosed (queue s), q_syncExecution (queue s)))
     (run settle_actions demo_start) = Some (2, True, Some 0, False, False)"
  by code_simp

theorem cancel_strands_waiting_job_witness:
  "\<exists>as u. run as settle_state = Some u \<and> stranded u 0"
proof -
  have c: "run settle_actions demo_start = Some settle_state"
    using settle_runs by (cases "run settle_actions demo_start") (simp_all add: settle_state_def)
  have w: "0 < q_workers (queue settle_state)" "fmlookup (q_jobs (queue settle_state)) ''j1'' = Some 0"
    "\<not> q_resumesClosed (queue settle_state)" "\<not> q_syncExecution (queue settle_state)"
    and "case w_pc settle_state 0 of WSettle p t att (Some e) \<Rightarrow> p = 0 \<and> e = wait_error | _ \<Rightarrow> False"
    using settle_runs unfolding c by simp_all
  then obtain t att where pc: "w_pc settle_state 0 = WSettle 0 t att (Some wait_error)"
    by (auto split: wpc.splits option.splits)
  have "asJobWaitError wait_error = Some (''waiting_enrollment'', ''still enrolling'', second, None)"
    by (simp add: asJobWaitError_def wait_error_def chain.simps)
  from cancel_strands_waiting_job [OF run_reach [OF c demo_start_reach] w(1) pc this w(2-4)] show ?thesis by blast
qed

end
