(* ===== verification/Job_Functional.thy ===== *)
theory Job_Functional
  imports Job_Safety
begin

text \<open>
  What single operations of the queue do: the decision on a handler's error with its delays, and the
  outcome a job publishes.
\<close>

section \<open>Delays\<close>

lemma CalculateDelay_default:
  assumes "1 \<le> n"
  shows "CalculateDelay DefaultRetryPolicy n = min (2 ^ nat (n - 1) * second) (30 * second)"
proof -
  have "delay_loop DefaultRetryPolicy (nat (n - 1)) second = min (2 ^ nat (n - 1) * second) (30 * second)"
    by (rule delay_loop_default) (simp_all add: second_def)
  then show ?thesis using assms by (simp add: CalculateDelay_def) (simp add: DefaultRetryPolicy_def)
qed

text \<open>
  The two backoff loops compute what their names say: the default retry policy waits
  \<open>2 ^ (n - 1)\<close> seconds before the attempt after the \<open>n\<close>-th, its floating-point products included, and
  the wait for an execution claim doubles from one second; both are capped at 30 seconds.
\<close>

theorem backoff_closed_form:
  "CalculateDelay DefaultRetryPolicy n = (if n \<le> 0 then second else min (2 ^ nat (n - 1) * second) (30 * second)) \<and>
   executionDeferBackoff a = min (2 ^ (max a 1 - 1) * second) (30 * second)"
proof -
  have "CalculateDelay DefaultRetryPolicy n = second" if "n \<le> 0"
    using that by (simp add: CalculateDelay_def DefaultRetryPolicy_def)
  then show ?thesis using CalculateDelay_default [of n] executionDeferBackoff_eq [of a] by simp
qed

section \<open>The decision on a handler's error\<close>












section \<open>Outcomes\<close>

text \<open>
  C21: normalizing is idempotent, and a normalized decision satisfies the public contract: it is
  valid, it is dated, an actionable status has a code and guidance, and no member of its support
  context or diagnostics, at any depth, has a name that denotes a secret.
\<close>

theorem normalize_contract:
  assumes "Normalize v t = Inr w"
  shows "Normalize w t' = Inr w \<and> Validate w = None \<and> oc_OccurredAt w \<noteq> 0 \<and>
    (oc_Status w \<noteq> StatusAvailable \<longrightarrow>
       (oc_ErrorCode w \<noteq> [] \<or> oc_ReasonCode w \<noteq> []) \<and> (\<exists>g. oc_UserGuidance w = Some g \<and> gd_NextSteps g \<noteq> [])) \<and>
    (\<forall>k\<in>set (map_names (oc_SupportContext w) @ map_names (oc_ProviderDiagnostics w)). \<not> secret_name k)"
proof -
  note n = Normalize_InrD [OF assms]
  have v: "validateSecretFree (oc_ProviderDiagnostics w) ''provider_diagnostics'' = None"
    "validateSecretFree (oc_SupportContext w) ''support_context'' = None"
    "validateActionable w = None" "(if IsZero (oc_OccurredAt w) then Some OccurredAtRequired else None) = None"
    using n(2) unfolding Validate_def first_error_None by simp_all
  have o: "oc_OccurredAt w \<noteq> 0" using v(4) by (simp add: IsZero_def split: if_splits)
  then have "normal_form w t' = w" using normal_form_idem [of v t t'] n(1) by simp
  then have "Normalize w t' = Inr w" using n(2) by (simp add: Normalize_def)
  moreover have "(oc_ErrorCode w \<noteq> [] \<or> oc_ReasonCode w \<noteq> []) \<and> (\<exists>g. oc_UserGuidance w = Some g \<and> gd_NextSteps g \<noteq> [])"
    if "oc_Status w \<noteq> StatusAvailable"
    using v(3) that by (auto simp: validateActionable_def split: if_splits option.splits)
  moreover have "\<not> secret_name k" if "k \<in> set (map_names (oc_SupportContext w) @ map_names (oc_ProviderDiagnostics w))" for k
    using that validateSecretFree_names [OF v(1)] validateSecretFree_names [OF v(2)] by auto
  ultimately show ?thesis using n(2) o by blast
qed

definition demo_decision :: Decision where
  "demo_decision = zero_decision\<lparr>oc_Status := '' Available '', oc_SupportContext := [(''job_id'', AStr ''j1'')]\<rparr>"

lemma demo_normalized:
  "Normalize demo_decision 1 = Inr (demo_decision\<lparr>oc_Status := StatusAvailable, oc_OccurredAt := 1\<rparr>)"
proof -
  have t: "TrimSpace '' Available '' = ''Available''" "ToLower ''Available'' = ''available''" "TrimSpace [] = []"
    by code_simp+
  have n: "normal_form demo_decision 1 = demo_decision\<lparr>oc_Status := StatusAvailable, oc_OccurredAt := 1\<rparr>"
    by (simp add: normal_form_def demo_decision_def zero_decision_def t compactStrings_def IsZero_def StatusAvailable_def)
  have s: "validateSecretFree [(''job_id'', AStr ''j1'')] ''support_context'' = None" by code_simp
  have "Validate (normal_form demo_decision 1) = None"
    unfolding n
    by (simp add: Validate_def demo_decision_def zero_decision_def validateStatus_def status_defs IsZero_def
      validateBoundedFields_def validateActionable_def validateGuidance_def validateFeatureLists_def
      s validateSecretFree_def [of "[]"] encoded_size_def decision_json_def opt_time_def opt_str_def format_time_ex
      length_esc_str esc_char_def)
  then show ?thesis by (simp add: Normalize_def n)
qed

theorem normalize_contract_witness:
  "\<exists>w. Normalize demo_decision 1 = Inr w \<and> oc_Status w = StatusAvailable \<and> Normalize w 9 = Inr w \<and>
     Validate w = None"
  using normalize_contract [OF demo_normalized, of 9] demo_normalized by auto

text \<open>What a consumer of the job's result finds under each key of a normalized decision.\<close>

definition opt_string :: "string \<Rightarrow> rval option" where
  "opt_string x = (if x = [] then None else Some (RVal (AStr x)))"

definition flattened :: "Decision \<Rightarrow> (string \<times> rval option) list" where
  "flattened n = [(''last_outcome'', Some (RDecision n)), (''retryable'', Some (RVal (ABool (oc_Retryable n)))),
     (''error_code'', opt_string (oc_ErrorCode n)), (''reason_code'', opt_string (oc_ReasonCode n)),
     (''capability'', opt_string (oc_Capability n)), (''provider_id'', opt_string (oc_ProviderID n)),
     (''required_features'', if oc_RequiredFeatures n = [] then None else Some (RStrs (oc_RequiredFeatures n))),
     (''missing_features'', if oc_MissingFeatures n = [] then None else Some (RStrs (oc_MissingFeatures n))),
     (''user_guidance'', map_option RGuidance (oc_UserGuidance n)),
     (''remediation'', opt_string (oc_Remediation n)),
     (''provider_diagnostics'', if oc_ProviderDiagnostics n = [] then None else Some (RVal (AMap (oc_ProviderDiagnostics n)))),
     (''request_id'', opt_string (oc_RequestID n)),
     (''support_context'', if oc_SupportContext n = [] then None else Some (RVal (AMap (oc_SupportContext n)))),
     (''retry_after'', map_option (\<lambda>t. RVal (AStr (format_rfc3339 t))) (oc_RetryAfter n))]"

lemma put_when_lookup: "fmlookup (put_when b k v m) x = (if b \<and> x = k then Some v else fmlookup m x)"
  by (simp add: put_when_def)

lemma case_put_lookup:
  "fmlookup (case z of None \<Rightarrow> m | Some y \<Rightarrow> fmupd k (f y) m) x =
     (if z \<noteq> None \<and> x = k then map_option f z else fmlookup m x)"
  by (cases z) auto

lemmas publish_lookup = publish_outcome_def Let_def put_when_lookup case_put_lookup fmupd_lookup fold_fmdrop_lookup
  outcome_keys_def

lemma publish_outcome_keys:
  "list_all (\<lambda>(k, r). fmlookup (publish_outcome n m) k = r) (flattened n)"
  unfolding flattened_def opt_string_def list.pred_inject prod.case
  by (intro conjI; (simp add: publish_lookup)?)

lemma publish_outcome_other:
  assumes "x \<notin> fst ` set (flattened n)"
  shows "fmlookup (publish_outcome n m) x = fmlookup m x"
  using assms unfolding publish_lookup flattened_def by (simp; blast)

lemma publish_outcome_lookup:
  "fmlookup (publish_outcome n m) x = (case map_of (flattened n) x of Some r \<Rightarrow> r | None \<Rightarrow> fmlookup m x)"
  using publish_outcome_keys [of n m] publish_outcome_other [of x n m]
  by (auto simp: map_of_eq_None_iff list_all_iff split: option.splits dest!: map_of_SomeD)

text \<open>
  C22: publishing an outcome stores the normalized decision under \<^verbatim>\<open>last_outcome\<close>, keeps the
  flattened members equal to it (an absent field removes what an earlier outcome left under its
  key), touches no other member of the result and no other field of the job; a decision the contract
  rejects is not published.
\<close>

theorem outcome_published:
  "case setJobOutcome d now j of
     Inl e \<Rightarrow> Normalize d now = Inl e \<and> recordJobOutcome d now j = j
   | Inr j' \<Rightarrow> \<exists>n m. Normalize d now = Inr n \<and> j' = j\<lparr>j_Result := Some m\<rparr> \<and> recordJobOutcome d now j = j' \<and>
       (\<forall>x. fmlookup m x = (case map_of (flattened n) x of
          Some r \<Rightarrow> r | None \<Rightarrow> fmlookup (case j_Result j of None \<Rightarrow> fmempty | Some m0 \<Rightarrow> m0) x))"
proof (cases "Normalize d now")
  case (Inr n)
  then show ?thesis
    by (auto simp: setJobOutcome_def recordJobOutcome_def publish_outcome_lookup nonnil_def split: option.splits)
qed (simp add: setJobOutcome_def recordJobOutcome_def)

end
