(* ===== verification/Job_Upkeep.thy ===== *)
theory Job_Upkeep
  imports Job_Safety
begin

text \<open>
  The upkeep of the queue: the pace of the alerts for jobs that wait for an execution claim
  (\<^verbatim>\<open>src/pkg/jobs/execution_defer.go\<close>), and the removal of finished jobs
  (\<^verbatim>\<open>cleanupOldJobs\<close> of \<^verbatim>\<open>src/pkg/jobs/queue.go\<close>).
\<close>

section \<open>Alerts of deferred jobs\<close>

text \<open>The streaks after a job was deferred at the given instants, for the given reasons.\<close>

definition deferred :: "string \<Rightarrow> (string \<times> gtime) list \<Rightarrow> defer_map \<Rightarrow> defer_map" where
  "deferred jobID es d = fold (\<lambda>(r, t) d. snd (snd (noteExecutionDefer jobID r t d))) es d"

definition defer_at :: "string \<Rightarrow> (string \<times> gtime) list \<Rightarrow> defer_map \<Rightarrow> nat \<Rightarrow> duration \<times> ExecutionDeferReport option" where
  "defer_at jobID es d k =
     (let (b, al, _) = noteExecutionDefer jobID (fst (es ! k)) (snd (es ! k)) (deferred jobID (take k es) d) in (b, al))"

definition alerted :: "string \<Rightarrow> (string \<times> gtime) list \<Rightarrow> defer_map \<Rightarrow> nat \<Rightarrow> bool" where
  "alerted jobID es d k \<longleftrightarrow> snd (defer_at jobID es d k) \<noteq> None"

lemma deferred_Suc:
  "k < length es \<Longrightarrow>
   deferred jobID (take (Suc k) es) d =
     snd (snd (noteExecutionDefer jobID (fst (es ! k)) (snd (es ! k)) (deferred jobID (take k es) d)))"
  by (simp add: deferred_def take_Suc_conv_app_nth split: prod.splits)

text \<open>One more deferral of a streak with its state.\<close>

lemma note_streak:
  fixes now :: gtime
  assumes "fmlookup d jobID = Some st" "defer_reason st = r"
  defines "due \<equiv> now - firstDeferredAt st \<ge> ExecutionDeferAlertAfter \<and>
    (lastAlertedAt st = 0 \<or> now - lastAlertedAt st \<ge> ExecutionDeferAlertEvery)"
  shows "fst (noteExecutionDefer jobID r now d) = executionDeferBackoff (Suc (defer_attempts st))"
    "fst (snd (noteExecutionDefer jobID r now d)) \<noteq> None \<longleftrightarrow> due"
    "fmlookup (snd (snd (noteExecutionDefer jobID r now d))) jobID =
       Some (st\<lparr>defer_attempts := Suc (defer_attempts st), lastAlertedAt := (if due then now else lastAlertedAt st)\<rparr>)"
  using assms by (auto simp: noteExecutionDefer_def Let_def IsZero_def)

lemma note_fresh:
  assumes "case fmlookup d jobID of None \<Rightarrow> True | Some st \<Rightarrow> defer_reason st \<noteq> r"
  shows "noteExecutionDefer jobID r now d = (executionDeferBackoff 1, None, fmupd jobID
     \<lparr>firstDeferredAt = now, lastAlertedAt = 0, defer_attempts = 1, defer_reason = r\<rparr> d)"
  using assms by (auto simp: noteExecutionDefer_def Let_def defer_defs minute_def second_def split: option.splits)

lemma deferred_reason:
  assumes "0 < k" "k \<le> length es"
  shows "\<exists>st. fmlookup (deferred jobID (take k es) d) jobID = Some st \<and> defer_reason st = fst (es ! (k - 1))"
proof -
  have "deferred jobID (take k es) d =
     snd (snd (noteExecutionDefer jobID (fst (es ! (k - 1))) (snd (es ! (k - 1))) (deferred jobID (take (k - 1) es) d)))"
    using deferred_Suc [of "k - 1" es jobID d] assms by simp
  then show ?thesis by (auto simp: noteExecutionDefer_def Let_def split: option.splits)
qed

text \<open>The streak that starts at \<open>i\<close>, before its deferral \<open>j\<close>.\<close>

definition streak_state :: "string \<Rightarrow> (string \<times> gtime) list \<Rightarrow> defer_map \<Rightarrow> nat \<Rightarrow> nat \<Rightarrow> executionDeferState \<Rightarrow> bool" where
  "streak_state jobID es d i j st \<longleftrightarrow>
     fmlookup (deferred jobID (take j es) d) jobID = Some st \<and> defer_reason st = fst (es ! i) \<and>
     firstDeferredAt st = snd (es ! i) \<and> defer_attempts st = j - i \<and>
     (if lastAlertedAt st = 0 then \<forall>k. i \<le> k \<and> k < j \<longrightarrow> \<not> alerted jobID es d k
      else (\<exists>k. i \<le> k \<and> k < j \<and> alerted jobID es d k \<and> snd (es ! k) = lastAlertedAt st) \<and>
           (\<forall>k. i \<le> k \<and> k < j \<and> alerted jobID es d k \<longrightarrow> snd (es ! k) \<le> lastAlertedAt st))"

lemma alerted_streak:
  assumes "streak_state jobID es d i j st" "fst (es ! j) = fst (es ! i)"
  shows "fst (defer_at jobID es d j) = executionDeferBackoff (Suc (j - i))"
    "alerted jobID es d j \<longleftrightarrow> snd (es ! j) - snd (es ! i) \<ge> ExecutionDeferAlertAfter \<and>
       (lastAlertedAt st = 0 \<or> snd (es ! j) - lastAlertedAt st \<ge> ExecutionDeferAlertEvery)"
  using assms note_streak(1,2) [of "deferred jobID (take j es) d" jobID st "fst (es ! j)" "snd (es ! j)"]
  by (auto simp: streak_state_def defer_at_def alerted_def split: prod.splits)

lemma streak_extend:
  assumes st: "streak_state jobID es d i j st" and e: "fst (es ! j) = fst (es ! i)" and l: "i \<le> j" "j < length es"
    and nz: "snd (es ! j) \<noteq> 0"
  shows "\<exists>st'. streak_state jobID es d i (Suc j) st'"
proof -
  define now where "now = snd (es ! j)"
  note a = alerted_streak(2) [OF st e, folded now_def]
  have s: "fmlookup (deferred jobID (take j es) d) jobID = Some st" "defer_reason st = fst (es ! j)"
    "firstDeferredAt st = snd (es ! i)" "defer_attempts st = j - i"
    using st e by (auto simp: streak_state_def)
  have lk: "fmlookup (deferred jobID (take (Suc j) es) d) jobID =
     Some (st\<lparr>defer_attempts := Suc (j - i), lastAlertedAt := (if alerted jobID es d j then now else lastAlertedAt st)\<rparr>)"
    using note_streak(3) [OF s(1,2), of now] s(3,4) a by (simp add: deferred_Suc [OF l(2)] now_def)
  have every: "0 < ExecutionDeferAlertEvery" by (simp add: defer_defs minute_def second_def)
  have "streak_state jobID es d i (Suc j)
      (st\<lparr>defer_attempts := Suc (j - i), lastAlertedAt := (if alerted jobID es d j then now else lastAlertedAt st)\<rparr>)"
  proof (cases "alerted jobID es d j")
    case True
    have "snd (es ! k) \<le> now" if "i \<le> k" "k < j" "alerted jobID es d k" for k
      using st that a True every by (auto simp: streak_state_def split: if_splits)
    then show ?thesis using True lk st e l nz
      by (auto simp: streak_state_def now_def less_Suc_eq intro: exI [of _ j])
  next
    case False
    then show ?thesis using lk st e l
      by (auto simp: streak_state_def less_Suc_eq split: if_splits)
  qed
  then show ?thesis by blast
qed

definition streak_starts :: "string \<Rightarrow> (string \<times> gtime) list \<Rightarrow> defer_map \<Rightarrow> nat \<Rightarrow> bool" where
  "streak_starts jobID es d i \<longleftrightarrow>
     (if i = 0 then fmlookup d jobID = None else fst (es ! (i - 1)) \<noteq> fst (es ! i))"

lemma streak_first:
  assumes "streak_starts jobID es d i" "i < length es"
  shows "fst (defer_at jobID es d i) = executionDeferBackoff 1" "\<not> alerted jobID es d i"
    "\<exists>st. streak_state jobID es d i (Suc i) st"
proof -
  have "case fmlookup (deferred jobID (take i es) d) jobID of None \<Rightarrow> True | Some st \<Rightarrow> defer_reason st \<noteq> fst (es ! i)"
    using assms deferred_reason [of i es jobID d]
    by (auto simp: streak_starts_def deferred_def split: if_splits option.splits)
  note f = note_fresh [OF this, of "snd (es ! i)"]
  show "fst (defer_at jobID es d i) = executionDeferBackoff 1" and n: "\<not> alerted jobID es d i"
    by (simp_all add: defer_at_def alerted_def f)
  show "\<exists>st. streak_state jobID es d i (Suc i) st"
    using n by (auto simp: streak_state_def deferred_Suc [OF assms(2)] f less_Suc_eq)
qed

lemma streak_reached:
  assumes "streak_starts jobID es d i" "i < j" "j \<le> length es"
    "\<And>k. i \<le> k \<Longrightarrow> k < j \<Longrightarrow> fst (es ! k) = fst (es ! i) \<and> snd (es ! k) \<noteq> 0"
  shows "\<exists>st. streak_state jobID es d i j st"
  using assms(2-)
proof (induction j)
  case (Suc j)
  show ?case
  proof (cases "i = j")
    case True
    then show ?thesis using streak_first(3) [OF assms(1)] Suc.prems by simp
  next
    case False
    then have "i < j" "j \<le> length es" using Suc.prems(1,2) by simp_all
    then obtain st where "streak_state jobID es d i j st" using Suc.IH Suc.prems(3) less_SucI by blast
    from streak_extend [OF this] show ?thesis using Suc.prems(2) Suc.prems(3) [of j] \<open>i < j\<close> by simp
  qed
qed simp

text \<open>
  C23: the deferrals of a job for one reason form a streak. In it the delays double from the base
  interval, and an alert is raised exactly when the streak has lasted \<^const>\<open>ExecutionDeferAlertAfter\<close>
  and every earlier alert of the streak is \<^const>\<open>ExecutionDeferAlertEvery\<close> old; a change of the
  reason starts a new streak.
\<close>

theorem alerts_paced:
  assumes "streak_starts jobID es d i" "i \<le> j" "j < length es"
    "\<And>k. i \<le> k \<Longrightarrow> k \<le> j \<Longrightarrow> fst (es ! k) = fst (es ! i) \<and> snd (es ! k) \<noteq> 0"
  shows "fst (defer_at jobID es d j) = min (2 ^ (j - i) * second) (30 * second) \<and>
    (alerted jobID es d j \<longleftrightarrow>
       snd (es ! j) - snd (es ! i) \<ge> ExecutionDeferAlertAfter \<and>
       (\<forall>k. i \<le> k \<and> k < j \<and> alerted jobID es d k \<longrightarrow> snd (es ! j) - snd (es ! k) \<ge> ExecutionDeferAlertEvery))"
proof (cases "i = j")
  case True
  then show ?thesis using streak_first(1,2) [OF assms(1)] assms(3) executionDeferBackoff_eq [of 1]
    by (simp add: defer_defs minute_def second_def)
next
  case False
  then obtain st where st: "streak_state jobID es d i j st"
    using streak_reached [OF assms(1), of j] le_neq_implies_less [OF assms(2)] less_imp_le [OF assms(3)]
      assms(4) [OF _ less_imp_le] by blast
  have e: "fst (es ! j) = fst (es ! i)" using assms(2,4) by blast
  show ?thesis using alerted_streak [OF st e] executionDeferBackoff_eq [of "Suc (j - i)"] st
    by (auto simp: streak_state_def split: if_splits)
qed

definition demo_deferrals :: "(string \<times> gtime) list" where
  "demo_deferrals = [(''busy'', 1), (''busy'', 5 * minute + 1), (''busy'', 6 * minute)]"

theorem alerts_paced_witness:
  "streak_starts ''j'' demo_deferrals fmempty 0 \<and> fst (demo_deferrals ! 1) = ''busy'' \<and>
   fst (defer_at ''j'' demo_deferrals fmempty 1) = 2 * second \<and> alerted ''j'' demo_deferrals fmempty 1 \<and>
   \<not> alerted ''j'' demo_deferrals fmempty 2"
proof -
  have s: "streak_starts ''j'' demo_deferrals fmempty 0" by (simp add: streak_starts_def)
  have e: "fst (demo_deferrals ! k) = fst (demo_deferrals ! 0) \<and> snd (demo_deferrals ! k) \<noteq> 0" if "k \<le> 2" for k
  proof -
    from that consider "k = 0" | "k = 1" | "k = 2" by linarith
    then show ?thesis by cases (simp_all add: demo_deferrals_def minute_def second_def)
  qed
  have one: "\<not> alerted ''j'' demo_deferrals fmempty 0 \<and> alerted ''j'' demo_deferrals fmempty 1 \<and>
      fst (defer_at ''j'' demo_deferrals fmempty 1) = 2 * second"
    using alerts_paced [OF s, of 1] alerts_paced [OF s, of 0] e
    by (simp add: demo_deferrals_def defer_defs minute_def second_def)
  have "\<not> alerted ''j'' demo_deferrals fmempty 2"
    using alerts_paced [OF s, of 2] e one by (auto simp: demo_deferrals_def defer_defs minute_def second_def dest: spec [of _ 1])
  with s one show ?thesis by (simp add: demo_deferrals_def)
qed

section \<open>Cleanup\<close>

lemma fold_forget:
  "fold forget_job is q = q\<lparr>q_jobs := fold fmdrop is (q_jobs q), q_defers := fold clearExecutionDefer is (q_defers q)\<rparr>"
  by (induction "is" arbitrary: q) (simp_all add: forget_job_def)

lemma fold_drop:
  "fold (\<lambda>(i, _). drop_job i) xs q = q\<lparr>q_jobs := fold fmdrop (map fst xs) (q_jobs q)\<rparr>"
  by (induction xs arbitrary: q) (auto simp: drop_job_def)

definition terminal_in :: "JobQueue \<Rightarrow> string \<Rightarrow> bool" where
  "terminal_in q i \<longleftrightarrow> isTerminalJobState (j_State (q_heap q (the (fmlookup (q_jobs q) i))))"

lemma set_terminal_ids: "set (terminal_ids q) = {i. i |\<in>| fmdom (q_jobs q) \<and> terminal_in q i}"
  by (auto simp: terminal_ids_def terminal_in_def)

lemma distinct_terminal_ids: "distinct (terminal_ids q)"
  by (simp add: terminal_ids_def)

text \<open>Removing jobs changes nothing of the ones that stay.\<close>

definition without :: "string set \<Rightarrow> JobQueue \<Rightarrow> JobQueue \<Rightarrow> bool" where
  "without D q q' \<longleftrightarrow> q_heap q' = q_heap q \<and> q_maxCompletedJobs q' = q_maxCompletedJobs q \<and>
     q_completedJobTTL q' = q_completedJobTTL q \<and>
     (\<forall>i. fmlookup (q_jobs q') i = (if i \<in> D then None else fmlookup (q_jobs q) i))"

lemma without_facts:
  assumes "without D q q'"
  shows "set (terminal_ids q') = set (terminal_ids q) - D"
    "i \<notin> D \<Longrightarrow> job_age q' i = job_age q i" "i \<notin> D \<Longrightarrow> expired now q' i = expired now q i"
  using assms by (auto simp: without_def set_terminal_ids terminal_in_def job_age_def expired_def fmdom.rep_eq dom_def
    split: if_splits option.splits)

lemma without_trans: "without D q q1 \<Longrightarrow> without E q1 q2 \<Longrightarrow> without (D \<union> E) q q2"
  by (auto simp: without_def)

lemma cleanupOldJobs_cases:
  assumes "cleanupOldJobs completed now q = Some q'"
  obtains q1 E where "without {i \<in> set (terminal_ids q). expired now q i} q q1" "without E q1 q'"
    "E = {} \<and> int (length (terminal_ids q1)) \<le> q_maxCompletedJobs q \<or>
     (mset completed = mset (map (\<lambda>i. (i, job_age q1 i)) (terminal_ids q1)) \<and> sorted (map snd completed) \<and>
      E = fst ` set (take (nat (int (length completed) - q_maxCompletedJobs q)) completed))"
proof -
  define D where "D = filter (expired now q) (terminal_ids q)"
  define q1 where "q1 = fold forget_job D q"
  have w: "without {i \<in> set (terminal_ids q). expired now q i} q q1"
    by (auto simp: without_def q1_def fold_forget fold_fmdrop_lookup D_def)
  have "length (terminal_ids q) - length D = length (terminal_ids q1)"
  proof -
    have "set (terminal_ids q1) = set (filter (\<lambda>i. \<not> expired now q i) (terminal_ids q))"
      using without_facts(1) [OF w] by auto
    then have "length (terminal_ids q1) = length (filter (\<lambda>i. \<not> expired now q i) (terminal_ids q))"
      using distinct_terminal_ids distinct_filter by (metis distinct_card)
    then show ?thesis using sum_length_filter_compl [of "expired now q" "terminal_ids q"] by (simp add: D_def)
  qed
  moreover have "length D \<le> length (terminal_ids q)" by (simp add: D_def)
  ultimately have c: "int (length (terminal_ids q)) - int (length D) = int (length (terminal_ids q1))" by linarith
  show ?thesis
    using assms that [OF w, of "{}"] that [OF w, of "fst ` set (take (nat (int (length completed) - q_maxCompletedJobs q)) completed)"]
    unfolding cleanupOldJobs_def Let_def D_def [symmetric] q1_def [symmetric] c
    by (auto simp: without_def fold_drop fold_fmdrop_lookup split: if_splits)
qed

text \<open>The excess: a prefix of the ages in order.\<close>

lemma excess_facts:
  fixes n :: nat
  assumes m: "mset completed = mset (map (\<lambda>i. (i, f i)) ids)" and d: "distinct ids" and s: "sorted (map snd completed)"
  defines "E \<equiv> fst ` set (take n completed)"
  shows "E \<subseteq> set ids" "card (set ids - E) = length ids - n"
    "i \<in> E \<Longrightarrow> k \<in> set ids - E \<Longrightarrow> f i \<le> f k"
proof -
  have st: "set completed = (\<lambda>i. (i, f i)) ` set ids" using m by (metis set_map set_mset_mset)
  have l: "length completed = length ids" using m by (metis length_map size_mset)
  have "mset (map fst completed) = mset ids" using arg_cong [OF m, of "image_mset fst"] by (simp add: multiset.map_comp comp_def)
  then have dc: "distinct (map fst completed)" using d by (metis mset_eq_imp_distinct_iff)
  have fs: "fst ` set completed = set ids" by (simp add: st image_image)
  show sub: "E \<subseteq> set ids" using fs set_take_subset [of n completed] by (auto simp: E_def)
  have "card E = length (take n (map fst completed))"
    using distinct_card [OF distinct_take [OF dc, of n]] by (simp add: E_def take_map)
  then show "card (set ids - E) = length ids - n"
    using sub card_Diff_subset [of E "set ids"] finite_subset [OF sub] distinct_card [OF d] l by simp
  show "f i \<le> f k" if i: "i \<in> E" and k: "k \<in> set ids - E"
  proof -
    have "(k, f k) \<in> set completed" "(k, f k) \<notin> set (take n completed)" using k st by (auto simp: E_def image_iff)
    then have k': "(k, f k) \<in> set (drop n completed)" by (metis Un_iff append_take_drop_id set_append)
    obtain a where a: "(i, a) \<in> set (take n completed)" using i by (auto simp: E_def)
    then have "a = f i" using st set_take_subset [of n completed] by auto
    moreover have "sorted (map snd (take n completed @ drop n completed))" using s by simp
    ultimately show ?thesis using a k' unfolding map_append sorted_append by force
  qed
qed

text \<open>Some order of the ages is always admitted, so cleaning up never fails.\<close>

lemma cleanup_total: "\<exists>completed q'. cleanupOldJobs completed now q = Some q'"
proof -
  define q1 where "q1 = fold forget_job (filter (expired now q) (terminal_ids q)) q"
  define xs where "xs = sort_key snd (map (\<lambda>i. (i, job_age q1 i)) (terminal_ids q1))"
  have "mset xs = mset (map (\<lambda>i. (i, job_age q1 i)) (terminal_ids q1))" "sorted (map snd xs)"
    by (simp_all add: xs_def)
  then have "\<exists>q'. cleanupOldJobs xs now q = Some q'"
    unfolding cleanupOldJobs_def Let_def q1_def [symmetric] by simp
  then show ?thesis by blast
qed

text \<open>
  C24: a cleanup leaves at most \<^verbatim>\<open>maxCompletedJobs\<close> finished jobs and none that finished longer than
  \<^verbatim>\<open>completedJobTTL\<close> ago. It removes nothing but finished jobs, changes no job, and what it removes
  before its time is at least as old as every finished job it keeps.
\<close>

theorem cleanup_contract:
  assumes "cleanupOldJobs completed now q = Some q'" "0 \<le> q_maxCompletedJobs q"
  shows "int (length (terminal_ids q')) \<le> q_maxCompletedJobs q \<and> q_heap q' = q_heap q \<and>
    (\<forall>i. i \<in> set (terminal_ids q') \<longrightarrow> \<not> expired now q i) \<and>
    (\<forall>i. fmlookup (q_jobs q') i \<noteq> fmlookup (q_jobs q) i \<longrightarrow>
       i \<in> set (terminal_ids q) \<and> fmlookup (q_jobs q') i = None) \<and>
    (\<forall>i k. i \<in> set (terminal_ids q) - set (terminal_ids q') \<and> k \<in> set (terminal_ids q') \<longrightarrow>
       expired now q i \<or> job_age q i \<le> job_age q k)"
  using assms(1)
proof (cases rule: cleanupOldJobs_cases)
  case (1 q1 E)
  define D where "D = {i \<in> set (terminal_ids q). expired now q i}"
  note w = 1(1) [folded D_def] and w' = 1(2)
  note t = without_facts(1) [OF w] without_facts(1) [OF w']
  have same: "q_heap q' = q_heap q" using w w' by (simp add: without_def)
  have E: "E \<subseteq> set (terminal_ids q1) \<and> int (card (set (terminal_ids q1) - E)) \<le> q_maxCompletedJobs q \<and>
      (\<forall>i k. i \<in> E \<and> k \<in> set (terminal_ids q1) - E \<longrightarrow> job_age q1 i \<le> job_age q1 k)"
    using 1(3)
  proof
    assume e: "mset completed = mset (map (\<lambda>i. (i, job_age q1 i)) (terminal_ids q1)) \<and> sorted (map snd completed) \<and>
      E = fst ` set (take (nat (int (length completed) - q_maxCompletedJobs q)) completed)"
    from e have m: "mset completed = mset (map (\<lambda>i. (i, job_age q1 i)) (terminal_ids q1))" and s: "sorted (map snd completed)"
      and E: "E = fst ` set (take (nat (int (length completed) - q_maxCompletedJobs q)) completed)" by blast+
    have l: "length completed = length (terminal_ids q1)" using m by (metis length_map size_mset)
    note f = excess_facts [OF m distinct_terminal_ids s, where n = "nat (int (length completed) - q_maxCompletedJobs q)", folded E]
    have "int (card (set (terminal_ids q1) - E)) \<le> q_maxCompletedJobs q" unfolding f(2) using l assms(2) by linarith
    then show ?thesis using f(1,3) by blast
  qed (use distinct_card [OF distinct_terminal_ids] in simp)
  have "length (terminal_ids q') = card (set (terminal_ids q1) - E)"
    using distinct_card [OF distinct_terminal_ids, of q'] t(2) by simp
  moreover have "expired now q i \<or> job_age q i \<le> job_age q k"
    if i: "i \<in> set (terminal_ids q) - set (terminal_ids q')" and k: "k \<in> set (terminal_ids q')" for i k
  proof (cases "i \<in> D")
    case False
    then have ik: "i \<in> E" "k \<notin> D" "k \<in> set (terminal_ids q1) - E" using i k t by auto
    then have "job_age q1 i \<le> job_age q1 k" using E by blast
    then show ?thesis using without_facts(2) [OF w] False ik(2) by simp
  qed (simp add: D_def)
  moreover have "i \<in> set (terminal_ids q) \<and> fmlookup (q_jobs q') i = None"
    if "fmlookup (q_jobs q') i \<noteq> fmlookup (q_jobs q) i" for i
    using that w w' E t by (auto simp: without_def D_def split: if_splits)
  ultimately show ?thesis using same E t by (auto simp: D_def)
qed

text \<open>Two finished jobs and a running one where one finished job may stay.\<close>

definition demo_queue :: JobQueue where
  "demo_queue = (NewQueue 1)\<lparr>q_heap := (\<lambda>p. if p = 0 then zero_job\<lparr>j_State := JobStateCompleted, j_CompletedAt := Some 1\<rparr>
       else if p = 1 then zero_job\<lparr>j_State := JobStateFailed, j_CompletedAt := Some 5\<rparr>
       else zero_job\<lparr>j_State := JobStateRunning\<rparr>),
     q_jobs := fmap_of_list [(''a'', 0), (''b'', 1), (''c'', 2)], q_maxCompletedJobs := 1\<rparr>"

theorem cleanup_contract_witness:
  "\<exists>q'. cleanupOldJobs [(''a'', 1), (''b'', 5)] 9 demo_queue = Some q' \<and> sorted_keys (q_jobs q') = [''b'', ''c''] \<and>
     int (length (terminal_ids q')) \<le> 1"
proof -
  have c: "map_option (\<lambda>q'. sorted_keys (q_jobs q')) (cleanupOldJobs [(''a'', 1), (''b'', 5)] 9 demo_queue) = Some [''b'', ''c'']"
    by code_simp
  then obtain q' where q': "cleanupOldJobs [(''a'', 1), (''b'', 5)] 9 demo_queue = Some q'" "sorted_keys (q_jobs q') = [''b'', ''c'']"
    by auto
  have "q_maxCompletedJobs demo_queue = 1" by (simp add: demo_queue_def)
  with cleanup_contract [OF q'(1)] q' show ?thesis by simp
qed

end
