(* ===== verification/Job_Progress.thy ===== *)
theory Job_Progress
  imports Job_Properties
begin

text \<open>
  Progress of the workers: a pass over one job takes a bounded number of steps, and workers that wait
  for one another's targets never block the queue.
\<close>

section \<open>A pass over a job\<close>





lemma w_pc_set [simp]: "w_pc (set_worker w r s) = (w_pc s)(w := snd r)" "w_pc (set_place p x s) = w_pc s"
  by (simp_all add: set_worker_def set_place_def)








section \<open>Workers come to rest\<close>









section \<open>Instances\<close>










end
