(* ===== verification/Go_Netip.thy ===== *)
theory Go_Netip
  imports Go_JSON
begin

text \<open>
  IP addresses as \<^verbatim>\<open>net/netip\<close> has them: parsing, the canonical text, and the predicates the code
  asks.  An IPv4 address is its four bytes, an IPv6 address its eight 16-bit groups and its zone;
  every parse error is \<^const>\<open>None\<close>, since the callers do not look at it.  The text of an address
  parses back to the address.
\<close>

section \<open>Addresses\<close>

datatype Addr = V4 "int list" | V6 "int list" string

section \<open>Parsing\<close>

text \<open>\<^verbatim>\<open>parseIPv4Fields\<close>: the finished fields, the value and the number of digits of the current one.\<close>

fun v4_fields :: "string \<Rightarrow> int list \<Rightarrow> int \<Rightarrow> nat \<Rightarrow> int list option" where
  "v4_fields [] fs val k = (if length fs < 3 then None else Some (fs @ [val]))"
| "v4_fields (c # cs) fs val k =
     (if is_digit c then
        (if k = 1 \<and> val = 0 then None
         else let v = val * 10 + (of_char c - 48) in
              if v > 255 then None else v4_fields cs fs v (Suc k))
      else if c = CHR ''.'' then
        (if k = 0 \<or> cs = [] \<or> length fs = 3 then None else v4_fields cs (fs @ [val]) 0 0)
      else None)"

definition parseIPv4 :: "string \<Rightarrow> Addr option" where
  "parseIPv4 s = map_option V4 (v4_fields s [] 0 0)"

text \<open>One group: at most four hexadecimal digits, at least one.\<close>

fun hex_group :: "string \<Rightarrow> nat \<Rightarrow> int \<Rightarrow> (int \<times> string) option" where
  "hex_group [] k acc = (if k = 0 then None else Some (acc, []))"
| "hex_group (c # cs) k acc =
     (case hexval c of
        Some d \<Rightarrow> if k > 3 \<or> acc * 16 + int d > 65535 then None else hex_group cs (Suc k) (acc * 16 + int d)
      | None \<Rightarrow> if k = 0 then None else Some (acc, c # cs))"

definition v6_finish :: "string \<Rightarrow> int list \<Rightarrow> nat option \<Rightarrow> int list option" where
  "v6_finish s gs el =
     (if s \<noteq> [] then None
      else if length gs < 8 then
        (case el of None \<Rightarrow> None | Some e \<Rightarrow> Some (take e gs @ replicate (8 - length gs) 0 @ drop e gs))
      else if el \<noteq> None then None else Some gs)"

definition v6_embedded :: "string \<Rightarrow> int list \<Rightarrow> nat option \<Rightarrow> int list option" where
  "v6_embedded s gs el =
     (if (el = None \<and> length gs \<noteq> 6) \<or> length gs + 2 > 8 then None
      else case v4_fields s [] 0 0 of
          Some [a, b, c, d] \<Rightarrow> v6_finish [] (gs @ [a * 256 + b, c * 256 + d]) el
        | _ \<Rightarrow> None)"

lemma hex_group_length: "hex_group s k acc = Some (v, r) \<Longrightarrow> length r \<le> length s"
  by (induction s k acc rule: hex_group.induct) (auto split: option.splits if_splits)

text \<open>The loop of \<^verbatim>\<open>parseIPv6\<close>: the groups so far and the position of the ellipsis.\<close>

function v6_loop :: "string \<Rightarrow> int list \<Rightarrow> nat option \<Rightarrow> int list option" where
  "v6_loop s gs el =
     (if length gs \<ge> 8 then v6_finish s gs el
      else case hex_group s 0 0 of
          None \<Rightarrow> None
        | Some (acc, r) \<Rightarrow>
            if r = [] then v6_finish [] (gs @ [acc]) el
            else if hd r = CHR ''.'' then v6_embedded s gs el
            else if hd r \<noteq> CHR '':'' \<or> tl r = [] then None
            else if hd (tl r) = CHR '':'' then
              (if el \<noteq> None then None
               else if tl (tl r) = [] then v6_finish [] (gs @ [acc]) (Some (Suc (length gs)))
               else v6_loop (tl (tl r)) (gs @ [acc]) (Some (Suc (length gs))))
            else v6_loop (tl r) (gs @ [acc]) el)"
  by auto
termination
  by (relation "measure (\<lambda>(s, _). length s)")
    (auto dest!: hex_group_length simp: neq_Nil_conv intro!: le_imp_less_Suc)

declare v6_loop.simps [simp del]

definition parseIPv6 :: "string \<Rightarrow> Addr option" where
  "parseIPv6 s0 =
     (let s = takeWhile (\<lambda>c. c \<noteq> CHR ''%'') s0;
          r = dropWhile (\<lambda>c. c \<noteq> CHR ''%'') s0;
          zone = tl r
      in if r \<noteq> [] \<and> zone = [] then None
         else if HasPrefix s ''::'' then
           (if s = ''::'' then Some (V6 (replicate 8 0) zone)
            else map_option (\<lambda>gs. V6 gs zone) (v6_loop (drop 2 s) [] (Some 0)))
         else map_option (\<lambda>gs. V6 gs zone) (v6_loop s [] None))"

fun ParseAddr_scan :: "string \<Rightarrow> string \<Rightarrow> Addr option" where
  "ParseAddr_scan s [] = None"
| "ParseAddr_scan s (c # cs) =
     (if c = CHR ''.'' then parseIPv4 s
      else if c = CHR '':'' then parseIPv6 s
      else if c = CHR ''%'' then None
      else ParseAddr_scan s cs)"

definition ParseAddr :: "string \<Rightarrow> Addr option" where
  "ParseAddr s = ParseAddr_scan s s"

section \<open>The canonical text\<close>

fun Is4In6 :: "Addr \<Rightarrow> bool" where
  "Is4In6 (V6 gs z) \<longleftrightarrow> take 6 gs = [0, 0, 0, 0, 0, 0xffff]"
| "Is4In6 (V4 bs) \<longleftrightarrow> False"

fun Unmap :: "Addr \<Rightarrow> Addr" where
  "Unmap (V6 gs z) =
     (if Is4In6 (V6 gs z)
      then V4 [gs ! 6 div 256, gs ! 6 mod 256, gs ! 7 div 256, gs ! 7 mod 256] else V6 gs z)"
| "Unmap (V4 bs) = V4 bs"

text \<open>The hexadecimal text of a group, without leading zeros.\<close>

function hex_int :: "int \<Rightarrow> string" where
  "hex_int n = (if n < 16 then [hexdig (nat n)] else hex_int (n div 16) @ [hexdig (nat (n mod 16))])"
  by auto
termination by (relation "measure nat") auto

declare hex_int.simps [simp del]

text \<open>The length of the run of zeros at a position, and the first longest one of at least two.\<close>

definition zero_run :: "int list \<Rightarrow> nat \<Rightarrow> nat" where
  "zero_run gs i = length (takeWhile (\<lambda>g. g = 0) (drop i gs))"

fun longest_zeros :: "int list \<Rightarrow> nat list \<Rightarrow> (nat \<times> nat) option \<Rightarrow> (nat \<times> nat) option" where
  "longest_zeros gs [] best = best"
| "longest_zeros gs (i # is) best =
     (let l = zero_run gs i in
      if 2 \<le> l \<and> (case best of None \<Rightarrow> True | Some (_, b) \<Rightarrow> l > b)
      then longest_zeros gs is (Some (i, l)) else longest_zeros gs is best)"

definition string6 :: "int list \<Rightarrow> string" where
  "string6 gs =
     (case longest_zeros gs [0, 1, 2, 3, 4, 5, 6, 7] None of
        None \<Rightarrow> Join '':'' (map hex_int gs)
      | Some (i, l) \<Rightarrow> Join '':'' (map hex_int (take i gs)) @ ''::'' @ Join '':'' (map hex_int (drop (i + l) gs)))"

definition string4 :: "int list \<Rightarrow> string" where
  "string4 bs = Join ''.'' (map Itoa bs)"

text \<open>\<^verbatim>\<open>Addr.String\<close>, of an address that is not IPv4 mapped into IPv6.\<close>

fun Addr_String :: "Addr \<Rightarrow> string" where
  "Addr_String (V4 bs) = string4 bs"
| "Addr_String (V6 gs z) = string6 gs @ (if z = [] then [] else CHR ''%'' # z)"

section \<open>Predicates\<close>

fun IsLoopback :: "Addr \<Rightarrow> bool" where
  "IsLoopback (V4 bs) \<longleftrightarrow> bs ! 0 = 127"
| "IsLoopback (V6 gs z) \<longleftrightarrow>
     (if Is4In6 (V6 gs z) then gs ! 6 div 256 = 127 else gs = [0, 0, 0, 0, 0, 0, 0, 1])"

fun IsPrivate :: "Addr \<Rightarrow> bool" where
  "IsPrivate (V4 bs) \<longleftrightarrow>
     bs ! 0 = 10 \<or> (bs ! 0 = 172 \<and> bs ! 1 div 16 = 1) \<or> (bs ! 0 = 192 \<and> bs ! 1 = 168)"
| "IsPrivate (V6 gs z) \<longleftrightarrow>
     (if Is4In6 (V6 gs z) then
        gs ! 6 div 256 = 10 \<or> (gs ! 6 div 256 = 172 \<and> gs ! 6 mod 256 div 16 = 1) \<or> gs ! 6 = 192 * 256 + 168
      else gs ! 0 div 512 = 0xfc div 2)"

fun IsLinkLocalUnicast :: "Addr \<Rightarrow> bool" where
  "IsLinkLocalUnicast (V4 bs) \<longleftrightarrow> bs ! 0 = 169 \<and> bs ! 1 = 254"
| "IsLinkLocalUnicast (V6 gs z) \<longleftrightarrow>
     (if Is4In6 (V6 gs z) then gs ! 6 = 169 * 256 + 254 else gs ! 0 div 64 = 0xfe80 div 64)"

section \<open>The text of an address parses back\<close>

definition byte_ok :: "int \<Rightarrow> bool" where "byte_ok n \<longleftrightarrow> 0 \<le> n \<and> n < 256"
definition group_ok :: "int \<Rightarrow> bool" where "group_ok n \<longleftrightarrow> 0 \<le> n \<and> n < 65536"

fun wf_addr :: "Addr \<Rightarrow> bool" where
  "wf_addr (V4 bs) \<longleftrightarrow> length bs = 4 \<and> list_all byte_ok bs"
| "wf_addr (V6 gs z) \<longleftrightarrow> length gs = 8 \<and> list_all group_ok gs"

lemma digit_char:
  assumes "d < 10"
  shows "is_digit (char_of (48 + d :: nat))" "(of_char (char_of (48 + d :: nat)) :: int) = 48 + int d"
proof -
  have n: "(of_char (char_of (48 + d :: nat)) :: nat) = 48 + d" using assms by simp
  then show "is_digit (char_of (48 + d :: nat))" using assms by (simp add: is_digit_def)
  show "(of_char (char_of (48 + d :: nat)) :: int) = 48 + int d" using n by (metis of_nat_add of_nat_numeral of_nat_of_char)
qed

lemma v4_digit:
  assumes "d < 10" "\<not> (k = 1 \<and> val = 0)" "val * 10 + int d \<le> 255"
  shows "v4_fields (char_of (48 + d) # cs) fs val k = v4_fields cs fs (val * 10 + int d) (Suc k)"
  using assms digit_char [OF assms(1)] by (auto simp: Let_def)

lemma v4_number:
  assumes "byte_ok n"
  shows "\<exists>k. v4_fields (Itoa n @ r) fs 0 0 = v4_fields r fs n (Suc k)"
proof -
  obtain m where m: "n = int m" "m < 256" using assms by (auto simp: byte_ok_def dest: zero_le_imp_eq_int)
  consider "m < 10" | "10 \<le> m" "m < 100" | "100 \<le> m" by linarith
  then show ?thesis
  proof cases
    case 1
    then show ?thesis using v4_digit [of m 0 0 r fs] m
      by (auto simp: Itoa_def digits_nat.simps simp del: v4_fields.simps)
  next
    case 2
    define a b where "a = m div 10" and "b = m mod 10"
    have e: "a < 10" "b < 10" "a \<noteq> 0" "m = a * 10 + b" using 2 by (auto simp: a_def b_def)
    have d: "digits_nat m = [char_of (48 + a), char_of (48 + b)]"
      using 2 e(1) by (simp add: digits_nat.simps [of m] digits_nat.simps [of "m div 10"] a_def b_def)
    have le: "int a * 10 + int b \<le> 255" using e m(2) by linarith
    have "v4_fields (char_of (48 + a) # char_of (48 + b) # r) fs 0 0 = v4_fields r fs n (Suc 1)"
      using e le v4_digit [of a 0 0 "char_of (48 + b) # r" fs] v4_digit [of b 1 "int a" r fs] m(1)
      by (simp del: v4_fields.simps)
    then show ?thesis using m d by (auto simp: Itoa_def simp del: v4_fields.simps)
  next
    case 3
    define a b c where "a = m div 10 div 10" and "b = m div 10 mod 10" and "c = m mod 10"
    have e: "a < 10" "b < 10" "c < 10" "a \<noteq> 0" "m = (a * 10 + b) * 10 + c" "m div 10 = a * 10 + b"
      using 3 m(2) by (auto simp: a_def b_def c_def)
    have "10 \<le> m div 10" "m div 10 div 10 < 10" using 3 m(2) by linarith+
    then have d: "digits_nat m = [char_of (48 + a), char_of (48 + b), char_of (48 + c)]"
      using 3 m(2) by (simp add: digits_nat.simps [of m] digits_nat.simps [of "m div 10"] digits_nat.simps [of "m div 10 div 10"] a_def b_def c_def)
    have "int ((a * 10 + b) * 10 + c) \<le> 255" "int (a * 10 + b) \<noteq> 0" using e m(2) by auto
    then have le: "int a * 10 + int b \<le> 255" "(int a * 10 + int b) * 10 + int c \<le> 255" "int a * 10 + int b \<noteq> 0"
      by (simp_all del: of_nat_add of_nat_mult add: of_nat_add of_nat_mult)
    have "v4_fields (char_of (48 + a) # char_of (48 + b) # char_of (48 + c) # r) fs 0 0 = v4_fields r fs n (Suc 2)"
      using e le v4_digit [of a 0 0 "char_of (48 + b) # char_of (48 + c) # r" fs]
        v4_digit [of b 1 "int a" "char_of (48 + c) # r" fs] v4_digit [of c 2 "int a * 10 + int b" r fs] m(1)
      by (simp del: v4_fields.simps add: numeral_2_eq_2)
    then show ?thesis using m d by (intro exI [of _ 2]) (simp add: Itoa_def del: v4_fields.simps)
  qed
qed

lemma v4_dot:
  assumes "cs \<noteq> []" "length fs < 3"
  shows "v4_fields (CHR ''.'' # cs) fs val (Suc k) = v4_fields cs (fs @ [val]) 0 0"
  using assms by (simp add: is_digit_def)

declare digits_nat_ne [simp]

lemma Itoa_ne [simp]: "Itoa n \<noteq> []"
  by (simp add: Itoa_def)

lemma v4_round:
  assumes "list_all byte_ok [a, b, c, d]"
  shows "v4_fields (string4 [a, b, c, d]) [] 0 0 = Some [a, b, c, d]"
proof -
  have ok: "byte_ok a" "byte_ok b" "byte_ok c" "byte_ok d" using assms by simp_all
  obtain k where k: "v4_fields (Itoa a @ CHR ''.'' # Itoa b @ CHR ''.'' # Itoa c @ CHR ''.'' # Itoa d) [] 0 0 =
      v4_fields (CHR ''.'' # Itoa b @ CHR ''.'' # Itoa c @ CHR ''.'' # Itoa d) [] a (Suc k)"
    using v4_number [OF ok(1)] by blast
  obtain l where l: "v4_fields (Itoa b @ CHR ''.'' # Itoa c @ CHR ''.'' # Itoa d) [a] 0 0 =
      v4_fields (CHR ''.'' # Itoa c @ CHR ''.'' # Itoa d) [a] b (Suc l)"
    using v4_number [OF ok(2)] by blast
  obtain m where m: "v4_fields (Itoa c @ CHR ''.'' # Itoa d) [a, b] 0 0 = v4_fields (CHR ''.'' # Itoa d) [a, b] c (Suc m)"
    using v4_number [OF ok(3)] by blast
  obtain n where n: "v4_fields (Itoa d @ []) [a, b, c] 0 0 = v4_fields [] [a, b, c] d (Suc n)"
    using v4_number [OF ok(4)] by blast
  show ?thesis using k l m n by (simp add: string4_def v4_dot del: v4_fields.simps(2))
qed

lemma hexval_digit: "0 \<le> d \<Longrightarrow> d < 16 \<Longrightarrow> hexval (hexdig (nat d)) = Some (nat d)"
  by (rule hexval_hexdig) simp

lemma hex_step:
  assumes "0 \<le> d" "d < 16" "k \<le> 3" "0 \<le> acc" "acc * 16 + d \<le> 65535"
  shows "hex_group (hexdig (nat d) # cs) k acc = hex_group cs (Suc k) (acc * 16 + d)"
  using assms by (simp add: hexval_digit)

lemma hex_stop:
  assumes "r = [] \<or> hexval (hd r) = None"
  shows "hex_group r (Suc k) acc = Some (acc, r)"
  using assms by (cases r) auto

lemma hex_int_snoc:
  assumes "0 < x" "0 \<le> d" "d < 16"
  shows "hex_int (x * 16 + d) = hex_int x @ [hexdig (nat d)]"
  using assms by (subst hex_int.simps) auto

text \<open>The digits of a group, most significant first.\<close>

lemma hex_int_digits:
  assumes "group_ok g"
  obtains ds where "hex_int g = map (\<lambda>d. hexdig (nat d)) ds" "list_all (\<lambda>d. 0 \<le> d \<and> d < 16) ds" "ds \<noteq> []"
    "length ds \<le> 4" "foldl (\<lambda>acc d. acc * 16 + d) 0 ds = g"
proof -
  have p: "0 \<le> g" "g < 65536" using assms by (simp_all add: group_ok_def)
  define a b c d where "a = g div 16 div 16 div 16" and "b = g div 16 div 16 mod 16" and "c = g div 16 mod 16"
    and "d = g mod 16"
  have r: "0 \<le> b" "b < 16" "0 \<le> c" "c < 16" "0 \<le> d" "d < 16" by (simp_all add: b_def c_def d_def)
  have q2: "g div 16 div 16 = a * 16 + b" unfolding a_def b_def by simp
  have q1: "g div 16 = (a * 16 + b) * 16 + c" using q2 div_mult_mod_eq [of "g div 16" 16] by (simp add: c_def)
  have g: "g = ((a * 16 + b) * 16 + c) * 16 + d" using q1 div_mult_mod_eq [of g 16] by (simp add: d_def)
  have "a = g div 4096" unfolding a_def by (simp add: zdiv_zmult2_eq [symmetric])
  then have a: "0 \<le> a" "a < 16" using p by auto
  have one: "hex_int x = [hexdig (nat x)]" if "x < 16" for x using that by (simp add: hex_int.simps)
  consider "0 < a" | "a = 0" "0 < b" | "a = 0" "b = 0" "0 < c" | "a = 0" "b = 0" "c = 0" using a r by linarith
  then show ?thesis
  proof cases
    case 1
    then have "hex_int g = [hexdig (nat a), hexdig (nat b), hexdig (nat c), hexdig (nat d)]"
      using hex_int_snoc [of "(a * 16 + b) * 16 + c" d] hex_int_snoc [of "a * 16 + b" c] hex_int_snoc [of a b]
        r one [OF a(2)] unfolding g by simp
    then show ?thesis using that [of "[a, b, c, d]"] a r g by simp
  next
    case 2
    then have "hex_int g = [hexdig (nat b), hexdig (nat c), hexdig (nat d)]"
      using hex_int_snoc [of "b * 16 + c" d] hex_int_snoc [of b c] r one [OF r(2)] unfolding g by simp
    then show ?thesis using that [of "[b, c, d]"] r 2 g by simp
  next
    case 3
    then show ?thesis using that [of "[c, d]"] r one [of c] g by (simp add: hex_int_snoc)
  next
    case 4
    then show ?thesis using that [of "[d]"] r one [of d] g by simp
  qed
qed

lemma foldl_hex_mono:
  assumes "list_all (\<lambda>d. 0 \<le> d \<and> d < 16) ds" "0 \<le> acc"
  shows "(acc :: int) \<le> foldl (\<lambda>acc d. acc * 16 + d) acc ds"
  using assms
proof (induction ds arbitrary: acc)
  case (Cons d ds)
  then have "acc * 16 + d \<le> foldl (\<lambda>acc d. acc * 16 + d) (acc * 16 + d) ds" by simp
  then show ?case using Cons.prems by simp
qed simp

lemma hex_group_digits:
  assumes "list_all (\<lambda>d. 0 \<le> d \<and> d < 16) ds" "k + length ds \<le> 4" "0 \<le> acc" "0 < k + length ds"
    "foldl (\<lambda>acc d. acc * 16 + d) acc ds \<le> 65535" "r = [] \<or> hexval (hd r) = None"
  shows "hex_group (map (\<lambda>d. hexdig (nat d)) ds @ r) k acc = Some (foldl (\<lambda>acc d. acc * 16 + d) acc ds, r)"
  using assms
proof (induction ds arbitrary: k acc)
  case Nil
  then obtain k' where "k = Suc k'" by (cases k) auto
  then show ?case using Nil hex_stop by simp
next
  case (Cons d ds)
  have "acc * 16 + d \<le> foldl (\<lambda>acc d. acc * 16 + d) (acc * 16 + d) ds"
    using Cons.prems foldl_hex_mono [of ds "acc * 16 + d"] by simp
  then have "acc * 16 + d \<le> 65535" using Cons.prems by simp
  then show ?case using Cons hex_step [of d k acc "map (\<lambda>d. hexdig (nat d)) ds @ r"] by simp
qed

lemma hex_group_int:
  assumes "group_ok g" "r = [] \<or> hexval (hd r) = None"
  shows "hex_group (hex_int g @ r) 0 0 = Some (g, r)"
proof -
  obtain ds where ds: "hex_int g = map (\<lambda>d. hexdig (nat d)) ds" "list_all (\<lambda>d. 0 \<le> d \<and> d < 16) ds" "ds \<noteq> []"
    "length ds \<le> 4" "foldl (\<lambda>acc d. acc * 16 + d) 0 ds = g"
    by (rule hex_int_digits [OF assms(1)])
  show ?thesis
    using hex_group_digits [of ds 0 0 r] ds assms by (simp add: group_ok_def)
qed

lemma hex_int_chars:
  assumes "group_ok g"
  shows "hex_int g \<noteq> []" "list_all (\<lambda>c. hexval c \<noteq> None) (hex_int g)"
proof -
  obtain ds where "hex_int g = map (\<lambda>d. hexdig (nat d)) ds" "list_all (\<lambda>d. 0 \<le> d \<and> d < 16) ds" "ds \<noteq> []"
    by (rule hex_int_digits [OF assms])
  then show "hex_int g \<noteq> []" "list_all (\<lambda>c. hexval c \<noteq> None) (hex_int g)"
    by (auto simp: list_all_iff hexval_digit)
qed

lemma hexval_seps [simp]: "hexval (CHR '':'') = None" "hexval (CHR ''%'') = None" "hexval (CHR ''.'') = None"
  by (simp_all add: hexval_def)

lemma hex_int_hd:
  assumes "group_ok g"
  shows "hd (hex_int g @ r) \<noteq> CHR '':''"
  using hex_int_chars [OF assms] by (cases "hex_int g") auto

lemma join_groups_hd:
  assumes "gs \<noteq> []" "list_all group_ok gs"
  shows "Join '':'' (map hex_int gs) \<noteq> []" "hd (Join '':'' (map hex_int gs) @ r) \<noteq> CHR '':''"
  using assms hex_int_chars hex_int_hd
  by (cases gs; cases "tl gs"; fastforce)+

lemma v6_last:
  assumes "ns \<noteq> []" "list_all group_ok ns" "length gs + length ns \<le> 8"
  shows "v6_loop (Join '':'' (map hex_int ns)) gs el = v6_finish [] (gs @ ns) el"
  using assms
proof (induction ns arbitrary: gs)
  case (Cons n ns)
  show ?case
  proof (cases "ns = []")
    case True
    then show ?thesis using Cons.prems hex_group_int [of n "[]"] by (simp add: v6_loop.simps)
  next
    case False
    have h: "Join '':'' (map hex_int ns) \<noteq> []" "hd (Join '':'' (map hex_int ns)) \<noteq> CHR '':''"
      using join_groups_hd(1) [of ns] join_groups_hd(2) [of ns "[]"] Cons.prems False by simp_all
    have "Join '':'' (map hex_int (n # ns)) = hex_int n @ '':'' @ Join '':'' (map hex_int ns)"
      using False Join_Cons [of "map hex_int ns" "'':''" "hex_int n"] by simp
    moreover have "v6_loop (hex_int n @ '':'' @ Join '':'' (map hex_int ns)) gs el =
        v6_loop (Join '':'' (map hex_int ns)) (gs @ [n]) el"
      using Cons.prems h hex_group_int [of n "'':'' @ Join '':'' (map hex_int ns)"]
      by (subst v6_loop.simps) simp
    ultimately show ?thesis using Cons.IH [of "gs @ [n]"] Cons.prems False by simp
  qed
qed simp

lemma v6_ellipsis:
  assumes "ns \<noteq> []" "list_all group_ok ns" "length gs + length ns \<le> 8"
  shows "v6_loop (Join '':'' (map hex_int ns) @ ''::'' @ r) gs None =
    (if r = [] then v6_finish [] (gs @ ns) (Some (length gs + length ns))
     else v6_loop r (gs @ ns) (Some (length gs + length ns)))"
  using assms
proof (induction ns arbitrary: gs)
  case (Cons n ns)
  show ?case
  proof (cases "ns = []")
    case True
    then show ?thesis using Cons.prems hex_group_int [of n "''::'' @ r"]
      by (subst v6_loop.simps) simp
  next
    case False
    have h: "Join '':'' (map hex_int ns) \<noteq> []" "hd (Join '':'' (map hex_int ns) @ ''::'' @ r) \<noteq> CHR '':''"
      using join_groups_hd(1) [of ns] join_groups_hd(2) [of ns "''::'' @ r"] Cons.prems False by simp_all
    have "Join '':'' (map hex_int (n # ns)) = hex_int n @ '':'' @ Join '':'' (map hex_int ns)"
      using False Join_Cons [of "map hex_int ns" "'':''" "hex_int n"] by simp
    moreover have "v6_loop (hex_int n @ '':'' @ Join '':'' (map hex_int ns) @ ''::'' @ r) gs None =
        v6_loop (Join '':'' (map hex_int ns) @ ''::'' @ r) (gs @ [n]) None"
      using Cons.prems h hex_group_int [of n "'':'' @ Join '':'' (map hex_int ns) @ ''::'' @ r"]
      by (subst v6_loop.simps) simp
    ultimately show ?thesis using Cons.IH [of "gs @ [n]"] Cons.prems False by simp
  qed
qed simp

lemma longest_zeros_run:
  assumes "longest_zeros gs is best = Some (i, l)"
  shows "best = Some (i, l) \<or> 2 \<le> l \<and> l = zero_run gs i"
  using assms by (induction gs "is" best rule: longest_zeros.induct) (auto simp: Let_def split: if_splits option.splits)

lemma zero_run_split:
  assumes "zero_run gs i = l" "0 < l"
  shows "i + l \<le> length gs" "gs = take i gs @ replicate l 0 @ drop (i + l) gs"
proof -
  have t: "takeWhile (\<lambda>g. g = 0) (drop i gs) = replicate l 0"
    using assms(1) by (metis (full_types) zero_run_def replicate_length_same set_takeWhileD)
  have "length (takeWhile (\<lambda>g. g = 0) (drop i gs)) \<le> length (drop i gs)" by (rule length_takeWhile_le)
  then show "i + l \<le> length gs" using assms by (simp add: zero_run_def)
  have "drop i gs = replicate l 0 @ drop l (drop i gs)"
    using t assms(1) by (metis append_take_drop_id takeWhile_eq_take zero_run_def)
  then show "gs = take i gs @ replicate l 0 @ drop (i + l) gs"
    by (metis append_take_drop_id drop_drop add.commute)
qed

text \<open>The characters of the canonical text.\<close>

definition v6_char :: "char \<Rightarrow> bool" where
  "v6_char c \<longleftrightarrow> hexval c \<noteq> None \<or> c = CHR '':''"

lemma groups_chars:
  assumes "list_all group_ok gs"
  shows "list_all v6_char (Join '':'' (map hex_int gs))"
proof (rule Join_chars)
  show "list_all (list_all v6_char) (map hex_int gs)"
    using assms hex_int_chars(2) by (fastforce simp: list_all_iff v6_char_def)
qed (simp add: v6_char_def)

lemma list_all_take_drop: "list_all P xs \<Longrightarrow> list_all P (take n xs) \<and> list_all P (drop n xs)"
  by (metis append_take_drop_id list_all_append)

lemma string6_chars:
  assumes "list_all group_ok gs"
  shows "list_all v6_char (string6 gs)"
  using groups_chars list_all_take_drop [OF assms] assms
  by (auto simp: string6_def v6_char_def [of "CHR '':''"] split: option.splits)

text \<open>Parsing the groups of the canonical text.\<close>

definition v6_groups :: "string \<Rightarrow> int list option" where
  "v6_groups s =
     (if HasPrefix s ''::'' then (if s = ''::'' then Some (replicate 8 0) else v6_loop (drop 2 s) [] (Some 0))
      else v6_loop s [] None)"

lemma parseIPv6_groups:
  assumes "list_all v6_char s"
  shows "parseIPv6 (s @ (if z = [] then [] else CHR ''%'' # z)) = map_option (\<lambda>gs. V6 gs z) (v6_groups s)"
proof -
  have "\<forall>c\<in>set s. c \<noteq> CHR ''%''" using assms by (auto simp: list_all_iff v6_char_def)
  then have "takeWhile (\<lambda>c. c \<noteq> CHR ''%'') (s @ (if z = [] then [] else CHR ''%'' # z)) = s"
    "dropWhile (\<lambda>c. c \<noteq> CHR ''%'') (s @ (if z = [] then [] else CHR ''%'' # z)) = (if z = [] then [] else CHR ''%'' # z)"
    by (auto simp: takeWhile_append2 dropWhile_append2)
  then show ?thesis by (simp add: parseIPv6_def v6_groups_def Let_def)
qed

lemma no_ellipsis_prefix: "hd s \<noteq> CHR '':'' \<Longrightarrow> \<not> HasPrefix s ''::''"
  by (cases s) auto

lemma v6_groups_string6:
  assumes "length gs = 8" "list_all group_ok gs"
  shows "v6_groups (string6 gs) = Some gs"
proof (cases "longest_zeros gs [0, 1, 2, 3, 4, 5, 6, 7] None")
  case None
  have "gs \<noteq> []" using assms by auto
  then have "\<not> HasPrefix (Join '':'' (map hex_int gs)) ''::''"
    using join_groups_hd(2) [of gs "[]"] assms(2) no_ellipsis_prefix by simp
  moreover have "string6 gs = Join '':'' (map hex_int gs)" unfolding string6_def None by simp
  ultimately show ?thesis using v6_last [of gs "[]" None] \<open>gs \<noteq> []\<close> assms
    by (simp add: v6_groups_def v6_finish_def)
next
  case (Some il)
  obtain i l where il: "il = (i, l)" by (cases il)
  have l: "2 \<le> l" "zero_run gs i = l" using longest_zeros_run [OF Some [unfolded il]] by auto
  then have "0 < l" by simp
  note sp = zero_run_split [OF l(2) this]
  define pre post where "pre = take i gs" and "post = drop (i + l) gs"
  have gs: "gs = pre @ replicate l 0 @ post" using sp(2) by (simp add: pre_def post_def)
  have ok: "list_all group_ok pre" "list_all group_ok post" using assms(2) by (subst (asm) gs, simp)+
  have len: "length pre + l + length post = 8" "l \<noteq> 0" using assms(1) l(1) by (subst (asm) gs, simp)+
  have fin: "v6_finish [] (pre @ post) (Some (length pre)) = Some gs"
    using len gs by (auto simp: v6_finish_def)
  have s6: "string6 gs = Join '':'' (map hex_int pre) @ ''::'' @ Join '':'' (map hex_int post)"
    unfolding string6_def Some il by (simp add: pre_def post_def)
  have post: "v6_loop (Join '':'' (map hex_int post)) pre (Some (length pre)) = Some gs" if "post \<noteq> []"
    using v6_last [OF that ok(2), of pre "Some (length pre)"] len fin by simp
  show ?thesis
  proof (cases "pre = []")
    case True
    have "replicate 8 0 = gs" if "post = []" using gs True that len by simp
    then show ?thesis using post True join_groups_hd(1) [of post] ok(2) unfolding s6
      by (cases "post = []") (simp_all add: v6_groups_def)
  next
    case False
    have "\<not> HasPrefix (Join '':'' (map hex_int pre) @ ''::'' @ Join '':'' (map hex_int post)) ''::''"
      using no_ellipsis_prefix join_groups_hd(2) [OF False ok(1)] by blast
    then show ?thesis unfolding s6
      using v6_ellipsis [OF False ok(1), of "[]" "Join '':'' (map hex_int post)"] post fin len join_groups_hd(1) [of post] ok(2)
      by (cases "post = []") (simp_all add: v6_groups_def)
  qed
qed

text \<open>The scan finds the separator of the right kind first.\<close>

lemma ParseAddr_scan_skip:
  assumes "list_all (\<lambda>c. c \<noteq> CHR ''.'' \<and> c \<noteq> CHR '':'' \<and> c \<noteq> CHR ''%'') a"
  shows "ParseAddr_scan s (a @ r) = ParseAddr_scan s r"
  using assms by (induction a) auto

lemma string6_colon:
  assumes "length gs = 8" "list_all group_ok gs"
  obtains a b where "string6 gs = a @ CHR '':'' # b" "list_all (\<lambda>c. hexval c \<noteq> None) a"
proof -
  have two: "\<exists>a b. Join '':'' (map hex_int (n # ns)) @ x = a @ CHR '':'' # b \<and> list_all (\<lambda>c. hexval c \<noteq> None) a"
    if "group_ok n" "ns \<noteq> [] \<or> (\<exists>y. x = CHR '':'' # y)" for n ns x
  proof (cases "ns = []")
    case True
    then show ?thesis using that hex_int_chars(2) [OF that(1)] by auto
  next
    case False
    then show ?thesis using Join_Cons [of "map hex_int ns" "'':''" "hex_int n"] hex_int_chars(2) [OF that(1)] by auto
  qed
  obtain n ns where gs: "gs = n # ns" "ns \<noteq> []" "group_ok n" using assms by (cases gs; cases "tl gs") auto
  have "\<exists>a b. string6 gs = a @ CHR '':'' # b \<and> list_all (\<lambda>c. hexval c \<noteq> None) a"
  proof (cases "longest_zeros gs [0, 1, 2, 3, 4, 5, 6, 7] None")
    case None
    then show ?thesis using two [of n ns "[]"] gs unfolding string6_def None by simp
  next
    case (Some il)
    obtain i l where il: "il = (i, l)" by (cases il)
    show ?thesis unfolding string6_def Some il
      using two [of n "take (i - 1) ns" "''::'' @ Join '':'' (map hex_int (drop (i + l) gs))"] gs
      by (cases i) (auto intro: exI [of _ "[]"])
  qed
  then show ?thesis using that by blast
qed

lemma ParseAddr_String:
  assumes "wf_addr a"
  shows "ParseAddr (Addr_String a) = Some a"
proof (cases a)
  case (V4 bs)
  obtain w x y z where bs: "bs = [w, x, y, z]"
    using assms V4 by (auto simp: numeral_eq_Suc length_Suc_conv)
  have "list_all (\<lambda>c. c \<noteq> CHR ''.'' \<and> c \<noteq> CHR '':'' \<and> c \<noteq> CHR ''%'') (Itoa w)"
    using assms V4 bs digits_nat_digits [of "nat w"] by (auto simp: Itoa_def byte_ok_def list_all_iff is_digit_def)
  then have "ParseAddr (string4 bs) = parseIPv4 (string4 bs)"
    using ParseAddr_scan_skip [of "Itoa w" "string4 bs"] by (simp add: ParseAddr_def string4_def bs)
  then show ?thesis using v4_round [of w x y z] assms V4 bs by (simp add: parseIPv4_def)
next
  case (V6 gs z)
  then have gs: "length gs = 8" "list_all group_ok gs" using assms by simp_all
  obtain c d where cd: "string6 gs = c @ CHR '':'' # d" "list_all (\<lambda>c. hexval c \<noteq> None) c"
    by (rule string6_colon [OF gs])
  have sep: "list_all (\<lambda>c. c \<noteq> CHR ''.'' \<and> c \<noteq> CHR '':'' \<and> c \<noteq> CHR ''%'') c"
    using cd(2) by (auto simp: list_all_iff)
  define t where "t = string6 gs @ (if z = [] then [] else CHR ''%'' # z)"
  have "ParseAddr_scan t t = parseIPv6 t"
    using ParseAddr_scan_skip [OF sep, of t "CHR '':'' # d @ (if z = [] then [] else CHR ''%'' # z)"]
    by (simp add: t_def cd(1))
  then show ?thesis
    using parseIPv6_groups [OF string6_chars [OF gs(2)], of z] v6_groups_string6 [OF gs] V6
    by (simp add: ParseAddr_def t_def)
qed

section \<open>Parsed addresses are well formed\<close>

lemma v4_fields_wf:
  assumes "v4_fields s fs val k = Some r" "list_all byte_ok fs" "length fs \<le> 3" "byte_ok val"
  shows "length r = 4 \<and> list_all byte_ok r"
  using assms
proof (induction s fs val k rule: v4_fields.induct)
  case (2 c cs fs val k)
  have "byte_ok 0" by (simp add: byte_ok_def)
  moreover have "byte_ok (val * 10 + (of_char c - 48))" if "is_digit c" "\<not> val * 10 + (of_char c - 48) > 255"
    using that 2(5,6) of_nat_of_char [of c, where ?'a = int] by (auto simp: byte_ok_def is_digit_def Let_def)
  ultimately show ?case using 2 by (auto simp: Let_def split: if_splits)
qed (auto split: if_splits)

lemma hex_group_wf:
  assumes "hex_group s k acc = Some (v, r)" "group_ok acc"
  shows "group_ok v"
  using assms by (induction s k acc rule: hex_group.induct) (auto simp: group_ok_def split: option.splits if_splits)

definition wf_ellipsis :: "int list \<Rightarrow> nat option \<Rightarrow> bool" where
  "wf_ellipsis gs el \<longleftrightarrow> (case el of None \<Rightarrow> True | Some e \<Rightarrow> e \<le> length gs)"

lemma v6_finish_wf:
  assumes "v6_finish s gs el = Some r" "list_all group_ok gs" "length gs \<le> 8" "wf_ellipsis gs el"
  shows "length r = 8 \<and> list_all group_ok r"
proof -
  have "list_all group_ok (replicate n 0)" for n by (simp add: list_all_iff group_ok_def)
  then show ?thesis using assms list_all_take_drop [of group_ok gs]
    by (auto simp: v6_finish_def wf_ellipsis_def split: if_splits option.splits)
qed

lemma v6_embedded_wf:
  assumes "v6_embedded s gs el = Some r" "list_all group_ok gs" "wf_ellipsis gs el"
  shows "length r = 8 \<and> list_all group_ok r"
proof -
  from assms(1) obtain a b c d where v: "v4_fields s [] 0 0 = Some [a, b, c, d]" "length gs + 2 \<le> 8"
    "v6_finish [] (gs @ [a * 256 + b, c * 256 + d]) el = Some r"
    by (auto simp: v6_embedded_def split: if_splits option.splits list.splits)
  have "list_all byte_ok [a, b, c, d]" using v4_fields_wf [OF v(1)] by (simp add: byte_ok_def)
  then have "list_all group_ok (gs @ [a * 256 + b, c * 256 + d])"
    using assms(2) by (auto simp: byte_ok_def group_ok_def)
  then show ?thesis using v6_finish_wf [OF v(3)] v(2) assms(3) by (auto simp: wf_ellipsis_def split: option.splits)
qed

lemma v6_loop_wf:
  assumes "v6_loop s gs el = Some r" "list_all group_ok gs" "length gs \<le> 8" "wf_ellipsis gs el"
  shows "length r = 8 \<and> list_all group_ok r"
  using assms
proof (induction s gs el rule: v6_loop.induct)
  case (1 s gs el)
  show ?case
  proof (cases "length gs \<ge> 8")
    case True
    then show ?thesis using 1(3) v6_finish_wf [OF _ 1(4-6)] by (simp add: v6_loop.simps [of s])
  next
    case False
    obtain acc t where h: "hex_group s 0 0 = Some (acc, t)"
      using 1(3) False by (auto simp: v6_loop.simps [of s] split: option.splits)
    have g: "list_all group_ok (gs @ [acc])" "length (gs @ [acc]) \<le> 8"
      "wf_ellipsis (gs @ [acc]) el" "wf_ellipsis (gs @ [acc]) (Some (Suc (length gs)))"
      using hex_group_wf [OF h] 1(4,6) False by (auto simp: group_ok_def [of 0] wf_ellipsis_def split: option.splits)
    consider (last) "v6_finish [] (gs @ [acc]) el = Some r"
      | (embedded) "v6_embedded s gs el = Some r"
      | (ends) "v6_finish [] (gs @ [acc]) (Some (Suc (length gs))) = Some r"
      | (ellipsis) "t \<noteq> []" "hd t \<noteq> CHR ''.''" "\<not> (hd t \<noteq> CHR '':'' \<or> tl t = [])" "hd (tl t) = CHR '':''"
          "\<not> el \<noteq> None" "tl (tl t) \<noteq> []" "v6_loop (tl (tl t)) (gs @ [acc]) (Some (Suc (length gs))) = Some r"
      | (more) "t \<noteq> []" "hd t \<noteq> CHR ''.''" "\<not> (hd t \<noteq> CHR '':'' \<or> tl t = [])" "hd (tl t) \<noteq> CHR '':''"
          "v6_loop (tl t) (gs @ [acc]) el = Some r"
      using 1(3) unfolding v6_loop.simps [of s gs el] by (simp add: False h split: if_splits)
    then show ?thesis
    proof cases
      case last then show ?thesis using v6_finish_wf g by blast
    next
      case embedded then show ?thesis using v6_embedded_wf 1(4,6) by blast
    next
      case ends then show ?thesis using v6_finish_wf g by blast
    next
      case ellipsis then show ?thesis using 1(1) [OF False h refl] g by blast
    next
      case more then show ?thesis using 1(2) [OF False h refl] g by blast
    qed
  qed
qed

lemma ParseAddr_wf:
  assumes "ParseAddr s = Some a"
  shows "wf_addr a"
proof -
  have v4: "wf_addr a" if "parseIPv4 s = Some a"
    using that v4_fields_wf [of s "[]" 0 0] by (auto simp: parseIPv4_def byte_ok_def)
  have v6: "wf_addr a" if "parseIPv6 s = Some a"
    using that v6_loop_wf [where gs = "[]"]
    by (auto simp: parseIPv6_def Let_def wf_ellipsis_def group_ok_def list_all_iff split: if_splits)
  have "ParseAddr_scan s t = Some a \<Longrightarrow> wf_addr a" for t
    by (induction t) (auto simp: v4 v6 split: if_splits)
  then show ?thesis using assms by (simp add: ParseAddr_def)
qed

lemma Unmap_wf:
  assumes "wf_addr a"
  shows "wf_addr (Unmap a)"
proof (cases a)
  case (V6 gs z)
  have "group_ok (gs ! 6)" "group_ok (gs ! 7)" using assms V6 by (auto simp: list_all_length)
  then show ?thesis using assms V6 by (auto simp: byte_ok_def group_ok_def)
qed (use assms in simp)

lemma Unmap_idem [simp]: "Unmap (Unmap a) = Unmap a"
  by (cases a) auto

end
