(* ===== verification/Go_SHA256.thy ===== *)
theory Go_SHA256
  imports TS_Prelude
begin

text \<open>
  SHA-256 (\<^verbatim>\<open>crypto/sha256\<close>) and the hexadecimal text of a digest (\<^verbatim>\<open>encoding/hex\<close>), from which the
  code derives stable identifiers.  Nothing is assumed about collisions here: what relies on the
  absence of collisions says so where it is used.
\<close>

section \<open>The compression function\<close>

text \<open>
  The round constants and the initial state are the first 32 bits of the fractional parts of the
  cube roots of the first 64 primes and of the square roots of the first eight.  A root is built from
  its highest bit; 35 bits hold the roots of numbers below 512 with 32 binary places.
\<close>

fun root_bits :: "nat \<Rightarrow> int \<Rightarrow> nat \<Rightarrow> int \<Rightarrow> int" where
  "root_bits k n 0 r = r"
| "root_bits k n (Suc b) r = root_bits k n b (if (r + 2 ^ b) ^ k \<le> n then r + 2 ^ b else r)"

definition frac_root :: "nat \<Rightarrow> int \<Rightarrow> 32 word" where
  "frac_root k p = word_of_int (root_bits k (p * 2 ^ (32 * k)) 35 0)"

definition sha_primes :: "int list" where
  "sha_primes = filter (\<lambda>p. list_all (\<lambda>d. p mod d \<noteq> 0) [2..p - 1]) [2..311]"

definition sha_K :: "32 word list" where
  "sha_K = map (frac_root 3) sha_primes"

definition sha_H0 :: "32 word list" where
  "sha_H0 = map (frac_root 2) (take 8 sha_primes)"

definition rotr :: "nat \<Rightarrow> 32 word \<Rightarrow> 32 word" where
  "rotr n x = drop_bit n x OR push_bit (32 - n) x"

text \<open>The message schedule, kept with its latest word first.\<close>

definition sha_next :: "32 word list \<Rightarrow> 32 word" where
  "sha_next ws =
     (let v1 = ws ! 1; t1 = rotr 17 v1 XOR rotr 19 v1 XOR drop_bit 10 v1;
          v2 = ws ! 14; t2 = rotr 7 v2 XOR rotr 18 v2 XOR drop_bit 3 v2
      in t1 + ws ! 6 + t2 + ws ! 15)"

fun sha_schedule :: "nat \<Rightarrow> 32 word list \<Rightarrow> 32 word list" where
  "sha_schedule 0 ws = ws"
| "sha_schedule (Suc n) ws = sha_schedule n (sha_next ws # ws)"

fun sha_round :: "32 word list \<Rightarrow> 32 word \<times> 32 word \<Rightarrow> 32 word list" where
  "sha_round [a, b, c, d, e, f, g, h] (k, w) =
     (let t1 = h + (rotr 6 e XOR rotr 11 e XOR rotr 25 e) + ((e AND f) XOR (NOT e AND g)) + k + w;
          t2 = (rotr 2 a XOR rotr 13 a XOR rotr 22 a) + ((a AND b) XOR (a AND c) XOR (b AND c))
      in [t1 + t2, a, b, c, d + t1, e, f, g])"
| "sha_round st _ = st"

definition sha_block :: "32 word list \<Rightarrow> 32 word list \<Rightarrow> 32 word list" where
  "sha_block st ws =
     map2 (+) st (foldl sha_round st (zip sha_K (rev (sha_schedule 48 (rev ws)))))"

section \<open>Padding and the digest\<close>

definition sha_pad :: "int list \<Rightarrow> int list" where
  "sha_pad bs =
     (let n = length bs; bits = 8 * int n in
      bs @ [128] @ replicate ((119 - n mod 64) mod 64) 0 @
      map (\<lambda>i. bits div 256 ^ i mod 256) [7, 6, 5, 4, 3, 2, 1, 0])"

fun be_words :: "int list \<Rightarrow> 32 word list" where
  "be_words (a # b # c # d # bs) = word_of_int (((a * 256 + b) * 256 + c) * 256 + d) # be_words bs"
| "be_words _ = []"

function sha_blocks :: "32 word list \<Rightarrow> 32 word list \<Rightarrow> 32 word list" where
  "sha_blocks st ws = (if ws = [] then st else sha_blocks (sha_block st (take 16 ws)) (drop 16 ws))"
  by auto
termination by (relation "measure (\<lambda>(_, ws). length ws)") auto

declare sha_blocks.simps [simp del]

definition Sum256 :: "string \<Rightarrow> 32 word list" where
  "Sum256 s = sha_blocks sha_H0 (be_words (sha_pad (map of_char s)))"

definition hex_digit :: "int \<Rightarrow> char" where
  "hex_digit n = (if n < 10 then char_of (48 + n) else char_of (87 + n))"

definition hex_word :: "32 word \<Rightarrow> string" where
  "hex_word w = map (\<lambda>i. hex_digit (uint (drop_bit (4 * i) w) mod 16)) [7, 6, 5, 4, 3, 2, 1, 0]"

text \<open>\<^verbatim>\<open>hex.EncodeToString\<close> of the 32 bytes of a digest.\<close>

definition hex_sum :: "string \<Rightarrow> string" where
  "hex_sum s = concat (map hex_word (Sum256 s))"

section \<open>The text of a digest\<close>

lemma length_sha_round: "length st = 8 \<Longrightarrow> length (sha_round st kw) = 8"
  by (cases "(st, kw)" rule: sha_round.cases) (auto simp: Let_def)

lemma length_rounds: "length st = 8 \<Longrightarrow> length (foldl sha_round st kws) = 8"
  by (induction kws arbitrary: st) (simp_all add: length_sha_round)

lemma length_sha_blocks: "length st = 8 \<Longrightarrow> length (sha_blocks st ws) = 8"
proof (induction st ws rule: sha_blocks.induct)
  case (1 st ws)
  then show ?case by (subst sha_blocks.simps) (simp add: sha_block_def length_rounds)
qed

lemma length_sha_H0: "length sha_H0 = 8"
proof -
  let ?p = "\<lambda>p :: int. list_all (\<lambda>d. p mod d \<noteq> 0) [2..p - 1]"
  have "[2..311 :: int] = [2..19] @ [19 + 1..311]" by (rule upto_split2) simp_all
  then have p: "sha_primes = filter ?p [2..19] @ filter ?p [19 + 1..311]"
    unfolding sha_primes_def by (simp only: filter_append)
  have l: "length (filter ?p [2..19]) = 8" by code_simp
  have r: "length (take 8 (a @ b)) = 8" if "length a = 8" for a b :: "int list" using that by simp
  show ?thesis unfolding sha_H0_def length_map p by (rule r) (rule l)
qed

lemma hex_digit_lower: "hex_digit (n mod 16) \<in> set ''0123456789abcdef''"
proof -
  have "n mod 16 \<in> {0..15}" by simp
  moreover have "{0..15} = set [0..15 :: int]" by simp
  moreover have "list_all (\<lambda>m. hex_digit m \<in> set ''0123456789abcdef'') [0..15]" by code_simp
  ultimately show ?thesis by (simp only: list_all_iff)
qed

lemma hex_sum_text: "length (hex_sum s) = 64" "set (hex_sum s) \<subseteq> set ''0123456789abcdef''"
proof -
  have "length (Sum256 s) = 8" unfolding Sum256_def by (rule length_sha_blocks) (rule length_sha_H0)
  moreover have "length (concat (map hex_word ws)) = 8 * length ws" for ws
    by (induction ws) (simp_all add: hex_word_def)
  ultimately show "length (hex_sum s) = 64" by (simp add: hex_sum_def)
  have "set (hex_word w) \<subseteq> set ''0123456789abcdef''" for w
    unfolding hex_word_def set_map image_subset_iff using hex_digit_lower by blast
  then show "set (hex_sum s) \<subseteq> set ''0123456789abcdef''"
    unfolding hex_sum_def set_concat set_map by blast
qed

end
