(* ===== verification/Port_Types.thy ===== *)
theory Port_Types
  imports Go_Netip Go_SHA256 Outcome
begin

text \<open>
  The vocabulary of the host port inventory (\<^verbatim>\<open>src/internal/portinventory/types.go\<close>): listener
  requirements and their normalization, reservations, claims and claim generations, and the stable
  identifiers and digests of \<^verbatim>\<open>memory.go\<close>.  A port is a 16-bit word.
\<close>

section \<open>Data\<close>

definition ErrorCodeAllocationConflict :: string where "ErrorCodeAllocationConflict = ''port_allocation_conflict''"
definition ReasonCodeHostPortReserved :: string where "ReasonCodeHostPortReserved = ''host_port_reserved''"
definition TeardownSnapshotAPIVersion :: string where
  "TeardownSnapshotAPIVersion = ''techstack.port-teardown-snapshot/v2''"

definition TransportTCP :: string where "TransportTCP = ''tcp''"
definition TransportUDP :: string where "TransportUDP = ''udp''"
definition SharingExclusive :: string where "SharingExclusive = ''exclusive''"
definition SharingVirtualHost :: string where "SharingVirtualHost = ''virtual-host''"
definition ExposureLocal :: string where "ExposureLocal = ''local''"
definition ExposureLAN :: string where "ExposureLAN = ''lan''"
definition ExposureRemotePrivate :: string where "ExposureRemotePrivate = ''remote-private''"
definition ExposurePublic :: string where "ExposurePublic = ''public''"

lemmas port_consts = TransportTCP_def TransportUDP_def SharingExclusive_def SharingVirtualHost_def
  ExposureLocal_def ExposureLAN_def ExposureRemotePrivate_def ExposurePublic_def

text \<open>\<^verbatim>\<open>ClaimStateNone\<close> is the zero value, which a stored claim has.\<close>

datatype ClaimState =
    ClaimStateNone
  | ClaimStatePending
  | ClaimStateMutating
  | ClaimStateActive
  | ClaimStateUncertain
  | ClaimStateReleased

datatype ReservationState = ReservationStateReserved | ReservationStateReleased

record ServerRef =
  sr_TenantID :: string
  sr_ServerID :: string
  sr_ServerGeneration :: int

record GenerationRef =
  gr_ServerRef :: ServerRef
  gr_StackID :: string
  gr_ResolvedPlanHash :: string

record Requirement =
  rq_ID :: string
  rq_NodeRef :: string
  rq_Transport :: string
  rq_BindAddress :: string
  rq_Port :: "16 word"
  rq_Sharing :: string
  rq_ListenerGroupRef :: string
  rq_Exposure :: string
  rq_SourceRouteRefs :: "string list"

record AdmissionRequest =
  ar_ServerRef :: ServerRef
  ar_StackID :: string
  ar_ResolvedPlanHash :: string
  ar_Requirements :: "Requirement list"

record Reservation =
  rv_ID :: string
  rv_ServerRef :: ServerRef
  rv_Transport :: string
  rv_BindAddress :: string
  rv_Port :: "16 word"
  rv_Sharing :: string
  rv_ListenerGroupRef :: string
  rv_State :: ReservationState

record Claim =
  cl_ID :: string
  cl_ReservationID :: string
  cl_ServerRef :: ServerRef
  cl_StackID :: string
  cl_ResolvedPlanHash :: string
  cl_Requirement :: Requirement
  cl_State :: ClaimState

record ClaimGeneration =
  cg_Ref :: GenerationRef
  cg_ClaimSetDigest :: string
  cg_State :: ClaimState

record PortSnapshot =
  sn_ServerRef :: ServerRef
  sn_Reservations :: "Reservation list"
  sn_ClaimGenerations :: "ClaimGeneration list"
  sn_Claims :: "Claim list"

record ConflictError =
  ce_ErrorCode :: string
  ce_ReasonCode :: string
  ce_Retryable :: bool
  ce_Transport :: string
  ce_BindAddress :: string
  ce_Port :: "16 word"
  ce_Title :: string
  ce_Body :: string
  ce_NextSteps :: "string list"

datatype port_error =
    ErrInvalidRequirement
  | ErrInvalidRequest
  | ErrAllocationConflict ConflictError
  | ErrInvalidTransition
  | ErrClaimGenerationNotFound
  | ErrTeardownSnapshotMismatch
  | ErrContext string

section \<open>Normalization\<close>

definition normalizeBindAddress :: "string \<Rightarrow> port_error + string" where
  "normalizeBindAddress value0 =
     (let v = TrimSpace value0 in
      if v = [] \<or> v = ''*'' \<or> v = ''0.0.0.0'' \<or> v = ''::'' then Inr ''*''
      else case ParseAddr v of
          None \<Rightarrow> Inl ErrInvalidRequirement
        | Some a \<Rightarrow> Inr (Addr_String (Unmap a)))"

text \<open>The loop of \<^verbatim>\<open>normalizeRefs\<close> is that of \<^const>\<open>compact_loop\<close>.\<close>

definition normalizeRefs :: "string list \<Rightarrow> string list" where
  "normalizeRefs vs = sort (compact_loop [] vs)"

definition NormalizeRequirement :: "Requirement \<Rightarrow> port_error + Requirement" where
  "NormalizeRequirement input0 =
     (let input = input0\<lparr>rq_ID := TrimSpace (rq_ID input0), rq_NodeRef := TrimSpace (rq_NodeRef input0),
            rq_ListenerGroupRef := TrimSpace (rq_ListenerGroupRef input0),
            rq_Transport := ToLower (TrimSpace (rq_Transport input0)),
            rq_Sharing := ToLower (TrimSpace (rq_Sharing input0)),
            rq_Exposure := ToLower (TrimSpace (rq_Exposure input0))\<rparr>
      in if rq_ID input = [] \<or> rq_Port input = 0 then Inl ErrInvalidRequirement
         else if rq_Transport input \<noteq> TransportTCP \<and> rq_Transport input \<noteq> TransportUDP then Inl ErrInvalidRequirement
         else if rq_Sharing input \<noteq> SharingExclusive \<and> rq_Sharing input \<noteq> SharingVirtualHost then Inl ErrInvalidRequirement
         else if rq_Exposure input \<noteq> ExposureLocal \<and> rq_Exposure input \<noteq> ExposureLAN \<and>
           rq_Exposure input \<noteq> ExposureRemotePrivate \<and> rq_Exposure input \<noteq> ExposurePublic then Inl ErrInvalidRequirement
         else if rq_Sharing input = SharingVirtualHost \<and> rq_ListenerGroupRef input = [] then Inl ErrInvalidRequirement
         else if rq_Sharing input = SharingExclusive \<and> rq_ListenerGroupRef input \<noteq> [] then Inl ErrInvalidRequirement
         else case normalizeBindAddress (rq_BindAddress input) of
             Inl e \<Rightarrow> Inl e
           | Inr address \<Rightarrow>
               Inr (input\<lparr>rq_BindAddress := address, rq_SourceRouteRefs := normalizeRefs (rq_SourceRouteRefs input)\<rparr>))"

definition normalizeServerRef :: "ServerRef \<Rightarrow> ServerRef" where
  "normalizeServerRef r =
     r\<lparr>sr_TenantID := TrimSpace (sr_TenantID r), sr_ServerID := TrimSpace (sr_ServerID r)\<rparr>"

definition ref_valid :: "ServerRef \<Rightarrow> string \<Rightarrow> string \<Rightarrow> bool" where
  "ref_valid s stack plan \<longleftrightarrow>
     \<not> (sr_TenantID s = [] \<or> sr_ServerID s = [] \<or> sr_ServerGeneration s < 1 \<or> stack = [] \<or> plan = [])"

definition normalizeGenerationRef :: "GenerationRef \<Rightarrow> port_error + GenerationRef" where
  "normalizeGenerationRef r =
     (let r' = \<lparr>gr_ServerRef = normalizeServerRef (gr_ServerRef r), gr_StackID = TrimSpace (gr_StackID r),
           gr_ResolvedPlanHash = TrimSpace (gr_ResolvedPlanHash r)\<rparr>
      in if ref_valid (gr_ServerRef r') (gr_StackID r') (gr_ResolvedPlanHash r') then Inr r' else Inl ErrInvalidRequest)"

fun normalize_requirements :: "string list \<Rightarrow> Requirement list \<Rightarrow> port_error + Requirement list" where
  "normalize_requirements seen [] = Inr []"
| "normalize_requirements seen (r # rs) =
     (case NormalizeRequirement r of
        Inl e \<Rightarrow> Inl e
      | Inr n \<Rightarrow>
          if rq_ID n \<in> set seen then Inl ErrInvalidRequest
          else case normalize_requirements (rq_ID n # seen) rs of
              Inl e \<Rightarrow> Inl e
            | Inr ns \<Rightarrow> Inr (n # ns))"

definition normalizeAdmission :: "AdmissionRequest \<Rightarrow> port_error + AdmissionRequest" where
  "normalizeAdmission request =
     (let s = normalizeServerRef (ar_ServerRef request); stack = TrimSpace (ar_StackID request);
          plan = TrimSpace (ar_ResolvedPlanHash request)
      in if \<not> ref_valid s stack plan then Inl ErrInvalidRequest
         else case normalize_requirements [] (ar_Requirements request) of
             Inl e \<Rightarrow> Inl e
           | Inr ns \<Rightarrow>
               Inr \<lparr>ar_ServerRef = s, ar_StackID = stack, ar_ResolvedPlanHash = plan,
                 ar_Requirements = sort_key rq_ID ns\<rparr>)"

section \<open>Identifiers and digests\<close>

definition stableID :: "string \<Rightarrow> string list \<Rightarrow> string" where
  "stableID kind parts =
     kind @ ''_'' @ take 32 (hex_sum (kind @ concat (map (\<lambda>f. CHR 0x00 # f) parts)))"

definition requirement_json :: "Requirement \<Rightarrow> json" where
  "requirement_json r = JObj ([(''id'', JStr (rq_ID r))] @ opt_str ''node_ref'' (rq_NodeRef r) @
     [(''transport'', JStr (rq_Transport r)), (''bind_address'', JStr (rq_BindAddress r)),
      (''port'', JNum (Itoa (uint (rq_Port r)))), (''sharing'', JStr (rq_Sharing r))] @
     opt_str ''listener_group_ref'' (rq_ListenerGroupRef r) @ [(''exposure'', JStr (rq_Exposure r))] @
     (if rq_SourceRouteRefs r = [] then [] else [(''source_route_refs'', JArr (map JStr (rq_SourceRouteRefs r)))]))"

text \<open>The copy of the requirements is a nil slice when there are none.\<close>

definition admission_json :: "AdmissionRequest \<Rightarrow> json" where
  "admission_json r = JObj [(''tenant_id'', JStr (sr_TenantID (ar_ServerRef r))),
     (''server_id'', JStr (sr_ServerID (ar_ServerRef r))),
     (''server_generation'', JNum (Itoa (sr_ServerGeneration (ar_ServerRef r)))),
     (''stack_id'', JStr (ar_StackID r)), (''resolved_plan_hash'', JStr (ar_ResolvedPlanHash r)),
     (''requirements'', if ar_Requirements r = [] then JNull else JArr (map requirement_json (ar_Requirements r)))]"

definition admissionDigest :: "AdmissionRequest \<Rightarrow> string" where
  "admissionDigest r = ''sha256:'' @ hex_sum (print_json (admission_json r))"

definition serverKey :: "ServerRef \<Rightarrow> string" where
  "serverKey r = Join [CHR 0x00] [sr_TenantID r, sr_ServerID r, Itoa (sr_ServerGeneration r)]"

definition claimGenerationKey :: "GenerationRef \<Rightarrow> string" where
  "claimGenerationKey r = Join [CHR 0x00] [serverKey (gr_ServerRef r), gr_StackID r, gr_ResolvedPlanHash r]"

definition addressesOverlap :: "string \<Rightarrow> string \<Rightarrow> bool" where
  "addressesOverlap left right \<longleftrightarrow> left = ''*'' \<or> right = ''*'' \<or> left = right"

end
