(* ===== verification/Port_Inventory.thy ===== *)
theory Port_Inventory
  imports Port_Types
begin

text \<open>
  The authority over host ports (\<^verbatim>\<open>src/internal/portinventory/memory.go\<close>).  \<^verbatim>\<open>MemoryAuthority\<close> is the
  executable contract whose decisions the PostgreSQL authority loads and persists.  Every operation
  holds the authority's mutex, so an operation is one function on the whole state; a cancelled
  context is the argument \<open>ctx\<close>.  Where the code ranges over a map the model goes through its values
  in the order of the keys.
\<close>

section \<open>State\<close>

record inventoryState =
  is_ref :: ServerRef
  is_reservations :: "(string, Reservation) fmap"
  is_generations :: "(string, ClaimGeneration) fmap"
  is_claims :: "(string, Claim) fmap"

record MemoryAuthority =
  ma_servers :: "(string, inventoryState) fmap"

definition NewMemoryAuthority :: MemoryAuthority where
  "NewMemoryAuthority = \<lparr>ma_servers = fmempty\<rparr>"

definition cloneInventoryState :: "inventoryState option \<Rightarrow> ServerRef \<Rightarrow> inventoryState" where
  "cloneInventoryState source ref =
     (case source of
        None \<Rightarrow> \<lparr>is_ref = ref, is_reservations = fmempty, is_generations = fmempty, is_claims = fmempty\<rparr>
      | Some st \<Rightarrow> st\<lparr>is_ref := ref\<rparr>)"

section \<open>Claims and their generations\<close>

definition claim_ref :: "Claim \<Rightarrow> GenerationRef" where
  "claim_ref c = \<lparr>gr_ServerRef = cl_ServerRef c, gr_StackID = cl_StackID c, gr_ResolvedPlanHash = cl_ResolvedPlanHash c\<rparr>"

definition sameGeneration :: "Claim \<Rightarrow> GenerationRef \<Rightarrow> bool" where
  "sameGeneration c ref \<longleftrightarrow>
     cl_ServerRef c = gr_ServerRef ref \<and> cl_StackID c = gr_StackID ref \<and> cl_ResolvedPlanHash c = gr_ResolvedPlanHash ref"

definition sortClaims :: "Claim list \<Rightarrow> Claim list" where
  "sortClaims cs = sort_key cl_ID cs"

definition claimsForGeneration :: "inventoryState \<Rightarrow> ClaimGeneration \<Rightarrow> Claim list" where
  "claimsForGeneration st g =
     sortClaims (map (\<lambda>c. c\<lparr>cl_State := cg_State g\<rparr>) (filter (\<lambda>c. sameGeneration c (cg_Ref g)) (map_values (is_claims st))))"

definition claim_generation :: "inventoryState \<Rightarrow> Claim \<Rightarrow> ClaimGeneration option" where
  "claim_generation st c = fmlookup (is_generations st) (claimGenerationKey (claim_ref c))"

fun reusable_loop :: "inventoryState \<Rightarrow> string \<Rightarrow> string \<Rightarrow> bool \<Rightarrow> Claim list \<Rightarrow> bool" where
  "reusable_loop st reservationID stackID found [] = found"
| "reusable_loop st reservationID stackID found (c # cs) =
     (if cl_ReservationID c \<noteq> reservationID then reusable_loop st reservationID stackID found cs
      else case claim_generation st c of
          None \<Rightarrow> reusable_loop st reservationID stackID found cs
        | Some g \<Rightarrow>
            if cg_State g = ClaimStateReleased then reusable_loop st reservationID stackID found cs
            else if cl_StackID c \<noteq> stackID \<or> (cg_State g \<noteq> ClaimStateActive \<and> cg_State g \<noteq> ClaimStateUncertain)
            then False
            else reusable_loop st reservationID stackID True cs)"

definition exclusiveReservationReusable :: "inventoryState \<Rightarrow> string \<Rightarrow> string \<Rightarrow> bool" where
  "exclusiveReservationReusable st reservationID stackID =
     reusable_loop st reservationID stackID False (map_values (is_claims st))"

definition live_claim :: "inventoryState \<Rightarrow> Claim \<Rightarrow> bool" where
  "live_claim st c \<longleftrightarrow>
     (case claim_generation st c of None \<Rightarrow> False | Some g \<Rightarrow> cg_State g \<noteq> ClaimStateReleased)"

definition gcReservations :: "inventoryState \<Rightarrow> inventoryState" where
  "gcReservations st =
     (let live = map cl_ReservationID (filter (live_claim st) (map_values (is_claims st)))
      in st\<lparr>is_reservations :=
           fmmap_keys (\<lambda>i r. if i \<in> set live then r else r\<lparr>rv_State := ReservationStateReleased\<rparr>) (is_reservations st)\<rparr>)"

section \<open>Admission\<close>

definition newConflictError :: "Requirement \<Rightarrow> ConflictError" where
  "newConflictError r =
     \<lparr>ce_ErrorCode = ErrorCodeAllocationConflict, ce_ReasonCode = ReasonCodeHostPortReserved, ce_Retryable = False,
      ce_Transport = rq_Transport r, ce_BindAddress = rq_BindAddress r, ce_Port = rq_Port r,
      ce_Title = ''Host port already reserved'',
      ce_Body = ''This rollout requires a host listener that overlaps an existing reservation on the selected server.'',
      ce_NextSteps = [''Choose another server'', ''Change the StackKit listener declaration'',
        ''Remove the existing stack after verifying its teardown'']\<rparr>"

definition overlaps :: "Reservation \<Rightarrow> Requirement \<Rightarrow> bool" where
  "overlaps v r \<longleftrightarrow>
     \<not> (rv_Transport v \<noteq> rq_Transport r \<or> rv_Port v \<noteq> rq_Port r \<or> \<not> addressesOverlap (rv_BindAddress v) (rq_BindAddress r))"

definition shareable :: "inventoryState \<Rightarrow> string \<Rightarrow> Requirement \<Rightarrow> Reservation \<Rightarrow> bool" where
  "shareable st stackID r v \<longleftrightarrow>
     rv_BindAddress v = rq_BindAddress r \<and> rv_Sharing v = rq_Sharing r \<and>
     (if rq_Sharing r = SharingVirtualHost then rv_ListenerGroupRef v = rq_ListenerGroupRef r
      else if rq_Sharing r = SharingExclusive then exclusiveReservationReusable st (rv_ID v) stackID
      else False)"

fun scan_reservations ::
  "inventoryState \<Rightarrow> string \<Rightarrow> Requirement \<Rightarrow> Reservation list \<Rightarrow> Reservation option \<Rightarrow> port_error + Reservation option" where
  "scan_reservations st stackID r [] compatible = Inr compatible"
| "scan_reservations st stackID r (v # vs) compatible =
     (if rv_State v \<noteq> ReservationStateReserved then scan_reservations st stackID r vs compatible
      else if \<not> overlaps v r then scan_reservations st stackID r vs compatible
      else if shareable st stackID r v then scan_reservations st stackID r vs (Some v)
      else Inl (ErrAllocationConflict (newConflictError r)))"

definition reservation_id :: "ServerRef \<Rightarrow> Requirement \<Rightarrow> string" where
  "reservation_id s r = stableID ''reservation'' [sr_TenantID s, sr_ServerID s, Itoa (sr_ServerGeneration s),
     rq_Transport r, rq_BindAddress r, Itoa (uint (rq_Port r)), rq_Sharing r, rq_ListenerGroupRef r]"

definition claim_id :: "AdmissionRequest \<Rightarrow> Requirement \<Rightarrow> string" where
  "claim_id q r = stableID ''claim'' [sr_TenantID (ar_ServerRef q), sr_ServerID (ar_ServerRef q),
     Itoa (sr_ServerGeneration (ar_ServerRef q)), ar_StackID q, ar_ResolvedPlanHash q, rq_ID r]"

definition new_reservation :: "AdmissionRequest \<Rightarrow> Requirement \<Rightarrow> Reservation" where
  "new_reservation q r =
     \<lparr>rv_ID = reservation_id (ar_ServerRef q) r, rv_ServerRef = ar_ServerRef q, rv_Transport = rq_Transport r,
      rv_BindAddress = rq_BindAddress r, rv_Port = rq_Port r, rv_Sharing = rq_Sharing r,
      rv_ListenerGroupRef = rq_ListenerGroupRef r, rv_State = ReservationStateReserved\<rparr>"

definition new_claim :: "AdmissionRequest \<Rightarrow> Requirement \<Rightarrow> string \<Rightarrow> Claim" where
  "new_claim q r reservationID =
     \<lparr>cl_ID = claim_id q r, cl_ReservationID = reservationID, cl_ServerRef = ar_ServerRef q, cl_StackID = ar_StackID q,
      cl_ResolvedPlanHash = ar_ResolvedPlanHash q, cl_Requirement = r, cl_State = ClaimStateNone\<rparr>"

definition add_claim :: "Claim \<Rightarrow> inventoryState \<Rightarrow> inventoryState" where
  "add_claim c st = st\<lparr>is_claims := fmupd (cl_ID c) c (is_claims st)\<rparr>"

definition add_reservation :: "Reservation \<Rightarrow> inventoryState \<Rightarrow> inventoryState" where
  "add_reservation v st = st\<lparr>is_reservations := fmupd (rv_ID v) v (is_reservations st)\<rparr>"

definition admitRequirement ::
  "inventoryState \<Rightarrow> AdmissionRequest \<Rightarrow> Requirement \<Rightarrow> port_error + (Claim \<times> inventoryState)" where
  "admitRequirement st q r =
     (case scan_reservations st (ar_StackID q) r (map_values (is_reservations st)) None of
        Inl e \<Rightarrow> Inl e
      | Inr (Some v) \<Rightarrow> let c = new_claim q r (rv_ID v) in Inr (c, add_claim c st)
      | Inr None \<Rightarrow>
          let v = new_reservation q r; c = new_claim q r (rv_ID v)
          in Inr (c, add_claim c (add_reservation v st)))"

fun admit_all ::
  "inventoryState \<Rightarrow> AdmissionRequest \<Rightarrow> Requirement list \<Rightarrow> port_error + (Claim list \<times> inventoryState)" where
  "admit_all st q [] = Inr ([], st)"
| "admit_all st q (r # rs) =
     (case admitRequirement st q r of
        Inl e \<Rightarrow> Inl e
      | Inr (c, st1) \<Rightarrow>
          (case admit_all st1 q rs of
             Inl e \<Rightarrow> Inl e
           | Inr (cs, st2) \<Rightarrow> Inr (c\<lparr>cl_State := ClaimStatePending\<rparr> # cs, st2)))"

definition request_ref :: "AdmissionRequest \<Rightarrow> GenerationRef" where
  "request_ref q = \<lparr>gr_ServerRef = ar_ServerRef q, gr_StackID = ar_StackID q, gr_ResolvedPlanHash = ar_ResolvedPlanHash q\<rparr>"

definition new_generation :: "AdmissionRequest \<Rightarrow> ClaimGeneration" where
  "new_generation q = \<lparr>cg_Ref = request_ref q, cg_ClaimSetDigest = admissionDigest q, cg_State = ClaimStatePending\<rparr>"

definition admitState :: "inventoryState \<Rightarrow> AdmissionRequest \<Rightarrow> port_error + (Claim list \<times> inventoryState)" where
  "admitState st q =
     (let key = claimGenerationKey (request_ref q) in
      case fmlookup (is_generations st) key of
        Some existing \<Rightarrow>
          if cg_State existing = ClaimStateReleased then Inl ErrInvalidTransition
          else if cg_ClaimSetDigest existing \<noteq> admissionDigest q then Inl ErrInvalidRequest
          else Inr (claimsForGeneration st existing, st)
      | None \<Rightarrow>
          (case admit_all (st\<lparr>is_generations := fmupd key (new_generation q) (is_generations st)\<rparr>) q (ar_Requirements q) of
             Inl e \<Rightarrow> Inl e
           | Inr (cs, st') \<Rightarrow> Inr (sortClaims cs, st')))"

definition Port_Admit ::
  "string option \<Rightarrow> AdmissionRequest \<Rightarrow> MemoryAuthority \<Rightarrow> (port_error + Claim list) \<times> MemoryAuthority" where
  "Port_Admit ctx request0 a =
     (case ctx of
        Some e \<Rightarrow> (Inl (ErrContext e), a)
      | None \<Rightarrow>
          (case normalizeAdmission request0 of
             Inl e \<Rightarrow> (Inl e, a)
           | Inr q \<Rightarrow>
               let key = serverKey (ar_ServerRef q);
                   working = cloneInventoryState (fmlookup (ma_servers a) key) (ar_ServerRef q)
               in case admitState working q of
                   Inl e \<Rightarrow> (Inl e, a)
                 | Inr (claims, st) \<Rightarrow> (Inr claims, a\<lparr>ma_servers := fmupd key st (ma_servers a)\<rparr>)))"

section \<open>Lifecycle of a claim generation\<close>

text \<open>
  The shape all transitions share: normalize the reference, find the generation, and let \<open>f\<close> decide
  on its state and produce the next state of the server.
\<close>

definition on_generation ::
  "string option \<Rightarrow> GenerationRef \<Rightarrow>
   (string \<Rightarrow> GenerationRef \<Rightarrow> ClaimGeneration \<Rightarrow> inventoryState \<Rightarrow> port_error + inventoryState) \<Rightarrow>
   MemoryAuthority \<Rightarrow> port_error option \<times> MemoryAuthority" where
  "on_generation ctx ref0 f a =
     (case normalizeGenerationRef ref0 of
        Inl e \<Rightarrow> (Some e, a)
      | Inr ref \<Rightarrow>
          (case ctx of
             Some e \<Rightarrow> (Some (ErrContext e), a)
           | None \<Rightarrow>
               (case fmlookup (ma_servers a) (serverKey (gr_ServerRef ref)) of
                  None \<Rightarrow> (Some ErrClaimGenerationNotFound, a)
                | Some st \<Rightarrow>
                    let key = claimGenerationKey ref in
                    case fmlookup (is_generations st) key of
                      None \<Rightarrow> (Some ErrClaimGenerationNotFound, a)
                    | Some g \<Rightarrow>
                        (case f key ref g st of
                           Inl e \<Rightarrow> (Some e, a)
                         | Inr st' \<Rightarrow>
                             (None, a\<lparr>ma_servers := fmupd (serverKey (gr_ServerRef ref)) st' (ma_servers a)\<rparr>)))))"

definition put_generation :: "string \<Rightarrow> ClaimGeneration \<Rightarrow> inventoryState \<Rightarrow> inventoryState" where
  "put_generation key g st = st\<lparr>is_generations := fmupd key g (is_generations st)\<rparr>"

definition port_transition ::
  "string option \<Rightarrow> GenerationRef \<Rightarrow> ClaimState list \<Rightarrow> ClaimState \<Rightarrow> MemoryAuthority \<Rightarrow> port_error option \<times> MemoryAuthority" where
  "port_transition ctx ref allowed next_state =
     on_generation ctx ref (\<lambda>key _ g st.
       if cg_State g \<notin> set allowed then Inl ErrInvalidTransition
       else Inr (put_generation key (g\<lparr>cg_State := next_state\<rparr>) st))"

definition port_release ::
  "string option \<Rightarrow> GenerationRef \<Rightarrow> ClaimState list \<Rightarrow> MemoryAuthority \<Rightarrow> port_error option \<times> MemoryAuthority" where
  "port_release ctx ref allowed =
     on_generation ctx ref (\<lambda>key _ g st.
       if cg_State g = ClaimStateReleased then Inr st
       else if cg_State g \<notin> set allowed then Inl ErrInvalidTransition
       else Inr (gcReservations (put_generation key (g\<lparr>cg_State := ClaimStateReleased\<rparr>) st)))"

definition MarkMutationStarted :: "string option \<Rightarrow> GenerationRef \<Rightarrow> MemoryAuthority \<Rightarrow> port_error option \<times> MemoryAuthority" where
  "MarkMutationStarted ctx ref =
     port_transition ctx ref [ClaimStatePending, ClaimStateMutating, ClaimStateUncertain] ClaimStateMutating"

definition supersede_others :: "string \<Rightarrow> string \<Rightarrow> inventoryState \<Rightarrow> inventoryState" where
  "supersede_others key stackID st =
     st\<lparr>is_generations := fmmap_keys (\<lambda>k g.
       if k \<noteq> key \<and> gr_StackID (cg_Ref g) = stackID \<and> (cg_State g = ClaimStateActive \<or> cg_State g = ClaimStateUncertain)
       then g\<lparr>cg_State := ClaimStateReleased\<rparr> else g) (is_generations st)\<rparr>"

definition Activate :: "string option \<Rightarrow> GenerationRef \<Rightarrow> MemoryAuthority \<Rightarrow> port_error option \<times> MemoryAuthority" where
  "Activate ctx ref =
     on_generation ctx ref (\<lambda>key ref g st.
       if cg_State g \<noteq> ClaimStateMutating \<and> cg_State g \<noteq> ClaimStateActive then Inl ErrInvalidTransition
       else Inr (gcReservations (supersede_others key (gr_StackID ref)
              (put_generation key (g\<lparr>cg_State := ClaimStateActive\<rparr>) st))))"

definition MarkUncertain :: "string option \<Rightarrow> GenerationRef \<Rightarrow> MemoryAuthority \<Rightarrow> port_error option \<times> MemoryAuthority" where
  "MarkUncertain ctx ref = port_transition ctx ref [ClaimStateMutating, ClaimStateUncertain] ClaimStateUncertain"

definition AbortBeforeMutation :: "string option \<Rightarrow> GenerationRef \<Rightarrow> MemoryAuthority \<Rightarrow> port_error option \<times> MemoryAuthority" where
  "AbortBeforeMutation ctx ref = port_release ctx ref [ClaimStatePending]"

definition ReleaseAfterTeardown :: "string option \<Rightarrow> GenerationRef \<Rightarrow> MemoryAuthority \<Rightarrow> port_error option \<times> MemoryAuthority" where
  "ReleaseAfterTeardown ctx ref = port_release ctx ref [ClaimStateMutating, ClaimStateActive, ClaimStateUncertain]"

definition Port_Snapshot :: "ServerRef \<Rightarrow> MemoryAuthority \<Rightarrow> PortSnapshot" where
  "Port_Snapshot ref0 a =
     (let ref = normalizeServerRef ref0 in
      case fmlookup (ma_servers a) (serverKey ref) of
        None \<Rightarrow> \<lparr>sn_ServerRef = ref, sn_Reservations = [], sn_ClaimGenerations = [], sn_Claims = []\<rparr>
      | Some st \<Rightarrow>
          let gs = filter (\<lambda>g. cg_State g \<noteq> ClaimStateReleased) (map_values (is_generations st))
          in \<lparr>sn_ServerRef = ref,
              sn_Reservations = sort_key rv_ID (filter (\<lambda>v. rv_State v = ReservationStateReserved) (map_values (is_reservations st))),
              sn_ClaimGenerations = sort_key (\<lambda>g. claimGenerationKey (cg_Ref g)) gs,
              sn_Claims = sortClaims (concat (map (claimsForGeneration st) gs))\<rparr>)"

end
