(* ===== verification/Port_Safety.thy ===== *)
theory Port_Safety
  imports Port_Inventory
begin

text \<open>
  The invariant of the port authority: reserved listeners of one server never overlap, every live
  claim is served by a reserved listener of its own kind, an exclusive listener has claims of one
  stack only, and nothing stays reserved without a live claim.  Identifiers are truncated hashes, so
  the invariant is about authorities whose requests have identifiers without collisions; the set of
  requests is a parameter.
\<close>

section \<open>Requests\<close>

definition listener :: "Requirement \<Rightarrow> string \<times> string \<times> 16 word \<times> string \<times> string" where
  "listener r = (rq_Transport r, rq_BindAddress r, rq_Port r, rq_Sharing r, rq_ListenerGroupRef r)"

definition reserved_listener :: "Reservation \<Rightarrow> string \<times> string \<times> 16 word \<times> string \<times> string" where
  "reserved_listener v = (rv_Transport v, rv_BindAddress v, rv_Port v, rv_Sharing v, rv_ListenerGroupRef v)"

definition required :: "AdmissionRequest set \<Rightarrow> AdmissionRequest \<Rightarrow> Requirement \<Rightarrow> bool" where
  "required R q r \<longleftrightarrow> q \<in> R \<and> r \<in> set (ar_Requirements q)"

text \<open>No collision among the identifiers of the reservations, and of the claims, of the requests.\<close>

definition distinct_reservations :: "AdmissionRequest set \<Rightarrow> bool" where
  "distinct_reservations R \<longleftrightarrow>
     (\<forall>q r q' r'. required R q r \<and> required R q' r' \<and>
        reservation_id (ar_ServerRef q) r = reservation_id (ar_ServerRef q') r' \<longrightarrow> listener r = listener r')"

definition distinct_claims :: "AdmissionRequest set \<Rightarrow> bool" where
  "distinct_claims R \<longleftrightarrow>
     (\<forall>q r q' r'. required R q r \<and> required R q' r' \<and> claim_id q r = claim_id q' r' \<longrightarrow>
        request_ref q = request_ref q' \<and> rq_ID r = rq_ID r')"

definition well_shared :: "Requirement \<Rightarrow> bool" where
  "well_shared r \<longleftrightarrow>
     rq_Sharing r = SharingVirtualHost \<or> (rq_Sharing r = SharingExclusive \<and> rq_ListenerGroupRef r = [])"

definition normalized :: "AdmissionRequest \<Rightarrow> bool" where
  "normalized q \<longleftrightarrow> distinct (map rq_ID (ar_Requirements q)) \<and> list_all well_shared (ar_Requirements q)"

lemma NormalizeRequirement_shared: "NormalizeRequirement r = Inr n \<Longrightarrow> well_shared n"
  by (auto simp: NormalizeRequirement_def Let_def well_shared_def split: if_splits sum.splits)

lemma normalize_requirements_props:
  "normalize_requirements seen rs = Inr ns \<Longrightarrow>
   distinct (map rq_ID ns) \<and> set (map rq_ID ns) \<inter> set seen = {} \<and> list_all well_shared ns"
proof (induction seen rs arbitrary: ns rule: normalize_requirements.induct)
  case (2 seen r rs)
  then obtain n ms where n: "NormalizeRequirement r = Inr n" "rq_ID n \<notin> set seen"
    "normalize_requirements (rq_ID n # seen) rs = Inr ms" "ns = n # ms"
    by (auto split: sum.splits if_splits)
  then show ?case using 2(1) [OF n(1,2,3)] NormalizeRequirement_shared by auto
qed simp

lemma normalizeAdmission_normalized:
  assumes "normalizeAdmission q0 = Inr q"
  shows "normalized q"
proof -
  obtain ns where ns: "normalize_requirements [] (ar_Requirements q0) = Inr ns" "ar_Requirements q = sort_key rq_ID ns"
    using assms by (auto simp: normalizeAdmission_def Let_def split: if_splits sum.splits)
  have "mset (map rq_ID (sort_key rq_ID ns)) = mset (map rq_ID ns)" by simp
  then have "distinct (map rq_ID (sort_key rq_ID ns))"
    using normalize_requirements_props [OF ns(1)] by (metis mset_eq_imp_distinct_iff)
  then show ?thesis using normalize_requirements_props [OF ns(1)] ns(2) by (simp add: normalized_def list_all_iff)
qed

section \<open>The invariant of one server\<close>

definition clash :: "Reservation \<Rightarrow> Reservation \<Rightarrow> bool" where
  "clash v w \<longleftrightarrow> rv_Transport v = rv_Transport w \<and> rv_Port v = rv_Port w \<and> addressesOverlap (rv_BindAddress v) (rv_BindAddress w)"

abbreviation reserved :: "Reservation \<Rightarrow> bool" where
  "reserved v \<equiv> rv_State v = ReservationStateReserved"

definition reservations_ok :: "AdmissionRequest set \<Rightarrow> inventoryState \<Rightarrow> bool" where
  "reservations_ok R st \<longleftrightarrow>
     (\<forall>i v. fmlookup (is_reservations st) i = Some v \<longrightarrow> rv_ID v = i \<and>
        (\<exists>q r. required R q r \<and> well_shared r \<and> i = reservation_id (ar_ServerRef q) r \<and> reserved_listener v = listener r))"

definition disjoint_ok :: "inventoryState \<Rightarrow> bool" where
  "disjoint_ok st \<longleftrightarrow>
     (\<forall>i j v w. fmlookup (is_reservations st) i = Some v \<and> fmlookup (is_reservations st) j = Some w \<and> i \<noteq> j \<and>
        reserved v \<and> reserved w \<longrightarrow> \<not> clash v w)"

definition serves :: "inventoryState \<Rightarrow> Claim \<Rightarrow> bool" where
  "serves st c \<longleftrightarrow>
     (\<exists>v. fmlookup (is_reservations st) (cl_ReservationID c) = Some v \<and> reserved v \<and>
        reserved_listener v = listener (cl_Requirement c))"

definition claims_ok :: "AdmissionRequest set \<Rightarrow> inventoryState \<Rightarrow> bool" where
  "claims_ok R st \<longleftrightarrow>
     (\<forall>i c. fmlookup (is_claims st) i = Some c \<longrightarrow>
        claim_generation st c \<noteq> None \<and> (live_claim st c \<longrightarrow> serves st c) \<and>
        (\<exists>q. required R q (cl_Requirement c) \<and> i = claim_id q (cl_Requirement c) \<and> cl_ID c = i \<and> claim_ref c = request_ref q))"

definition exclusive_ok :: "inventoryState \<Rightarrow> bool" where
  "exclusive_ok st \<longleftrightarrow>
     (\<forall>i j c d. fmlookup (is_claims st) i = Some c \<and> fmlookup (is_claims st) j = Some d \<and>
        live_claim st c \<and> live_claim st d \<and> cl_ReservationID c = cl_ReservationID d \<and>
        rq_Sharing (cl_Requirement c) = SharingExclusive \<longrightarrow> cl_StackID c = cl_StackID d)"

definition backed_ok :: "inventoryState \<Rightarrow> bool" where
  "backed_ok st \<longleftrightarrow>
     (\<forall>i v. fmlookup (is_reservations st) i = Some v \<and> reserved v \<longrightarrow>
        (\<exists>k c. fmlookup (is_claims st) k = Some c \<and> live_claim st c \<and> cl_ReservationID c = i))"

definition core_inv :: "AdmissionRequest set \<Rightarrow> inventoryState \<Rightarrow> bool" where
  "core_inv R st \<longleftrightarrow> reservations_ok R st \<and> disjoint_ok st \<and> claims_ok R st \<and> exclusive_ok st"

definition server_inv :: "AdmissionRequest set \<Rightarrow> inventoryState \<Rightarrow> bool" where
  "server_inv R st \<longleftrightarrow> core_inv R st \<and> backed_ok st"

lemma core_invD:
  assumes "core_inv R st"
  shows "reservations_ok R st" "disjoint_ok st" "claims_ok R st" "exclusive_ok st"
  using assms by (simp_all add: core_inv_def)

lemma server_invD: "server_inv R st \<Longrightarrow> core_inv R st \<and> backed_ok st"
  by (simp add: server_inv_def)

text \<open>The liveness of a claim depends on the generations only.\<close>

lemma claim_generation_cong:
  "is_generations st = is_generations st' \<Longrightarrow> claim_generation st c = claim_generation st' c"
  by (simp add: claim_generation_def)

lemma live_claim_cong: "is_generations st = is_generations st' \<Longrightarrow> live_claim st c = live_claim st' c"
  by (simp add: live_claim_def claim_generation_def)

section \<open>The scan of the reservations\<close>

lemma scan_None:
  assumes "scan_reservations st s r vs None = Inr None"
  shows "list_all (\<lambda>v. reserved v \<longrightarrow> \<not> overlaps v r) vs"
proof -
  have some: "scan_reservations st s r vs (Some v) \<noteq> Inr None" for v
    by (induction vs arbitrary: v) auto
  show ?thesis using assms
  proof (induction vs)
    case (Cons v vs)
    have "scan_reservations st s r vs (Some v) \<noteq> Inr None" for v by (induction vs arbitrary: v) auto
    then show ?case using Cons by (auto split: if_splits)
  qed simp
qed

lemma scan_Some:
  assumes "scan_reservations st s r vs x = Inr (Some v)" "x \<noteq> Some v"
  shows "v \<in> set vs \<and> reserved v \<and> overlaps v r \<and> shareable st s r v"
  using assms
proof (induction vs arbitrary: x)
  case (Cons w vs)
  show ?case
  proof (cases "reserved w \<and> overlaps w r \<and> shareable st s r w")
    case True
    then have n: "scan_reservations st s r vs (Some w) = Inr (Some v)" using Cons.prems by simp
    show ?thesis
    proof (cases "w = v")
      case True
      then show ?thesis using \<open>reserved w \<and> overlaps w r \<and> shareable st s r w\<close> by simp
    next
      case False
      then show ?thesis using Cons.IH [OF n] by simp
    qed
  next
    case False
    then show ?thesis using Cons by (auto split: if_splits)
  qed
qed simp

lemma reusable_stack:
  assumes "reusable_loop st i s found cs" "c \<in> set cs" "cl_ReservationID c = i" "live_claim st c"
  shows "cl_StackID c = s"
  using assms
  by (induction st i s found cs rule: reusable_loop.induct)
    (auto simp: live_claim_def split: if_splits option.splits)

lemma exclusive_stack:
  assumes "exclusiveReservationReusable st i s" "fmlookup (is_claims st) k = Some c" "live_claim st c" "cl_ReservationID c = i"
  shows "cl_StackID c = s"
  using reusable_stack [OF assms(1) [unfolded exclusiveReservationReusable_def] _ assms(4,3)] assms(2)
    set_map_values [of c "is_claims st"] by blast

section \<open>Admission keeps the invariant\<close>

lemma addressesOverlap_sym: "addressesOverlap a b = addressesOverlap b a"
  by (auto simp: addressesOverlap_def)

lemma addressesOverlap_refl [simp]: "addressesOverlap a a"
  by (simp add: addressesOverlap_def)

lemma overlaps_listener: "reserved_listener v = listener r \<Longrightarrow> overlaps v r"
  by (simp add: overlaps_def reserved_listener_def listener_def)

lemma clash_sym: "clash v w = clash w v"
  by (auto simp: clash_def addressesOverlap_def)

lemma clash_overlaps: "reserved_listener v = listener r \<Longrightarrow> clash v w = overlaps w r"
  by (auto simp: overlaps_def clash_def reserved_listener_def listener_def addressesOverlap_def)

lemma new_reservation_simps [simp]:
  "rv_ID (new_reservation q r) = reservation_id (ar_ServerRef q) r" "reserved (new_reservation q r)"
  "reserved_listener (new_reservation q r) = listener r"
  by (simp_all add: new_reservation_def reserved_listener_def listener_def)

lemma new_claim_simps [simp]:
  "cl_ID (new_claim q r i) = claim_id q r" "cl_ReservationID (new_claim q r i) = i"
  "cl_Requirement (new_claim q r i) = r" "cl_StackID (new_claim q r i) = ar_StackID q"
  "claim_ref (new_claim q r i) = request_ref q"
  by (simp_all add: new_claim_def claim_ref_def request_ref_def)

lemma add_simps [simp]:
  "is_claims (add_claim c st) = fmupd (cl_ID c) c (is_claims st)" "is_generations (add_claim c st) = is_generations st"
  "is_reservations (add_claim c st) = is_reservations st" "is_ref (add_claim c st) = is_ref st"
  "is_reservations (add_reservation v st) = fmupd (rv_ID v) v (is_reservations st)"
  "is_generations (add_reservation v st) = is_generations st" "is_claims (add_reservation v st) = is_claims st"
  "is_ref (add_reservation v st) = is_ref st"
  by (simp_all add: add_claim_def add_reservation_def)

lemma live_add [simp]: "live_claim (add_claim c st) d = live_claim st d" "live_claim (add_reservation v st) d = live_claim st d"
  by (rule live_claim_cong; simp)+

lemma generation_add [simp]:
  "claim_generation (add_claim c st) d = claim_generation st d" "claim_generation (add_reservation v st) d = claim_generation st d"
  by (rule claim_generation_cong; simp)+

lemma serves_add_claim [simp]: "serves (add_claim c st) d = serves st d"
  by (simp add: serves_def)

text \<open>A claim with a fresh identifier on a listener of its kind.\<close>

lemma add_claim_core:
  assumes I: "core_inv R st" and q: "required R q r" and g: "fmlookup (is_generations st) (claimGenerationKey (request_ref q)) \<noteq> None"
    and fresh: "fmlookup (is_claims st) (claim_id q r) = None"
    and v: "fmlookup (is_reservations st) i = Some v" "reserved v" "reserved_listener v = listener r"
    and ex: "\<And>k c. rq_Sharing r = SharingExclusive \<Longrightarrow> fmlookup (is_claims st) k = Some c \<Longrightarrow> live_claim st c \<Longrightarrow>
      cl_ReservationID c = i \<Longrightarrow> cl_StackID c = ar_StackID q"
  shows "core_inv R (add_claim (new_claim q r i) st)"
proof -
  note I = core_invD [OF I]
  define c where "c = new_claim q r i"
  have "serves st c" using v by (auto simp: serves_def c_def)
  moreover have "claim_generation st c \<noteq> None" using g by (simp add: claim_generation_def c_def)
  ultimately have "claims_ok R (add_claim c st)"
    using I(3) q unfolding claims_ok_def by (auto simp: c_def)
  moreover have "exclusive_ok (add_claim c st)"
  proof -
    have same: "rq_Sharing (cl_Requirement d) = rq_Sharing r"
      if "fmlookup (is_claims st) k = Some d" "live_claim st d" "cl_ReservationID d = i" for k d
    proof -
      have "serves st d" using I(3) that by (simp add: claims_ok_def)
      then have "listener (cl_Requirement d) = listener r" using that(3) v by (auto simp: serves_def)
      then show ?thesis by (simp add: listener_def)
    qed
    show ?thesis unfolding exclusive_ok_def
    proof (intro allI impI, elim conjE)
      fix k l d e
      assume d: "fmlookup (is_claims (add_claim c st)) k = Some d" "fmlookup (is_claims (add_claim c st)) l = Some e"
        "live_claim (add_claim c st) d" "live_claim (add_claim c st) e" "cl_ReservationID d = cl_ReservationID e"
        "rq_Sharing (cl_Requirement d) = SharingExclusive"
      have "k \<noteq> claim_id q r \<Longrightarrow> fmlookup (is_claims st) k = Some d" "k = claim_id q r \<Longrightarrow> d = c"
        "l \<noteq> claim_id q r \<Longrightarrow> fmlookup (is_claims st) l = Some e" "l = claim_id q r \<Longrightarrow> e = c"
        using d by (auto simp: c_def split: if_splits)
      note split = this
      have c: "cl_ReservationID c = i" "cl_StackID c = ar_StackID q" "rq_Sharing (cl_Requirement c) = rq_Sharing r"
        by (simp_all add: c_def)
      have live: "live_claim st d" "live_claim st e" using d(3,4) by simp_all
      consider "k = claim_id q r" "l = claim_id q r" | "k = claim_id q r" "l \<noteq> claim_id q r"
        | "k \<noteq> claim_id q r" "l = claim_id q r" | "k \<noteq> claim_id q r" "l \<noteq> claim_id q r" by blast
      then show "cl_StackID d = cl_StackID e"
      proof cases
        case 1
        then show ?thesis using split by simp
      next
        case 2
        then have "cl_StackID e = ar_StackID q"
          using ex [of l e] split(2,3) d(5,6) live c by metis
        then show ?thesis using split(2) 2 c by simp
      next
        case 3
        then have e: "e = c" "fmlookup (is_claims st) k = Some d" using split by simp_all
        then have "rq_Sharing r = SharingExclusive" using same [OF e(2) live(1)] d(5,6) c by simp
        then have "cl_StackID d = ar_StackID q" using ex [of k d] e d(5) live c by simp
        then show ?thesis using e c by simp
      next
        case 4
        then show ?thesis using I(4) [unfolded exclusive_ok_def] split d(5,6) live by blast
      qed
    qed
  qed
  ultimately show ?thesis
    using I(1,2) by (simp add: core_inv_def reservations_ok_def disjoint_ok_def c_def)
qed

lemma add_claim_backed:
  assumes "fmlookup (is_claims st) (claim_id q r) = None" "live_claim st (new_claim q r i)"
    "\<And>j v. fmlookup (is_reservations st) j = Some v \<Longrightarrow> reserved v \<Longrightarrow> j \<noteq> i \<Longrightarrow>
      \<exists>k c. fmlookup (is_claims st) k = Some c \<and> live_claim st c \<and> cl_ReservationID c = j"
  shows "backed_ok (add_claim (new_claim q r i) st)"
  unfolding backed_ok_def
proof (intro allI impI, elim conjE)
  fix j v assume v: "fmlookup (is_reservations (add_claim (new_claim q r i) st)) j = Some v" "reserved v"
  show "\<exists>k c. fmlookup (is_claims (add_claim (new_claim q r i) st)) k = Some c \<and>
      live_claim (add_claim (new_claim q r i) st) c \<and> cl_ReservationID c = j"
  proof (cases "j = i")
    case True
    then show ?thesis using assms(2) by (intro exI [of _ "claim_id q r"] exI [of _ "new_claim q r i"]) simp
  next
    case False
    then obtain k c where k: "fmlookup (is_claims st) k = Some c" "live_claim st c" "cl_ReservationID c = j"
      using assms(3) [of j v] v by auto
    then have "k \<noteq> claim_id q r" using assms(1) by auto
    then show ?thesis using k by (intro exI [of _ k] exI [of _ c]) simp
  qed
qed

text \<open>A new reservation, where no reserved listener overlaps.\<close>

lemma add_reservation_core:
  assumes I: "core_inv R st" and D: "distinct_reservations R" and q: "required R q r" "well_shared r"
    and free: "\<And>i v. fmlookup (is_reservations st) i = Some v \<Longrightarrow> reserved v \<Longrightarrow> \<not> overlaps v r"
  defines "st' \<equiv> add_reservation (new_reservation q r) st"
  shows "core_inv R st'" "\<And>k c. fmlookup (is_claims st) k = Some c \<Longrightarrow> live_claim st c \<Longrightarrow>
      cl_ReservationID c \<noteq> reservation_id (ar_ServerRef q) r"
proof -
  note I = core_invD [OF I]
  define i where "i = reservation_id (ar_ServerRef q) r"
  have old: "\<not> reserved v" if f: "fmlookup (is_reservations st) i = Some v" for v
  proof -
    obtain q' r' where o: "required R q' r'" "i = reservation_id (ar_ServerRef q') r'" "reserved_listener v = listener r'"
      using I(1) f unfolding reservations_ok_def by blast
    then have "listener r' = listener r" using D q(1) unfolding distinct_reservations_def i_def by metis
    then show ?thesis using free [OF f] overlaps_listener o(3) by metis
  qed
  have unused: "cl_ReservationID c \<noteq> i" if "fmlookup (is_claims st) k = Some c" "live_claim st c" for k c
    using I(3) that old unfolding claims_ok_def serves_def by blast
  then show "\<And>k c. fmlookup (is_claims st) k = Some c \<Longrightarrow> live_claim st c \<Longrightarrow>
      cl_ReservationID c \<noteq> reservation_id (ar_ServerRef q) r" by (simp add: i_def)
  have lk: "is_reservations st' = fmupd i (new_reservation q r) (is_reservations st)" by (simp add: st'_def i_def)
  have same [simp]: "is_claims st' = is_claims st" "live_claim st' c = live_claim st c" "claim_generation st' c = claim_generation st c" for c
    by (simp_all add: st'_def)
  have "reservations_ok R st'" using I(1) q unfolding reservations_ok_def lk by (auto simp: i_def)
  moreover have "disjoint_ok st'" unfolding disjoint_ok_def lk
  proof (intro allI impI, elim conjE)
    fix j k v w
    assume a: "fmlookup (fmupd i (new_reservation q r) (is_reservations st)) j = Some v"
      "fmlookup (fmupd i (new_reservation q r) (is_reservations st)) k = Some w" "j \<noteq> k" "reserved v" "reserved w"
    have cl: "clash (new_reservation q r) w = overlaps w r" "clash w (new_reservation q r) = overlaps w r" for w
      using clash_overlaps [of "new_reservation q r" r w] clash_sym [of w] by simp_all
    show "\<not> clash v w"
    proof (cases "j = i")
      case True
      then show ?thesis using a free [of k w] cl by simp
    next
      case False
      then show ?thesis using a free [of j v] cl I(2) unfolding disjoint_ok_def by (auto split: if_splits)
    qed
  qed
  moreover have "serves st' c" if "fmlookup (is_claims st) k = Some c" "live_claim st c" for k c
    using I(3) that unused [OF that] unfolding claims_ok_def serves_def lk by (simp; blast)
  then have "claims_ok R st'" using I(3) unfolding claims_ok_def same by blast
  moreover have "exclusive_ok st'" using I(4) unfolding exclusive_ok_def same .
  ultimately show "core_inv R st'" by (simp add: core_inv_def)
qed

lemma shareable_listener:
  assumes "overlaps v r" "shareable st s r v" "well_shared r" "reserved_listener v = listener r0" "well_shared r0"
  shows "reserved_listener v = listener r"
  using assms
  by (auto simp: overlaps_def shareable_def well_shared_def reserved_listener_def listener_def port_consts split: if_splits)

lemma admitRequirement_inv:
  assumes I: "server_inv R st" and D: "distinct_reservations R" and q: "required R q r" "well_shared r"
    and g: "fmlookup (is_generations st) (claimGenerationKey (request_ref q)) = Some g" "cg_State g \<noteq> ClaimStateReleased"
    and fresh: "fmlookup (is_claims st) (claim_id q r) = None"
    and res: "admitRequirement st q r = Inr (c, st')"
  shows "server_inv R st'" "c = new_claim q r (cl_ReservationID c)" "is_generations st' = is_generations st"
    "is_claims st' = fmupd (claim_id q r) c (is_claims st)"
proof -
  have core: "core_inv R st" and backed: "backed_ok st" using server_invD [OF I] by auto
  note C = core_invD [OF core]
  have live: "live_claim st (new_claim q r i)" for i using g by (simp add: live_claim_def claim_generation_def)
  have gn: "fmlookup (is_generations st) (claimGenerationKey (request_ref q)) \<noteq> None" using g by simp
  from res obtain x where x: "scan_reservations st (ar_StackID q) r (map_values (is_reservations st)) None = Inr x"
    by (auto simp: admitRequirement_def split: sum.splits)
  have "server_inv R st' \<and> c = new_claim q r (cl_ReservationID c) \<and> is_generations st' = is_generations st \<and>
    is_claims st' = fmupd (claim_id q r) c (is_claims st)"
  proof (cases x)
    case None
    have free: "\<not> overlaps v r" if "fmlookup (is_reservations st) i = Some v" "reserved v" for i v
      using scan_None [of st "ar_StackID q" r] x None set_map_values [of v "is_reservations st"] that
      by (auto simp: list_all_iff)
    define i where "i = reservation_id (ar_ServerRef q) r"
    define s1 where "s1 = add_reservation (new_reservation q r) st"
    have c: "c = new_claim q r i" "st' = add_claim c s1"
      using res x None by (auto simp: admitRequirement_def Let_def i_def s1_def)
    note A = add_reservation_core [OF core D q free, folded s1_def]
    have "core_inv R (add_claim (new_claim q r i) s1)"
    proof (rule add_claim_core [OF A(1) q(1)])
      show "fmlookup (is_reservations s1) i = Some (new_reservation q r)" by (simp add: s1_def i_def)
    qed (use gn fresh A(2) in \<open>auto simp: s1_def i_def\<close>)
    moreover have "backed_ok (add_claim (new_claim q r i) s1)"
      by (rule add_claim_backed) (use fresh live backed in \<open>auto simp: s1_def i_def backed_ok_def\<close>)
    ultimately show ?thesis using c by (simp add: server_inv_def s1_def)
  next
    case (Some v)
    have v: "v \<in> set (map_values (is_reservations st))" "reserved v" "overlaps v r" "shareable st (ar_StackID q) r v"
      using scan_Some [of st "ar_StackID q" r _ None v] x Some by auto
    then obtain j where j: "fmlookup (is_reservations st) j = Some v" by (auto simp: set_map_values)
    obtain r0 where r0: "rv_ID v = j" "reserved_listener v = listener r0" "well_shared r0"
      using C(1) j unfolding reservations_ok_def by blast
    have lv: "reserved_listener v = listener r" by (rule shareable_listener [OF v(3,4) q(2) r0(2,3)])
    have c: "c = new_claim q r j" "st' = add_claim c st"
      using res x Some r0 by (auto simp: admitRequirement_def Let_def)
    have "core_inv R (add_claim (new_claim q r j) st)"
    proof (rule add_claim_core [OF core q(1) gn fresh j v(2) lv])
      fix k d assume e: "rq_Sharing r = SharingExclusive" "fmlookup (is_claims st) k = Some d" "live_claim st d" "cl_ReservationID d = j"
      have "exclusiveReservationReusable st j (ar_StackID q)"
        using v(4) e(1) r0(1) by (auto simp: shareable_def port_consts)
      then show "cl_StackID d = ar_StackID q" using exclusive_stack e by blast
    qed
    moreover have "backed_ok (add_claim (new_claim q r j) st)"
      by (rule add_claim_backed) (use fresh live backed in \<open>auto simp: backed_ok_def\<close>)
    ultimately show ?thesis using c by (simp add: server_inv_def)
  qed
  then show "server_inv R st'" "c = new_claim q r (cl_ReservationID c)" "is_generations st' = is_generations st"
    "is_claims st' = fmupd (claim_id q r) c (is_claims st)" by blast+
qed

text \<open>The claims a request added: one per requirement, under its identifier.\<close>

definition added :: "AdmissionRequest \<Rightarrow> Requirement list \<Rightarrow> Claim list \<Rightarrow> (string, Claim) fmap \<Rightarrow> (string, Claim) fmap \<Rightarrow> bool" where
  "added q rs cs m m' \<longleftrightarrow> map cl_ID cs = map (claim_id q) rs \<and> map cl_Requirement cs = rs \<and>
     list_all (\<lambda>c. cl_State c = ClaimStatePending \<and> claim_ref c = request_ref q) cs \<and>
     (\<forall>k. fmlookup m' k = (case map_of (map (\<lambda>c. (cl_ID c, c\<lparr>cl_State := ClaimStateNone\<rparr>)) cs) k of
        Some c \<Rightarrow> Some c | None \<Rightarrow> fmlookup m k))"

lemma admit_all_inv:
  assumes "server_inv R st" and D: "distinct_reservations R" and "\<And>r. r \<in> set rs \<Longrightarrow> required R q r \<and> well_shared r"
    and "fmlookup (is_generations st) (claimGenerationKey (request_ref q)) = Some g" "cg_State g \<noteq> ClaimStateReleased"
    and "\<And>r. r \<in> set rs \<Longrightarrow> fmlookup (is_claims st) (claim_id q r) = None" "distinct (map (claim_id q) rs)"
    and "admit_all st q rs = Inr (cs, st')"
  shows "server_inv R st' \<and> is_generations st' = is_generations st \<and> added q rs cs (is_claims st) (is_claims st')"
  using assms(1,3-)
proof (induction rs arbitrary: st cs)
  case Nil
  then show ?case by (simp add: added_def)
next
  case (Cons r rs)
  from Cons.prems(7) obtain c s1 cs1 where r: "admitRequirement st q r = Inr (c, s1)" "admit_all s1 q rs = Inr (cs1, st')"
    "cs = c\<lparr>cl_State := ClaimStatePending\<rparr> # cs1"
    by (auto split: sum.splits)
  note s = admitRequirement_inv [OF Cons.prems(1) D _ _ Cons.prems(3,4) _ r(1)]
  have rr: "required R q r" "well_shared r" "fmlookup (is_claims st) (claim_id q r) = None" using Cons.prems(2,5) by simp_all
  note s = s [OF rr]
  have fresh: "fmlookup (is_claims s1) (claim_id q r') = None" if "r' \<in> set rs" for r'
    using Cons.prems(5,6) that s(4) by auto
  have "server_inv R st' \<and> is_generations st' = is_generations s1 \<and> added q rs cs1 (is_claims s1) (is_claims st')"
    using Cons.IH [OF s(1)] Cons.prems(2,3,4,6) s(3) fresh r(2) by simp
  note t = this
  have n: "c = c\<lparr>cl_State := ClaimStateNone\<rparr>" "cl_ID c = claim_id q r" "cl_Requirement c = r" "claim_ref c = request_ref q"
    using s(2) by (metis new_claim_simps new_claim_def Claim.update_convs(7))+
  have nin: "claim_id q r \<notin> set (map cl_ID cs1)"
    using t Cons.prems(6) unfolding added_def by simp
  then have "map_of (map (\<lambda>c. (cl_ID c, c\<lparr>cl_State := ClaimStateNone\<rparr>)) cs1) (claim_id q r) = None"
    by (force simp: map_of_eq_None_iff)
  then show ?case using t n s(3) r(3) unfolding added_def s(4)
    by (auto simp: claim_ref_def split: option.splits)
qed

text \<open>What no operation undoes: claims stay, generations stay, a released generation stays released.\<close>

definition server_evolves :: "inventoryState \<Rightarrow> inventoryState \<Rightarrow> bool" where
  "server_evolves st st' \<longleftrightarrow>
     (\<forall>k c. fmlookup (is_claims st) k = Some c \<longrightarrow> fmlookup (is_claims st') k = Some c) \<and>
     (\<forall>k g. fmlookup (is_generations st) k = Some g \<longrightarrow>
        (\<exists>g'. fmlookup (is_generations st') k = Some g' \<and> cg_Ref g' = cg_Ref g \<and> cg_ClaimSetDigest g' = cg_ClaimSetDigest g \<and>
          (cg_State g = ClaimStateReleased \<longrightarrow> cg_State g' = ClaimStateReleased)))"

lemma server_evolves_refl [simp]: "server_evolves st st"
  by (simp add: server_evolves_def)

lemma server_evolves_trans:
  assumes "server_evolves a b" "server_evolves b c"
  shows "server_evolves a c"
  unfolding server_evolves_def
proof (intro conjI allI impI)
  fix k g assume "fmlookup (is_generations a) k = Some g"
  then obtain g1 where g1: "fmlookup (is_generations b) k = Some g1" "cg_Ref g1 = cg_Ref g"
    "cg_ClaimSetDigest g1 = cg_ClaimSetDigest g" "cg_State g = ClaimStateReleased \<longrightarrow> cg_State g1 = ClaimStateReleased"
    using assms(1) unfolding server_evolves_def by blast
  from g1(1) obtain g2 where "fmlookup (is_generations c) k = Some g2" "cg_Ref g2 = cg_Ref g1"
    "cg_ClaimSetDigest g2 = cg_ClaimSetDigest g1" "cg_State g1 = ClaimStateReleased \<longrightarrow> cg_State g2 = ClaimStateReleased"
    using assms(2) unfolding server_evolves_def by blast
  then show "\<exists>g'. fmlookup (is_generations c) k = Some g' \<and> cg_Ref g' = cg_Ref g \<and> cg_ClaimSetDigest g' = cg_ClaimSetDigest g \<and>
      (cg_State g = ClaimStateReleased \<longrightarrow> cg_State g' = ClaimStateReleased)"
    using g1 by auto
qed (use assms in \<open>simp add: server_evolves_def\<close>)

lemma server_inv_ref [simp]: "server_inv R (st\<lparr>is_ref := x\<rparr>) = server_inv R st"
  by (simp add: server_inv_def core_inv_def reservations_ok_def disjoint_ok_def claims_ok_def exclusive_ok_def backed_ok_def
      serves_def live_claim_def claim_generation_def)

lemma server_inv_empty:
  "server_inv R \<lparr>is_ref = x, is_reservations = fmempty, is_generations = fmempty, is_claims = fmempty\<rparr>"
  by (simp add: server_inv_def core_inv_def reservations_ok_def disjoint_ok_def claims_ok_def exclusive_ok_def backed_ok_def)

lemma clone_inv:
  "(\<And>st. x = Some st \<Longrightarrow> server_inv R st) \<Longrightarrow> server_inv R (cloneInventoryState x ref)"
  by (cases x) (simp_all add: cloneInventoryState_def server_inv_empty)

lemma claim_ids_distinct:
  assumes "distinct_claims R" "q \<in> R" "normalized q"
  shows "distinct (map (claim_id q) (ar_Requirements q))"
proof -
  have "inj_on (claim_id q) (set (ar_Requirements q))"
  proof (rule inj_onI)
    fix r r' assume r: "r \<in> set (ar_Requirements q)" "r' \<in> set (ar_Requirements q)" "claim_id q r = claim_id q r'"
    then have "rq_ID r = rq_ID r'" using assms(1,2) unfolding distinct_claims_def required_def by blast
    then show "r = r'" using assms(3) r(1,2) by (auto simp: normalized_def distinct_map dest: inj_onD)
  qed
  then show ?thesis using assms(3) by (auto simp: normalized_def distinct_map)
qed

lemma admitState_inv:
  assumes I: "server_inv R st" and D: "distinct_reservations R" "distinct_claims R" and q: "q \<in> R" "normalized q"
    and res: "admitState st q = Inr (cs, st')"
    and new: "fmlookup (is_generations st) (claimGenerationKey (request_ref q)) = None"
  obtains cs0 where "server_inv R st'" "added q (ar_Requirements q) cs0 (is_claims st) (is_claims st')" "cs = sortClaims cs0"
    "is_generations st' = fmupd (claimGenerationKey (request_ref q)) (new_generation q) (is_generations st)"
    "\<And>r. r \<in> set (ar_Requirements q) \<Longrightarrow> fmlookup (is_claims st) (claim_id q r) = None"
    "distinct (map (claim_id q) (ar_Requirements q))"
proof -
  define key where "key = claimGenerationKey (request_ref q)"
  define st0 where "st0 = st\<lparr>is_generations := fmupd key (new_generation q) (is_generations st)\<rparr>"
  have core: "core_inv R st" and backed: "backed_ok st" using server_invD [OF I] by auto
  note C = core_invD [OF core]
  have other: "claimGenerationKey (claim_ref c) \<noteq> key" if "fmlookup (is_claims st) k = Some c" for k c
  proof -
    have "claim_generation st c \<noteq> None" using C(3) that by (simp add: claims_ok_def)
    then show ?thesis using new by (auto simp: claim_generation_def key_def)
  qed
  have same: "claim_generation st0 c = claim_generation st c" "live_claim st0 c = live_claim st c"
    if "fmlookup (is_claims st) k = Some c" for k c
    using other [OF that] by (simp_all add: claim_generation_def live_claim_def st0_def)
  have sel: "is_claims st0 = is_claims st" "is_reservations st0 = is_reservations st" "serves st0 c = serves st c" for c
    by (simp_all add: st0_def serves_def)
  have "claims_ok R st0" using C(3) unfolding claims_ok_def sel using same by metis
  moreover have "exclusive_ok st0" using C(4) unfolding exclusive_ok_def sel using same by metis
  moreover have "backed_ok st0" using backed unfolding backed_ok_def sel using same by metis
  ultimately have I0: "server_inv R st0"
    using C(1,2) by (simp add: server_inv_def core_inv_def reservations_ok_def disjoint_ok_def sel)
  have fresh: "fmlookup (is_claims st) (claim_id q r) = None" if r: "r \<in> set (ar_Requirements q)" for r
  proof (rule ccontr)
    assume "fmlookup (is_claims st) (claim_id q r) \<noteq> None"
    then obtain c where c: "fmlookup (is_claims st) (claim_id q r) = Some c" by blast
    then obtain q' where q': "required R q' (cl_Requirement c)" "claim_id q r = claim_id q' (cl_Requirement c)"
      "claim_ref c = request_ref q'" using C(3) unfolding claims_ok_def by blast
    then have "request_ref q = request_ref q'"
      using D(2) q(1) r unfolding distinct_claims_def required_def by blast
    then show False using other [OF c] q'(3) by (simp add: key_def)
  qed
  have ids: "distinct (map (claim_id q) (ar_Requirements q))" by (rule claim_ids_distinct [OF D(2) q])
  from res new obtain cs0 where a: "admit_all st0 q (ar_Requirements q) = Inr (cs0, st')" "cs = sortClaims cs0"
    by (auto simp: admitState_def Let_def st0_def key_def split: sum.splits)
  have pre: "required R q r \<and> well_shared r" if "r \<in> set (ar_Requirements q)" for r
    using that q by (auto simp: required_def normalized_def list_all_iff)
  have g: "fmlookup (is_generations st0) (claimGenerationKey (request_ref q)) = Some (new_generation q)"
    "cg_State (new_generation q) \<noteq> ClaimStateReleased"
    by (simp_all add: st0_def key_def new_generation_def)
  have "server_inv R st' \<and> is_generations st' = is_generations st0 \<and> added q (ar_Requirements q) cs0 (is_claims st0) (is_claims st')"
  proof (rule admit_all_inv [OF I0 D(1) pre g _ ids a(1)])
    fix r assume "r \<in> set (ar_Requirements q)"
    then show "fmlookup (is_claims st0) (claim_id q r) = None" using fresh unfolding sel by blast
  qed
  then show ?thesis using that [of cs0] a(2) fresh ids by (simp add: sel st0_def key_def)
qed

section \<open>The lifecycle keeps the invariant\<close>

text \<open>New states for generations, as the lifecycle operations write them.\<close>

definition restated :: "(string, ClaimGeneration) fmap \<Rightarrow> (string, ClaimGeneration) fmap \<Rightarrow> bool" where
  "restated G G' \<longleftrightarrow>
     (\<forall>k. (fmlookup G' k = None \<longleftrightarrow> fmlookup G k = None) \<and>
        (\<forall>g g'. fmlookup G k = Some g \<and> fmlookup G' k = Some g' \<longrightarrow> cg_Ref g' = cg_Ref g \<and>
           cg_ClaimSetDigest g' = cg_ClaimSetDigest g \<and>
           (cg_State g = ClaimStateReleased \<longrightarrow> cg_State g' = ClaimStateReleased)))"

lemma restated_evolves:
  assumes "restated (is_generations st) (is_generations st')" "is_claims st' = is_claims st"
  shows "server_evolves st st'"
  unfolding server_evolves_def
proof (intro conjI allI impI)
  fix k g assume g: "fmlookup (is_generations st) k = Some g"
  then obtain g' where "fmlookup (is_generations st') k = Some g'"
    using assms(1) unfolding restated_def by (metis option.exhaust option.distinct(1))
  then show "\<exists>g'. fmlookup (is_generations st') k = Some g' \<and> cg_Ref g' = cg_Ref g \<and> cg_ClaimSetDigest g' = cg_ClaimSetDigest g \<and>
      (cg_State g = ClaimStateReleased \<longrightarrow> cg_State g' = ClaimStateReleased)"
    using g assms(1) unfolding restated_def by blast
qed (simp add: assms(2))

lemma restated_claims:
  assumes "restated (is_generations st) (is_generations st')"
  shows "(claim_generation st' c = None) = (claim_generation st c = None)" "live_claim st' c \<Longrightarrow> live_claim st c"
proof -
  show n: "(claim_generation st' c = None) = (claim_generation st c = None)"
    using assms unfolding restated_def claim_generation_def by blast
  assume l: "live_claim st' c"
  then obtain g' where g': "claim_generation st' c = Some g'" "cg_State g' \<noteq> ClaimStateReleased"
    by (auto simp: live_claim_def split: option.splits)
  then obtain g where g: "claim_generation st c = Some g" using n by auto
  then have "cg_State g \<noteq> ClaimStateReleased"
    using assms g' unfolding restated_def claim_generation_def by blast
  then show "live_claim st c" using g by (simp add: live_claim_def)
qed

lemma gc_lookup:
  "fmlookup (is_reservations (gcReservations st)) i =
     map_option (\<lambda>v. if \<exists>k c. fmlookup (is_claims st) k = Some c \<and> live_claim st c \<and> cl_ReservationID c = i then v
       else v\<lparr>rv_State := ReservationStateReleased\<rparr>) (fmlookup (is_reservations st) i)"
proof -
  have "i \<in> cl_ReservationID ` {c \<in> set (map_values (is_claims st)). live_claim st c} \<longleftrightarrow>
      (\<exists>k c. fmlookup (is_claims st) k = Some c \<and> live_claim st c \<and> cl_ReservationID c = i)"
    by (auto simp: set_map_values)
  then show ?thesis by (simp add: gcReservations_def)
qed

lemma gc_sel [simp]:
  "is_claims (gcReservations st) = is_claims st" "is_generations (gcReservations st) = is_generations st"
  "live_claim (gcReservations st) c = live_claim st c" "claim_generation (gcReservations st) c = claim_generation st c"
  by (simp_all add: gcReservations_def Let_def live_claim_def claim_generation_def)

lemma released_listener [simp]: "reserved_listener (v\<lparr>rv_State := x\<rparr>) = reserved_listener v"
  by (simp add: reserved_listener_def)

lemma gc_reserved:
  assumes "fmlookup (is_reservations (gcReservations st)) i = Some v" "reserved v"
  shows "fmlookup (is_reservations st) i = Some v"
    "\<exists>k c. fmlookup (is_claims st) k = Some c \<and> live_claim st c \<and> cl_ReservationID c = i"
proof -
  let ?P = "\<exists>k c. fmlookup (is_claims st) k = Some c \<and> live_claim st c \<and> cl_ReservationID c = i"
  obtain v0 where v0: "fmlookup (is_reservations st) i = Some v0"
    "v = (if ?P then v0 else v0\<lparr>rv_State := ReservationStateReleased\<rparr>)"
    using assms(1) unfolding gc_lookup by auto
  then show P: ?P using assms(2) by (cases ?P) simp_all
  then show "fmlookup (is_reservations st) i = Some v" using v0 by simp
qed

lemma gc_inv:
  assumes I: "server_inv R st" and G: "restated (is_generations st) (is_generations st')"
    and same: "is_claims st' = is_claims st" "is_reservations st' = is_reservations st"
  shows "server_inv R (gcReservations st')"
proof -
  have core: "core_inv R st" and backed: "backed_ok st" using server_invD [OF I] by auto
  note C = core_invD [OF core]
  note live = restated_claims [OF G]
  let ?t = "gcReservations st'"
  have "reservations_ok R ?t" unfolding reservations_ok_def
  proof (intro allI impI)
    fix i v assume v: "fmlookup (is_reservations ?t) i = Some v"
    then obtain v0 where "fmlookup (is_reservations st) i = Some v0" "rv_ID v = rv_ID v0" "reserved_listener v = reserved_listener v0"
      by (auto simp: gc_lookup same split: if_splits)
    then show "rv_ID v = i \<and> (\<exists>q r. required R q r \<and> well_shared r \<and> i = reservation_id (ar_ServerRef q) r \<and> reserved_listener v = listener r)"
      using C(1) unfolding reservations_ok_def by metis
  qed
  moreover have "disjoint_ok ?t"
    using C(2) gc_reserved(1) [of st'] unfolding disjoint_ok_def same by blast
  moreover have "serves ?t c" if c: "fmlookup (is_claims st) k = Some c" "live_claim st' c" for k c
  proof -
    obtain v where v: "fmlookup (is_reservations st) (cl_ReservationID c) = Some v" "reserved v" "reserved_listener v = listener (cl_Requirement c)"
      using C(3) c live(2) unfolding claims_ok_def serves_def by blast
    have "fmlookup (is_reservations ?t) (cl_ReservationID c) = Some v"
      using v(1) c unfolding gc_lookup same by auto
    then show ?thesis using v by (auto simp: serves_def)
  qed
  then have "claims_ok R ?t"
    using C(3) live(1) unfolding claims_ok_def gc_sel same by blast
  moreover have "exclusive_ok ?t" using C(4) live(2) unfolding exclusive_ok_def gc_sel same by blast
  moreover have "backed_ok ?t" using gc_reserved(2) [of st'] unfolding backed_ok_def gc_sel same by blast
  ultimately show ?thesis by (simp add: server_inv_def core_inv_def)
qed

text \<open>States other than released change nothing.\<close>

lemma put_state_inv:
  assumes I: "server_inv R st" and g: "fmlookup (is_generations st) key = Some g"
    and n: "cg_State g \<noteq> ClaimStateReleased" "x \<noteq> ClaimStateReleased"
  shows "server_inv R (put_generation key (g\<lparr>cg_State := x\<rparr>) st)"
proof -
  let ?t = "put_generation key (g\<lparr>cg_State := x\<rparr>) st"
  have live: "live_claim ?t c = live_claim st c" "(claim_generation ?t c = None) = (claim_generation st c = None)" for c
    using g n by (auto simp: put_generation_def live_claim_def claim_generation_def)
  have sel: "is_claims ?t = is_claims st" "is_reservations ?t = is_reservations st" "serves ?t c = serves st c" for c
    by (simp_all add: put_generation_def serves_def)
  show ?thesis
    using I unfolding server_inv_def core_inv_def reservations_ok_def disjoint_ok_def claims_ok_def exclusive_ok_def
      backed_ok_def live sel .
qed

lemma put_restated:
  assumes "fmlookup (is_generations st) key = Some g" "cg_State g = ClaimStateReleased \<longrightarrow> x = ClaimStateReleased"
  shows "restated (is_generations st) (is_generations (put_generation key (g\<lparr>cg_State := x\<rparr>) st))"
  using assms by (auto simp: restated_def put_generation_def)

lemma supersede_restated:
  "restated (is_generations st) (is_generations (supersede_others key s st))"
  by (auto simp: restated_def supersede_others_def)

lemma restated_trans:
  assumes "restated F G" "restated G H"
  shows "restated F H"
  unfolding restated_def
proof (intro allI conjI impI)
  fix k show "(fmlookup H k = None) = (fmlookup F k = None)" using assms unfolding restated_def by blast
next
  fix k f h assume a: "fmlookup F k = Some f \<and> fmlookup H k = Some h"
  then obtain g where "fmlookup G k = Some g" using assms(1) unfolding restated_def by (cases "fmlookup G k") auto
  then have "cg_Ref g = cg_Ref f \<and> cg_ClaimSetDigest g = cg_ClaimSetDigest f \<and> (cg_State f = ClaimStateReleased \<longrightarrow> cg_State g = ClaimStateReleased)"
    "cg_Ref h = cg_Ref g \<and> cg_ClaimSetDigest h = cg_ClaimSetDigest g \<and> (cg_State g = ClaimStateReleased \<longrightarrow> cg_State h = ClaimStateReleased)"
    using a assms unfolding restated_def by blast+
  then show "cg_Ref h = cg_Ref f" "cg_ClaimSetDigest h = cg_ClaimSetDigest f"
    "cg_State f = ClaimStateReleased \<Longrightarrow> cg_State h = ClaimStateReleased" by auto
qed

section \<open>The authority as a transition system\<close>

datatype port_op =
    OpAdmit "string option" AdmissionRequest
  | OpStart "string option" GenerationRef
  | OpActivate "string option" GenerationRef
  | OpUncertain "string option" GenerationRef
  | OpAbort "string option" GenerationRef
  | OpRelease "string option" GenerationRef

fun port_exec :: "port_op \<Rightarrow> MemoryAuthority \<Rightarrow> MemoryAuthority" where
  "port_exec (OpAdmit ctx q) a = snd (Port_Admit ctx q a)"
| "port_exec (OpStart ctx ref) a = snd (MarkMutationStarted ctx ref a)"
| "port_exec (OpActivate ctx ref) a = snd (Activate ctx ref a)"
| "port_exec (OpUncertain ctx ref) a = snd (MarkUncertain ctx ref a)"
| "port_exec (OpAbort ctx ref) a = snd (AbortBeforeMutation ctx ref a)"
| "port_exec (OpRelease ctx ref) a = snd (ReleaseAfterTeardown ctx ref a)"

text \<open>The requests of a run, in normal form, are among \<open>R\<close>.\<close>

definition within :: "AdmissionRequest set \<Rightarrow> port_op \<Rightarrow> bool" where
  "within R x \<longleftrightarrow> (\<forall>ctx q n. x = OpAdmit ctx q \<and> normalizeAdmission q = Inr n \<longrightarrow> n \<in> R)"

definition pstep :: "AdmissionRequest set \<Rightarrow> MemoryAuthority \<Rightarrow> MemoryAuthority \<Rightarrow> bool" where
  "pstep R a b \<longleftrightarrow> (\<exists>x. within R x \<and> b = port_exec x a)"

definition pinit :: "MemoryAuthority \<Rightarrow> bool" where
  "pinit a \<longleftrightarrow> a = NewMemoryAuthority"

definition auth_inv :: "AdmissionRequest set \<Rightarrow> MemoryAuthority \<Rightarrow> bool" where
  "auth_inv R a \<longleftrightarrow> (\<forall>k st. fmlookup (ma_servers a) k = Some st \<longrightarrow> server_inv R st)"

definition auth_evolves :: "MemoryAuthority \<Rightarrow> MemoryAuthority \<Rightarrow> bool" where
  "auth_evolves a b \<longleftrightarrow>
     (\<forall>k st. fmlookup (ma_servers a) k = Some st \<longrightarrow> (\<exists>st'. fmlookup (ma_servers b) k = Some st' \<and> server_evolves st st'))"

lemma on_generation_cases:
  obtains (failed) e where "on_generation ctx ref0 f a = (Some e, a)"
  | (changed) ref st g st' where "ctx = None" "normalizeGenerationRef ref0 = Inr ref"
      "fmlookup (ma_servers a) (serverKey (gr_ServerRef ref)) = Some st"
      "fmlookup (is_generations st) (claimGenerationKey ref) = Some g" "f (claimGenerationKey ref) ref g st = Inr st'"
      "on_generation ctx ref0 f a = (None, a\<lparr>ma_servers := fmupd (serverKey (gr_ServerRef ref)) st' (ma_servers a)\<rparr>)"
proof -
  let ?r = "on_generation ctx ref0 f a"
  have "(\<exists>e. ?r = (Some e, a)) \<or>
    (\<exists>ref st g st'. ctx = None \<and> normalizeGenerationRef ref0 = Inr ref \<and>
      fmlookup (ma_servers a) (serverKey (gr_ServerRef ref)) = Some st \<and>
      fmlookup (is_generations st) (claimGenerationKey ref) = Some g \<and> f (claimGenerationKey ref) ref g st = Inr st' \<and>
      ?r = (None, a\<lparr>ma_servers := fmupd (serverKey (gr_ServerRef ref)) st' (ma_servers a)\<rparr>))"
    unfolding on_generation_def Let_def by (auto split: sum.splits option.splits)
  then show ?thesis using failed changed by blast
qed

lemma on_generation_inv:
  assumes I: "auth_inv R a"
    and f: "\<And>key ref g st st'. server_inv R st \<Longrightarrow> fmlookup (is_generations st) key = Some g \<Longrightarrow> f key ref g st = Inr st' \<Longrightarrow>
      server_inv R st' \<and> server_evolves st st'"
  shows "auth_inv R (snd (on_generation ctx ref f a)) \<and> auth_evolves a (snd (on_generation ctx ref f a))"
proof (cases rule: on_generation_cases [of ctx ref f a])
  case (failed e)
  then show ?thesis using I by (auto simp: auth_evolves_def)
next
  case (changed ref' st g st')
  have "server_inv R st' \<and> server_evolves st st'" using f [OF _ changed(4,5)] I changed(3) by (simp add: auth_inv_def)
  then show ?thesis using I changed(3,6) by (auto simp: auth_inv_def auth_evolves_def)
qed

lemma transition_inv:
  assumes "auth_inv R a" "ClaimStateReleased \<notin> set allowed" "x \<noteq> ClaimStateReleased"
  shows "auth_inv R (snd (port_transition ctx ref allowed x a)) \<and> auth_evolves a (snd (port_transition ctx ref allowed x a))"
  unfolding port_transition_def
proof (rule on_generation_inv [OF assms(1)])
  fix key ref g st st'
  assume a: "server_inv R st" "fmlookup (is_generations st) key = Some g"
    "(if cg_State g \<notin> set allowed then Inl ErrInvalidTransition else Inr (put_generation key (g\<lparr>cg_State := x\<rparr>) st)) = Inr st'"
  then have n: "cg_State g \<noteq> ClaimStateReleased" "st' = put_generation key (g\<lparr>cg_State := x\<rparr>) st"
    using assms(2) by (auto split: if_splits)
  then show "server_inv R st' \<and> server_evolves st st'"
    using put_state_inv [OF a(1,2) n(1) assms(3)] restated_evolves [OF put_restated [OF a(2)], of x] by (simp add: put_generation_def)
qed

lemma release_inv:
  assumes "auth_inv R a"
  shows "auth_inv R (snd (port_release ctx ref allowed a)) \<and> auth_evolves a (snd (port_release ctx ref allowed a))"
  unfolding port_release_def
proof (rule on_generation_inv [OF assms])
  fix key ref g st st'
  assume a: "server_inv R st" "fmlookup (is_generations st) key = Some g"
    "(if cg_State g = ClaimStateReleased then Inr st else if cg_State g \<notin> set allowed then Inl ErrInvalidTransition
      else Inr (gcReservations (put_generation key (g\<lparr>cg_State := ClaimStateReleased\<rparr>) st))) = Inr st'"
  then consider "st' = st" | "st' = gcReservations (put_generation key (g\<lparr>cg_State := ClaimStateReleased\<rparr>) st)"
    by (auto split: if_splits)
  then show "server_inv R st' \<and> server_evolves st st'"
  proof cases
    case 2
    have r: "restated (is_generations st) (is_generations (put_generation key (g\<lparr>cg_State := ClaimStateReleased\<rparr>) st))"
      by (rule put_restated [OF a(2)]) simp
    have "server_evolves st st'" by (rule restated_evolves) (use r 2 in \<open>simp_all add: put_generation_def\<close>)
    then show ?thesis using gc_inv [OF a(1) r] 2 by (simp add: put_generation_def)
  qed (use a(1) in simp)
qed

lemma activate_inv:
  assumes "auth_inv R a"
  shows "auth_inv R (snd (Activate ctx ref a)) \<and> auth_evolves a (snd (Activate ctx ref a))"
  unfolding Activate_def
proof (rule on_generation_inv [OF assms])
  fix key ref g st st'
  assume a: "server_inv R st" "fmlookup (is_generations st) key = Some g"
    "(if cg_State g \<noteq> ClaimStateMutating \<and> cg_State g \<noteq> ClaimStateActive then Inl ErrInvalidTransition
      else Inr (gcReservations (supersede_others key (gr_StackID ref) (put_generation key (g\<lparr>cg_State := ClaimStateActive\<rparr>) st)))) = Inr st'"
  define s1 where "s1 = put_generation key (g\<lparr>cg_State := ClaimStateActive\<rparr>) st"
  define s2 where "s2 = supersede_others key (gr_StackID ref) s1"
  have st': "st' = gcReservations s2" "cg_State g \<noteq> ClaimStateReleased" using a(3) by (auto simp: s1_def s2_def split: if_splits)
  have "restated (is_generations st) (is_generations s1)"
    unfolding s1_def by (rule put_restated [OF a(2)]) (simp add: st'(2))
  then have r: "restated (is_generations st) (is_generations s2)"
    unfolding s2_def using restated_trans supersede_restated by blast
  have same: "is_claims s2 = is_claims st" "is_reservations s2 = is_reservations st"
    by (simp_all add: s1_def s2_def put_generation_def supersede_others_def)
  have "server_evolves st st'" by (rule restated_evolves) (use r st' same in simp_all)
  then show "server_inv R st' \<and> server_evolves st st'" using gc_inv [OF a(1) r same] st' by simp
qed

lemma admit_inv:
  assumes I: "auth_inv R a" and D: "distinct_reservations R" "distinct_claims R"
    and q: "\<And>n. normalizeAdmission q = Inr n \<Longrightarrow> n \<in> R"
  shows "auth_inv R (snd (Port_Admit ctx q a)) \<and> auth_evolves a (snd (Port_Admit ctx q a))"
proof (cases "fst (Port_Admit ctx q a)")
  case (Inl e)
  then have "snd (Port_Admit ctx q a) = a"
    by (auto simp: Port_Admit_def Let_def split: option.splits sum.splits)
  then show ?thesis using I by (auto simp: auth_evolves_def)
next
  case (Inr cs)
  then obtain n st' where n: "normalizeAdmission q = Inr n"
    "admitState (cloneInventoryState (fmlookup (ma_servers a) (serverKey (ar_ServerRef n))) (ar_ServerRef n)) n = Inr (cs, st')"
    "snd (Port_Admit ctx q a) = a\<lparr>ma_servers := fmupd (serverKey (ar_ServerRef n)) st' (ma_servers a)\<rparr>"
    by (auto simp: Port_Admit_def Let_def split: option.splits sum.splits)
  define w where "w = cloneInventoryState (fmlookup (ma_servers a) (serverKey (ar_ServerRef n))) (ar_ServerRef n)"
  have Iw: "server_inv R w" unfolding w_def by (rule clone_inv) (use I in \<open>auto simp: auth_inv_def\<close>)
  have evw: "server_evolves st w" if "fmlookup (ma_servers a) (serverKey (ar_ServerRef n)) = Some st" for st
    using that by (simp add: w_def cloneInventoryState_def server_evolves_def)
  have "server_inv R st' \<and> server_evolves w st'"
  proof (cases "fmlookup (is_generations w) (claimGenerationKey (request_ref n))")
    case (Some g)
    then have "st' = w" using n(2) by (auto simp: admitState_def w_def [symmetric] Let_def split: if_splits)
    then show ?thesis using Iw by simp
  next
    case None
    obtain cs0 where c: "server_inv R st'" "added n (ar_Requirements n) cs0 (is_claims w) (is_claims st')"
      "is_generations st' = fmupd (claimGenerationKey (request_ref n)) (new_generation n) (is_generations w)"
      "\<And>r. r \<in> set (ar_Requirements n) \<Longrightarrow> fmlookup (is_claims w) (claim_id n r) = None"
      using admitState_inv [OF Iw D q [OF n(1)] normalizeAdmission_normalized [OF n(1)] n(2) [folded w_def] None] by metis
    have "fmlookup (is_claims st') k = Some d" if "fmlookup (is_claims w) k = Some d" for k d
    proof -
      have "k \<notin> claim_id n ` set (ar_Requirements n)" using c(4) that by auto
      moreover have "cl_ID ` set cs0 = claim_id n ` set (ar_Requirements n)"
        using c(2) unfolding added_def by (metis list.set_map)
      ultimately have "map_of (map (\<lambda>c. (cl_ID c, c\<lparr>cl_State := ClaimStateNone\<rparr>)) cs0) k = None"
        by (force simp: map_of_eq_None_iff)
      then show ?thesis using c(2) that unfolding added_def by simp
    qed
    then have "server_evolves w st'" unfolding server_evolves_def c(3) using None by auto
    then show ?thesis using c(1) by simp
  qed
  then show ?thesis using I n(3) evw server_evolves_trans
    by (auto simp: auth_inv_def auth_evolves_def)
qed

lemma port_exec_inv:
  assumes "auth_inv R a" "distinct_reservations R" "distinct_claims R" "within R x"
  shows "auth_inv R (port_exec x a) \<and> auth_evolves a (port_exec x a)"
  using assms transition_inv release_inv activate_inv admit_inv
  by (cases x) (auto simp: within_def MarkMutationStarted_def MarkUncertain_def AbortBeforeMutation_def ReleaseAfterTeardown_def)

interpretation ports: invariant_system pinit "pstep R" "\<lambda>a. distinct_reservations R \<and> distinct_claims R \<longrightarrow> auth_inv R a"
  for R
proof
  fix a assume "pinit a"
  then show "distinct_reservations R \<and> distinct_claims R \<longrightarrow> auth_inv R a"
    by (simp add: pinit_def NewMemoryAuthority_def auth_inv_def)
next
  fix a b assume "distinct_reservations R \<and> distinct_claims R \<longrightarrow> auth_inv R a" "pstep R a b"
  then show "distinct_reservations R \<and> distinct_claims R \<longrightarrow> auth_inv R b"
    using port_exec_inv unfolding pstep_def by blast
qed

lemma reach_server_inv:
  assumes "distinct_reservations R" "distinct_claims R" "reach pinit (pstep R) a"
    "fmlookup (ma_servers a) k = Some st"
  shows "server_inv R st"
  using ports.reach_inv [OF assms(3)] assms(1,2,4) by (simp add: auth_inv_def)

lemma auth_evolves_trans: "auth_evolves a b \<Longrightarrow> auth_evolves b c \<Longrightarrow> auth_evolves a c"
  unfolding auth_evolves_def using server_evolves_trans by blast

lemma port_steps_evolve:
  assumes "(pstep R)\<^sup>*\<^sup>* a b" "auth_inv R a" "distinct_reservations R" "distinct_claims R"
  shows "auth_inv R b \<and> auth_evolves a b"
  using assms
proof (induction rule: rtranclp_induct)
  case base
  then show ?case by (auto simp: auth_evolves_def)
next
  case (step b c)
  then have "auth_inv R c \<and> auth_evolves b c" using port_exec_inv unfolding pstep_def by blast
  then show ?case using step auth_evolves_trans by blast
qed

end
