(* ===== verification/Port_Properties.thy ===== *)
theory Port_Properties
  imports Port_Safety
begin

text \<open>
  What the port authority promises its callers: listeners of different stacks never clash, an
  admitted claim stays reserved until its generation is released, admission can be repeated, the
  result does not depend on the iteration order of Go's maps, and generations follow their
  lifecycle.
\<close>

section \<open>Listeners never clash\<close>

text \<open>
  C25: two live claims on one server whose listeners overlap (same transport and port, and equal
  addresses or a wildcard) are claims on the same listener; if they belong to different stacks, the
  listener is a virtual-host listener of one group.
\<close>

theorem listeners_never_clash:
  assumes "distinct_reservations R" "distinct_claims R" "reach pinit (pstep R) a" "fmlookup (ma_servers a) k = Some st"
    and c: "fmlookup (is_claims st) i = Some c" "live_claim st c"
    and d: "fmlookup (is_claims st) j = Some d" "live_claim st d"
    and o: "rq_Transport (cl_Requirement c) = rq_Transport (cl_Requirement d)" "rq_Port (cl_Requirement c) = rq_Port (cl_Requirement d)"
      "addressesOverlap (rq_BindAddress (cl_Requirement c)) (rq_BindAddress (cl_Requirement d))"
  shows "listener (cl_Requirement c) = listener (cl_Requirement d) \<and> cl_ReservationID c = cl_ReservationID d \<and>
    (cl_StackID c = cl_StackID d \<or> rq_Sharing (cl_Requirement c) = SharingVirtualHost)"
proof -
  have core: "core_inv R st" using server_invD [OF reach_server_inv [OF assms(1-4)]] by blast
  note I = core_invD [OF core]
  obtain v where v: "fmlookup (is_reservations st) (cl_ReservationID c) = Some v" "reserved v" "reserved_listener v = listener (cl_Requirement c)"
    using I(3) c unfolding claims_ok_def serves_def by blast
  obtain w where w: "fmlookup (is_reservations st) (cl_ReservationID d) = Some w" "reserved w" "reserved_listener w = listener (cl_Requirement d)"
    using I(3) d unfolding claims_ok_def serves_def by blast
  have "clash v w" using v(3) w(3) o by (simp add: clash_def reserved_listener_def listener_def)
  then have e: "cl_ReservationID c = cl_ReservationID d" using I(2) v w unfolding disjoint_ok_def by blast
  then have l: "listener (cl_Requirement c) = listener (cl_Requirement d)" using v w by simp
  obtain r where r: "reserved_listener v = listener r" "well_shared r" using I(1) v(1) unfolding reservations_ok_def by blast
  then have "rq_Sharing (cl_Requirement c) = SharingVirtualHost \<or> rq_Sharing (cl_Requirement c) = SharingExclusive"
    using v(3) by (auto simp: well_shared_def listener_def)
  then show ?thesis using e l I(4) c d unfolding exclusive_ok_def by blast
qed

section \<open>Admitted claims\<close>

text \<open>The server an admission of a normalized request works on.\<close>

definition working :: "MemoryAuthority \<Rightarrow> AdmissionRequest \<Rightarrow> inventoryState" where
  "working a n = cloneInventoryState (fmlookup (ma_servers a) (serverKey (ar_ServerRef n))) (ar_ServerRef n)"

lemma Port_Admit_InrD:
  assumes "Port_Admit ctx q a = (Inr cs, b)"
  obtains n st where "ctx = None" "normalizeAdmission q = Inr n" "admitState (working a n) n = Inr (cs, st)"
    "b = a\<lparr>ma_servers := fmupd (serverKey (ar_ServerRef n)) st (ma_servers a)\<rparr>"
  using assms by (auto simp: Port_Admit_def working_def Let_def split: option.splits sum.splits)

lemma working_inv: "auth_inv R a \<Longrightarrow> server_inv R (working a n)"
  unfolding working_def by (rule clone_inv) (auto simp: auth_inv_def)

lemma claim_state_irrelevant:
  "serves st (c\<lparr>cl_State := x\<rparr>) = serves st c" "live_claim st (c\<lparr>cl_State := x\<rparr>) = live_claim st c"
  "claim_generation st (c\<lparr>cl_State := x\<rparr>) = claim_generation st c"
  by (simp_all add: serves_def live_claim_def claim_generation_def claim_ref_def)

text \<open>A claim an admission returns is stored, up to its state.\<close>

lemma admitted_stored:
  assumes I: "auth_inv R a" and D: "distinct_reservations R" "distinct_claims R"
    and n: "normalizeAdmission q = Inr n" "n \<in> R" "admitState (working a n) n = Inr (cs, st)" and c: "c \<in> set cs"
  shows "\<exists>i c0 x. fmlookup (is_claims st) i = Some c0 \<and> c = c0\<lparr>cl_State := x\<rparr>"
proof (cases "fmlookup (is_generations (working a n)) (claimGenerationKey (request_ref n))")
  case (Some g)
  then have "cs = claimsForGeneration st g" using n(3) by (auto simp: admitState_def Let_def split: if_splits)
  then show ?thesis using c by (auto simp: claimsForGeneration_def sortClaims_def set_map_values)
next
  case None
  obtain cs0 where "added n (ar_Requirements n) cs0 (is_claims (working a n)) (is_claims st)" "cs = sortClaims cs0"
    "distinct (map (claim_id n) (ar_Requirements n))"
    using admitState_inv [OF working_inv [OF I] D n(2) normalizeAdmission_normalized [OF n(1)] n(3) None] by metis
  then have s: "c \<in> set cs0" "distinct (map cl_ID cs0)" "cl_State c = ClaimStatePending"
    "fmlookup (is_claims st) (cl_ID c) = (case map_of (map (\<lambda>c. (cl_ID c, c\<lparr>cl_State := ClaimStateNone\<rparr>)) cs0) (cl_ID c) of
        Some c \<Rightarrow> Some c | None \<Rightarrow> fmlookup (is_claims (working a n)) (cl_ID c))"
    using c by (auto simp: added_def sortClaims_def list_all_iff)
  have "map_of (map (\<lambda>c. (cl_ID c, c\<lparr>cl_State := ClaimStateNone\<rparr>)) cs0) (cl_ID c) = Some (c\<lparr>cl_State := ClaimStateNone\<rparr>)"
    by (rule map_of_is_SomeI) (use s(1,2) in \<open>auto simp: comp_def\<close>)
  then have "fmlookup (is_claims st) (cl_ID c) = Some (c\<lparr>cl_State := ClaimStateNone\<rparr>)" using s(4) by simp
  moreover have "c = (c\<lparr>cl_State := ClaimStateNone\<rparr>)\<lparr>cl_State := ClaimStatePending\<rparr>" using s(3) by (cases c) simp
  ultimately show ?thesis by blast
qed

text \<open>
  C26: a claim that an admission returned keeps its listener: after any further operations of any
  callers its generation is still recorded, and until that generation is released the listener of
  the claim stays reserved for it.
\<close>

theorem admitted_until_released:
  assumes D: "distinct_reservations R" "distinct_claims R" and "reach pinit (pstep R) a"
    and q: "normalizeAdmission q = Inr n" "n \<in> R" "Port_Admit ctx q a = (Inr cs, b)" "c \<in> set cs"
    and s: "(pstep R)\<^sup>*\<^sup>* b b'"
  shows "\<exists>st g. fmlookup (ma_servers b') (serverKey (ar_ServerRef n)) = Some st \<and> claim_generation st c = Some g \<and>
    (cg_State g = ClaimStateReleased \<or>
     (\<exists>v. fmlookup (is_reservations st) (cl_ReservationID c) = Some v \<and> rv_State v = ReservationStateReserved \<and>
        reserved_listener v = listener (cl_Requirement c)))"
proof -
  have I: "auth_inv R a" using ports.reach_inv [OF assms(3)] D by simp
  obtain st where st: "admitState (working a n) n = Inr (cs, st)"
    "b = a\<lparr>ma_servers := fmupd (serverKey (ar_ServerRef n)) st (ma_servers a)\<rparr>"
    using Port_Admit_InrD [OF q(3)] q(1) by (metis sum.inject(2))
  obtain i c0 x where c: "fmlookup (is_claims st) i = Some c0" "c = c0\<lparr>cl_State := x\<rparr>"
    using admitted_stored [OF I D q(1,2) st(1) q(4)] by blast
  have "within R (OpAdmit ctx q)" using q(1,2) by (simp add: within_def)
  then have "auth_inv R b" using port_exec_inv [OF I D, of "OpAdmit ctx q"] q(3) by simp
  then have e: "auth_inv R b'" "auth_evolves b b'" using port_steps_evolve [OF s] D by simp_all
  have "fmlookup (ma_servers b) (serverKey (ar_ServerRef n)) = Some st" using st(2) by simp
  then obtain st' where st': "fmlookup (ma_servers b') (serverKey (ar_ServerRef n)) = Some st'" "server_evolves st st'"
    using e(2) unfolding auth_evolves_def by blast
  then have c': "fmlookup (is_claims st') i = Some c0" using c(1) by (simp add: server_evolves_def)
  have "claims_ok R st'" using e(1) st'(1) core_invD(3) server_invD unfolding auth_inv_def by blast
  then have "claim_generation st' c \<noteq> None" "live_claim st' c \<longrightarrow> serves st' c"
    using c' c(2) by (simp_all add: claims_ok_def claim_state_irrelevant)
  then show ?thesis using st'(1) by (auto simp: live_claim_def serves_def)
qed

section \<open>Admission can be repeated\<close>

lemma admit_all_ref: "admit_all st q rs = Inr (cs, st') \<Longrightarrow> is_ref st' = is_ref st"
proof (induction rs arbitrary: st cs)
  case (Cons r rs)
  then obtain c s1 cs1 where "admitRequirement st q r = Inr (c, s1)" "admit_all s1 q rs = Inr (cs1, st')"
    by (auto split: sum.splits)
  then show ?case using Cons.IH by (auto simp: admitRequirement_def Let_def split: sum.splits option.splits)
qed simp

lemma admitState_ref: "admitState st q = Inr (cs, st') \<Longrightarrow> is_ref st' = is_ref st"
  by (auto simp: admitState_def Let_def split: option.splits if_splits sum.splits dest!: admit_all_ref)

lemma fmupd_same: "fmlookup m k = Some v \<Longrightarrow> fmupd k v m = m"
  by (rule fmap_ext) auto

text \<open>The stored claims of a new generation are the ones returned.\<close>

lemma claims_of_added:
  assumes a: "added n rs cs m (is_claims st)" and ids: "distinct (map (claim_id n) rs)"
    and old: "\<And>k c. fmlookup m k = Some c \<Longrightarrow> claim_ref c \<noteq> request_ref n"
    and key: "\<And>k c. fmlookup (is_claims st) k = Some c \<Longrightarrow> cl_ID c = k"
  shows "claimsForGeneration st (new_generation n) = sortClaims cs"
proof -
  let ?stored = "map (\<lambda>c. c\<lparr>cl_State := ClaimStateNone\<rparr>) cs"
  let ?mine = "filter (\<lambda>c. sameGeneration c (request_ref n)) (map_values (is_claims st))"
  have A: "map cl_ID cs = map (claim_id n) rs" "list_all (\<lambda>c. cl_State c = ClaimStatePending \<and> claim_ref c = request_ref n) cs"
    "\<And>k. fmlookup (is_claims st) k = (case map_of (map (\<lambda>c. (cl_ID c, c\<lparr>cl_State := ClaimStateNone\<rparr>)) cs) k of
        Some c \<Rightarrow> Some c | None \<Rightarrow> fmlookup m k)"
    using a unfolding added_def by blast+
  have dc: "distinct (map cl_ID cs)" using A(1) ids by simp
  have same: "sameGeneration c (request_ref n) \<longleftrightarrow> claim_ref c = request_ref n" for c
    by (auto simp: sameGeneration_def claim_ref_def request_ref_def)
  have lk: "map_of (map (\<lambda>c. (cl_ID c, c\<lparr>cl_State := ClaimStateNone\<rparr>)) cs) (cl_ID c) = Some (c\<lparr>cl_State := ClaimStateNone\<rparr>)"
    if "c \<in> set cs" for c by (rule map_of_is_SomeI) (use that dc in \<open>auto simp: comp_def\<close>)
  have "set ?mine = set ?stored"
  proof (intro equalityI subsetI)
    fix c assume "c \<in> set ?mine"
    then obtain k where k: "fmlookup (is_claims st) k = Some c" "claim_ref c = request_ref n"
      by (auto simp: set_map_values same)
    then show "c \<in> set ?stored" using old [of k c] A(3) [of k] by (auto split: option.splits dest!: map_of_SomeD)
  next
    fix c assume "c \<in> set ?stored"
    then obtain c1 where c1: "c1 \<in> set cs" "c = c1\<lparr>cl_State := ClaimStateNone\<rparr>" by auto
    then have "fmlookup (is_claims st) (cl_ID c1) = Some c" using A(3) lk by simp
    moreover have "claim_ref c = request_ref n" using A(2) c1 by (auto simp: list_all_iff claim_ref_def)
    ultimately show "c \<in> set ?mine" using set_map_values [of c "is_claims st"] by (auto simp: same)
  qed
  moreover have dm: "distinct (map cl_ID ?mine)"
  proof -
    have "map cl_ID (map_values (is_claims st)) = sorted_keys (is_claims st)"
      unfolding map_values_def map_map by (rule map_idI) (auto simp: fmlookup_dom_iff key)
    then show ?thesis by (simp add: distinct_map_filter)
  qed
  moreover have "map cl_ID ?stored = map cl_ID cs" by simp
  then have "distinct ?stored" using dc by (metis distinct_map)
  ultimately have "mset ?mine = mset ?stored"
    using set_eq_iff_mset_eq_distinct distinct_map by blast
  then have "mset (map (\<lambda>c. c\<lparr>cl_State := ClaimStatePending\<rparr>) ?mine) = mset (map (\<lambda>c. c\<lparr>cl_State := ClaimStatePending\<rparr>) ?stored)"
    by (metis mset_map)
  moreover have "map (\<lambda>c. c\<lparr>cl_State := ClaimStatePending\<rparr>) ?stored = cs"
    unfolding map_map by (rule map_idI) (use A(2) in \<open>auto simp: list_all_iff\<close>)
  ultimately have m: "mset (map (\<lambda>c. c\<lparr>cl_State := ClaimStatePending\<rparr>) ?mine) = mset cs" by (simp only:)
  have "sort_key cl_ID (map (\<lambda>c. c\<lparr>cl_State := ClaimStatePending\<rparr>) ?mine) = sort_key cl_ID cs"
  proof (rule sort_key_inj_key_eq)
    show "inj_on cl_ID (set (map (\<lambda>c. c\<lparr>cl_State := ClaimStatePending\<rparr>) ?mine))"
      using dc unfolding mset_eq_setD [OF m] by (simp add: distinct_map)
  qed (use m in simp_all)
  then show ?thesis by (simp add: claimsForGeneration_def sortClaims_def new_generation_def)
qed

lemma admitState_repeat:
  assumes I: "server_inv R st" and D: "distinct_reservations R" "distinct_claims R" and n: "n \<in> R" "normalized n"
    and a: "admitState st n = Inr (cs, st')"
  shows "admitState st' n = Inr (cs, st')"
proof (cases "fmlookup (is_generations st) (claimGenerationKey (request_ref n))")
  case (Some g)
  then have "st' = st" using a by (auto simp: admitState_def Let_def split: if_splits)
  then show ?thesis using a by simp
next
  case None
  obtain cs0 where c: "server_inv R st'" "added n (ar_Requirements n) cs0 (is_claims st) (is_claims st')" "cs = sortClaims cs0"
    "is_generations st' = fmupd (claimGenerationKey (request_ref n)) (new_generation n) (is_generations st)"
    "distinct (map (claim_id n) (ar_Requirements n))"
    using admitState_inv [OF I D n a None] by metis
  have old: "claim_ref d \<noteq> request_ref n" if "fmlookup (is_claims st) k = Some d" for k d
  proof -
    have "claim_generation st d \<noteq> None" using core_invD(3) server_invD [OF I] that by (auto simp: claims_ok_def)
    then show ?thesis using None by (auto simp: claim_generation_def)
  qed
  have key: "cl_ID d = k" if "fmlookup (is_claims st') k = Some d" for k d
    using core_invD(3) server_invD [OF c(1)] that unfolding claims_ok_def by blast
  have "claimsForGeneration st' (new_generation n) = cs"
    using claims_of_added [OF c(2,5) old key] c(3) by simp
  then show ?thesis by (simp add: admitState_def c(4) new_generation_def)
qed

text \<open>
  C27: an admission can be repeated: asking again for a set of listeners that was just admitted
  returns the same claims and changes nothing, so a caller that lost the answer can retry.  A refused
  admission changes nothing either.
\<close>

theorem admission_idempotent:
  assumes D: "distinct_reservations R" "distinct_claims R" and "reach pinit (pstep R) a"
    and q: "within R (OpAdmit ctx q)" "Port_Admit ctx q a = (r, b)"
  shows "case r of Inl e \<Rightarrow> b = a | Inr cs \<Rightarrow> Port_Admit ctx q b = (Inr cs, b)"
proof (cases r)
  case (Inl e)
  then show ?thesis using q(2) by (auto simp: Port_Admit_def Let_def split: option.splits sum.splits)
next
  case (Inr cs)
  have I: "auth_inv R a" using ports.reach_inv [OF assms(3)] D by simp
  obtain n st where n: "ctx = None" "normalizeAdmission q = Inr n" "admitState (working a n) n = Inr (cs, st)"
    "b = a\<lparr>ma_servers := fmupd (serverKey (ar_ServerRef n)) st (ma_servers a)\<rparr>"
    using Port_Admit_InrD q(2) Inr by metis
  have R: "n \<in> R" using q(1) n(2) by (simp add: within_def)
  have rep: "admitState st n = Inr (cs, st)"
    by (rule admitState_repeat [OF working_inv [OF I] D R normalizeAdmission_normalized [OF n(2)] n(3)])
  have "is_ref st = ar_ServerRef n"
    using admitState_ref [OF n(3)] by (simp add: working_def cloneInventoryState_def split: option.splits)
  then have "cloneInventoryState (fmlookup (ma_servers b) (serverKey (ar_ServerRef n))) (ar_ServerRef n) = st"
    by (simp add: n(4) cloneInventoryState_def)
  then have "Port_Admit ctx q b = (Inr cs, b\<lparr>ma_servers := fmupd (serverKey (ar_ServerRef n)) st (ma_servers b)\<rparr>)"
    using n(1,2) rep by (simp add: Port_Admit_def)
  moreover have "fmupd (serverKey (ar_ServerRef n)) st (ma_servers b) = ma_servers b" by (rule fmupd_same) (simp add: n(4))
  ultimately show ?thesis using Inr by simp
qed

section \<open>Iteration order\<close>

lemma scan_conflict:
  assumes "v \<in> set vs" "reserved v" "overlaps v r" "\<not> shareable st s r v"
  shows "scan_reservations st s r vs x = Inl (ErrAllocationConflict (newConflictError r))"
  using assms by (induction vs arbitrary: x) auto

lemma scan_free:
  assumes "\<And>v. v \<in> set vs \<Longrightarrow> reserved v \<Longrightarrow> overlaps v r \<Longrightarrow> shareable st s r v"
  shows "scan_reservations st s r vs x =
    Inr (case filter (\<lambda>v. reserved v \<and> overlaps v r) vs of [] \<Rightarrow> x | ws \<Rightarrow> Some (last ws))"
  using assms
proof (induction vs arbitrary: x)
  case (Cons v vs)
  then show ?case by (auto split: list.splits)
qed simp

text \<open>
  The decision on a requirement does not depend on the order in which Go ranges over the map of
  reservations: in every reachable state any order gives the same error or the same reservation.
\<close>

theorem scan_order_irrelevant:
  assumes "distinct_reservations R" "distinct_claims R" "reach pinit (pstep R) a" "fmlookup (ma_servers a) k = Some st"
    and vs: "mset vs = mset (map_values (is_reservations st))"
  shows "scan_reservations st s r vs None = scan_reservations st s r (map_values (is_reservations st)) None"
proof (cases "\<exists>v\<in>set vs. reserved v \<and> overlaps v r \<and> \<not> shareable st s r v")
  case True
  then show ?thesis using scan_conflict mset_eq_setD [OF vs] by metis
next
  case False
  have core: "core_inv R st" using server_invD [OF reach_server_inv [OF assms(1-4)]] by blast
  note I = core_invD [OF core]
  have S: "set vs = set (map_values (is_reservations st))" by (rule mset_eq_setD [OF vs])
  let ?f = "filter (\<lambda>v. reserved v \<and> overlaps v r)"
  have one: "v = w" if m: "v \<in> set (?f vs)" "w \<in> set (?f vs)" for v w
  proof -
    obtain i j where ij: "fmlookup (is_reservations st) i = Some v" "fmlookup (is_reservations st) j = Some w"
      using m S by (auto simp: set_map_values)
    have "shareable st s r v" "shareable st s r w" using m False by auto
    then have "clash v w" using m by (auto simp: clash_def overlaps_def shareable_def)
    then show ?thesis using I(2) ij m unfolding disjoint_ok_def by force
  qed
  have last: "last xs = last ys" if "set xs = set (?f vs)" "set ys = set (?f vs)" "xs \<noteq> []" "ys \<noteq> []" for xs ys
    using one that last_in_set by metis
  have "set (?f (map_values (is_reservations st))) = set (?f vs)" using S by simp
  then have "(case ?f vs of [] \<Rightarrow> None | ws \<Rightarrow> Some (last ws)) =
      (case ?f (map_values (is_reservations st)) of [] \<Rightarrow> None | ws \<Rightarrow> Some (last ws))"
    using last [of "?f vs" "?f (map_values (is_reservations st))"]
    by (cases "?f vs"; cases "?f (map_values (is_reservations st))") auto
  moreover have "shareable st s r v" if "v \<in> set vs" "reserved v" "overlaps v r" for v using that False by blast
  ultimately show ?thesis using scan_free [of vs r st s None] scan_free [of "map_values (is_reservations st)" r st s None] S by simp
qed

section \<open>The lifecycle of a generation\<close>

text \<open>The operation refers to the generation \<open>k\<close> of the server \<open>ks\<close>.\<close>

definition refers :: "GenerationRef \<Rightarrow> string \<Rightarrow> string \<Rightarrow> bool" where
  "refers ref ks k \<longleftrightarrow>
     (case normalizeGenerationRef ref of Inl _ \<Rightarrow> False | Inr n \<Rightarrow> serverKey (gr_ServerRef n) = ks \<and> claimGenerationKey n = k)"

text \<open>The activation of another generation of the stack of \<open>g\<close> on the server \<open>ks\<close>.\<close>

definition supersedes :: "GenerationRef \<Rightarrow> string \<Rightarrow> string \<Rightarrow> ClaimGeneration \<Rightarrow> bool" where
  "supersedes ref ks k g \<longleftrightarrow>
     (case normalizeGenerationRef ref of Inl _ \<Rightarrow> False
      | Inr n \<Rightarrow> serverKey (gr_ServerRef n) = ks \<and> claimGenerationKey n \<noteq> k \<and> gr_StackID n = gr_StackID (cg_Ref g))"

text \<open>The changes of state each operation may make to a generation.\<close>

fun permitted :: "port_op \<Rightarrow> string \<Rightarrow> string \<Rightarrow> ClaimGeneration \<Rightarrow> ClaimState \<Rightarrow> bool" where
  "permitted (OpAdmit ctx q) ks k g x \<longleftrightarrow> False"
| "permitted (OpStart ctx ref) ks k g x \<longleftrightarrow>
     refers ref ks k \<and> cg_State g \<in> {ClaimStatePending, ClaimStateUncertain} \<and> x = ClaimStateMutating"
| "permitted (OpActivate ctx ref) ks k g x \<longleftrightarrow>
     (refers ref ks k \<and> cg_State g = ClaimStateMutating \<and> x = ClaimStateActive) \<or>
     (supersedes ref ks k g \<and> cg_State g \<in> {ClaimStateActive, ClaimStateUncertain} \<and> x = ClaimStateReleased)"
| "permitted (OpUncertain ctx ref) ks k g x \<longleftrightarrow>
     refers ref ks k \<and> cg_State g = ClaimStateMutating \<and> x = ClaimStateUncertain"
| "permitted (OpAbort ctx ref) ks k g x \<longleftrightarrow>
     refers ref ks k \<and> cg_State g = ClaimStatePending \<and> x = ClaimStateReleased"
| "permitted (OpRelease ctx ref) ks k g x \<longleftrightarrow>
     refers ref ks k \<and> cg_State g \<in> {ClaimStateMutating, ClaimStateActive, ClaimStateUncertain} \<and> x = ClaimStateReleased"

definition moved :: "MemoryAuthority \<Rightarrow> string \<Rightarrow> string \<Rightarrow> ClaimGeneration \<Rightarrow> (ClaimState \<Rightarrow> bool) \<Rightarrow> bool" where
  "moved b ks k g P \<longleftrightarrow>
     (\<exists>st' x. fmlookup (ma_servers b) ks = Some st' \<and> fmlookup (is_generations st') k = Some (g\<lparr>cg_State := x\<rparr>) \<and>
        (x = cg_State g \<or> P x))"

lemma on_generation_moved:
  assumes st: "fmlookup (ma_servers a) ks = Some st" "fmlookup (is_generations st) k = Some g"
    and f: "\<And>n g0 st'. normalizeGenerationRef ref = Inr n \<Longrightarrow> serverKey (gr_ServerRef n) = ks \<Longrightarrow>
      fmlookup (is_generations st) (claimGenerationKey n) = Some g0 \<Longrightarrow>
      f (claimGenerationKey n) n g0 st = Inr st' \<Longrightarrow>
      \<exists>x. fmlookup (is_generations st') k = Some (g\<lparr>cg_State := x\<rparr>) \<and> (x = cg_State g \<or> P x)"
  shows "moved (snd (on_generation ctx ref f a)) ks k g P"
proof (cases rule: on_generation_cases [of ctx ref f a])
  case (failed e)
  then show ?thesis using st by (auto simp: moved_def intro!: exI [of _ "cg_State g"])
next
  case (changed n s g0 st')
  show ?thesis
  proof (cases "serverKey (gr_ServerRef n) = ks")
    case True
    then have "s = st" using changed(3) st by simp
    then obtain x where "fmlookup (is_generations st') k = Some (g\<lparr>cg_State := x\<rparr>) \<and> (x = cg_State g \<or> P x)"
      using f [OF changed(2) True] changed(4,5) by blast
    then show ?thesis using changed(6) True by (auto simp: moved_def)
  next
    case False
    then show ?thesis using changed(6) st by (auto simp: moved_def intro!: exI [of _ "cg_State g"])
  qed
qed

lemma put_moved:
  assumes "fmlookup (is_generations st) k = Some g" "fmlookup (is_generations st) key = Some g0"
  shows "fmlookup (is_generations (put_generation key (g0\<lparr>cg_State := x\<rparr>) st)) k =
    Some (g\<lparr>cg_State := (if k = key then x else cg_State g)\<rparr>)"
  using assms by (auto simp: put_generation_def)

lemma transition_moved:
  assumes st: "fmlookup (ma_servers a) ks = Some st" "fmlookup (is_generations st) k = Some g"
    and P: "refers ref ks k \<Longrightarrow> cg_State g \<in> set allowed \<Longrightarrow> x = cg_State g \<or> P x"
  shows "moved (snd (port_transition ctx ref allowed x a)) ks k g P"
  unfolding port_transition_def
proof (rule on_generation_moved [OF st])
  fix n g0 st'
  assume n: "normalizeGenerationRef ref = Inr n" "serverKey (gr_ServerRef n) = ks"
    "fmlookup (is_generations st) (claimGenerationKey n) = Some g0"
    "(if cg_State g0 \<notin> set allowed then Inl ErrInvalidTransition
      else Inr (put_generation (claimGenerationKey n) (g0\<lparr>cg_State := x\<rparr>) st)) = Inr st'"
  then have s: "cg_State g0 \<in> set allowed" "st' = put_generation (claimGenerationKey n) (g0\<lparr>cg_State := x\<rparr>) st"
    by (auto split: if_splits)
  have "k = claimGenerationKey n \<Longrightarrow> x = cg_State g \<or> P x" using P n s st(2) by (auto simp: refers_def)
  then show "\<exists>x. fmlookup (is_generations st') k = Some (g\<lparr>cg_State := x\<rparr>) \<and> (x = cg_State g \<or> P x)"
    using put_moved [OF st(2) n(3), of x] s(2) by (intro exI [of _ "if k = claimGenerationKey n then x else cg_State g"]) auto
qed

lemma release_moved:
  assumes st: "fmlookup (ma_servers a) ks = Some st" "fmlookup (is_generations st) k = Some g"
    and P: "refers ref ks k \<Longrightarrow> cg_State g \<in> set allowed \<Longrightarrow> cg_State g \<noteq> ClaimStateReleased \<Longrightarrow> P ClaimStateReleased"
  shows "moved (snd (port_release ctx ref allowed a)) ks k g P"
  unfolding port_release_def
proof (rule on_generation_moved [OF st])
  fix n g0 st'
  assume n: "normalizeGenerationRef ref = Inr n" "serverKey (gr_ServerRef n) = ks"
    "fmlookup (is_generations st) (claimGenerationKey n) = Some g0"
    "(if cg_State g0 = ClaimStateReleased then Inr st else if cg_State g0 \<notin> set allowed then Inl ErrInvalidTransition
      else Inr (gcReservations (put_generation (claimGenerationKey n) (g0\<lparr>cg_State := ClaimStateReleased\<rparr>) st))) = Inr st'"
  then consider "st' = st" | "cg_State g0 \<noteq> ClaimStateReleased" "cg_State g0 \<in> set allowed"
      "st' = gcReservations (put_generation (claimGenerationKey n) (g0\<lparr>cg_State := ClaimStateReleased\<rparr>) st)"
    by (auto split: if_splits)
  then show "\<exists>x. fmlookup (is_generations st') k = Some (g\<lparr>cg_State := x\<rparr>) \<and> (x = cg_State g \<or> P x)"
  proof cases
    case 1
    then show ?thesis using st(2) by (intro exI [of _ "cg_State g"]) simp
  next
    case 2
    have "k = claimGenerationKey n \<Longrightarrow> P ClaimStateReleased" using P n 2 st(2) by (auto simp: refers_def)
    then show ?thesis using put_moved [OF st(2) n(3), of ClaimStateReleased] 2(3)
      by (intro exI [of _ "if k = claimGenerationKey n then ClaimStateReleased else cg_State g"]) auto
  qed
qed

lemma activate_moved:
  assumes st: "fmlookup (ma_servers a) ks = Some st" "fmlookup (is_generations st) k = Some g"
  shows "moved (snd (Activate ctx ref a)) ks k g (permitted (OpActivate ctx ref) ks k g)"
  unfolding Activate_def
proof (rule on_generation_moved [OF st])
  fix n g0 st'
  assume n: "normalizeGenerationRef ref = Inr n" "serverKey (gr_ServerRef n) = ks"
    "fmlookup (is_generations st) (claimGenerationKey n) = Some g0"
    "(if cg_State g0 \<noteq> ClaimStateMutating \<and> cg_State g0 \<noteq> ClaimStateActive then Inl ErrInvalidTransition
      else Inr (gcReservations (supersede_others (claimGenerationKey n) (gr_StackID n)
        (put_generation (claimGenerationKey n) (g0\<lparr>cg_State := ClaimStateActive\<rparr>) st)))) = Inr st'"
  then have g0: "cg_State g0 = ClaimStateMutating \<or> cg_State g0 = ClaimStateActive"
    and st': "is_generations st' = is_generations (supersede_others (claimGenerationKey n) (gr_StackID n)
        (put_generation (claimGenerationKey n) (g0\<lparr>cg_State := ClaimStateActive\<rparr>) st))"
    by (auto split: if_splits)
  show "\<exists>x. fmlookup (is_generations st') k = Some (g\<lparr>cg_State := x\<rparr>) \<and> (x = cg_State g \<or> permitted (OpActivate ctx ref) ks k g x)"
  proof (cases "k = claimGenerationKey n")
    case True
    then have "fmlookup (is_generations st') k = Some (g\<lparr>cg_State := ClaimStateActive\<rparr>)"
      using st(2) n(3) by (simp add: st' supersede_others_def put_generation_def)
    moreover have "ClaimStateActive = cg_State g \<or> permitted (OpActivate ctx ref) ks k g ClaimStateActive"
      using True g0 n st(2) by (auto simp: refers_def)
    ultimately show ?thesis by blast
  next
    case False
    define x where "x = (if gr_StackID (cg_Ref g) = gr_StackID n \<and> (cg_State g = ClaimStateActive \<or> cg_State g = ClaimStateUncertain)
      then ClaimStateReleased else cg_State g)"
    have "fmlookup (is_generations st') k = Some (g\<lparr>cg_State := x\<rparr>)"
      using False st(2) by (auto simp: st' supersede_others_def put_generation_def x_def)
    moreover have "x = cg_State g \<or> permitted (OpActivate ctx ref) ks k g x"
      using False n by (auto simp: x_def supersedes_def)
    ultimately show ?thesis by blast
  qed
qed

lemma admit_all_generations: "admit_all st q rs = Inr (cs, st') \<Longrightarrow> is_generations st' = is_generations st"
proof (induction rs arbitrary: st cs)
  case (Cons r rs)
  then obtain c s1 cs1 where "admitRequirement st q r = Inr (c, s1)" "admit_all s1 q rs = Inr (cs1, st')"
    by (auto split: sum.splits)
  then show ?case using Cons.IH by (auto simp: admitRequirement_def Let_def split: sum.splits option.splits)
qed simp

lemma admitState_keeps:
  assumes "admitState st n = Inr (cs, st')" "fmlookup (is_generations st) k = Some g"
  shows "fmlookup (is_generations st') k = Some g"
  using assms
  by (auto simp: admitState_def Let_def split: option.splits if_splits sum.splits dest!: admit_all_generations)

text \<open>
  C28: a claim generation follows its lifecycle. Whatever operation runs, a recorded generation stays
  recorded with its reference and digest, and its state changes only as the operation permits: an
  uncertain generation is released only by the teardown of exactly this generation or by the
  activation of another generation of its stack, a pending one only by an abort, and a released one
  stays released.
\<close>

theorem generation_lifecycle:
  assumes "fmlookup (ma_servers a) ks = Some st" "fmlookup (is_generations st) k = Some g"
  shows "\<exists>st' x. fmlookup (ma_servers (port_exec op a)) ks = Some st' \<and>
    fmlookup (is_generations st') k = Some (g\<lparr>cg_State := x\<rparr>) \<and> (x = cg_State g \<or> permitted op ks k g x)"
proof -
  have "moved (port_exec op a) ks k g (permitted op ks k g)"
  proof (cases op)
    case (OpAdmit ctx q)
    show ?thesis
    proof (cases "fst (Port_Admit ctx q a)")
      case (Inl e)
      then have "snd (Port_Admit ctx q a) = a" by (auto simp: Port_Admit_def Let_def split: option.splits sum.splits)
      then show ?thesis using OpAdmit assms by (auto simp: moved_def intro!: exI [of _ "cg_State g"])
    next
      case (Inr cs)
      then obtain n st1 where n: "admitState (working a n) n = Inr (cs, st1)"
        "snd (Port_Admit ctx q a) = a\<lparr>ma_servers := fmupd (serverKey (ar_ServerRef n)) st1 (ma_servers a)\<rparr>"
        using Port_Admit_InrD [of ctx q a cs "snd (Port_Admit ctx q a)"] by (metis prod.collapse)
      have "fmlookup (is_generations st1) k = Some g" if "serverKey (ar_ServerRef n) = ks"
        using admitState_keeps [OF n(1)] that assms by (simp add: working_def cloneInventoryState_def)
      then show ?thesis using n(2) OpAdmit assms by (auto simp: moved_def intro!: exI [of _ "cg_State g"])
    qed
  next
    case (OpStart ctx ref)
    show ?thesis unfolding OpStart port_exec.simps MarkMutationStarted_def
      by (rule transition_moved [OF assms]) auto
  next
    case (OpActivate ctx ref)
    show ?thesis unfolding OpActivate port_exec.simps by (rule activate_moved [OF assms])
  next
    case (OpUncertain ctx ref)
    show ?thesis unfolding OpUncertain port_exec.simps MarkUncertain_def
      by (rule transition_moved [OF assms]) auto
  next
    case (OpAbort ctx ref)
    show ?thesis unfolding OpAbort port_exec.simps AbortBeforeMutation_def
      by (rule release_moved [OF assms]) auto
  next
    case (OpRelease ctx ref)
    show ?thesis unfolding OpRelease port_exec.simps ReleaseAfterTeardown_def
      by (rule release_moved [OF assms]) auto
  qed
  then show ?thesis by (simp add: moved_def)
qed

section \<open>Witnesses\<close>

text \<open>A stack that shares the TLS listener of a server.\<close>

definition demo_requirement :: Requirement where
  "demo_requirement = \<lparr>rq_ID = ''web'', rq_NodeRef = [], rq_Transport = TransportTCP, rq_BindAddress = ''*'', rq_Port = 443,
     rq_Sharing = SharingVirtualHost, rq_ListenerGroupRef = ''edge'', rq_Exposure = ExposurePublic, rq_SourceRouteRefs = []\<rparr>"

definition demo_request :: AdmissionRequest where
  "demo_request = \<lparr>ar_ServerRef = \<lparr>sr_TenantID = ''t'', sr_ServerID = ''s'', sr_ServerGeneration = 1\<rparr>, ar_StackID = ''a'',
     ar_ResolvedPlanHash = ''p'', ar_Requirements = [demo_requirement]\<rparr>"

definition demo_claim :: Claim where
  "demo_claim = new_claim demo_request demo_requirement (reservation_id (ar_ServerRef demo_request) demo_requirement)"

definition demo_server :: inventoryState where
  "demo_server = \<lparr>is_ref = ar_ServerRef demo_request,
     is_reservations = fmupd (reservation_id (ar_ServerRef demo_request) demo_requirement) (new_reservation demo_request demo_requirement) fmempty,
     is_generations = fmupd (claimGenerationKey (request_ref demo_request)) (new_generation demo_request) fmempty,
     is_claims = fmupd (claim_id demo_request demo_requirement) demo_claim fmempty\<rparr>"

definition demo_authority :: MemoryAuthority where
  "demo_authority = \<lparr>ma_servers = fmupd (serverKey (ar_ServerRef demo_request)) demo_server fmempty\<rparr>"

lemma demo_normal: "normalizeAdmission demo_request = Inr demo_request"
  by code_simp

lemma demo_distinct: "distinct_reservations {demo_request}" "distinct_claims {demo_request}"
  by (auto simp: distinct_reservations_def distinct_claims_def required_def demo_request_def)

lemma demo_admit:
  "Port_Admit None demo_request NewMemoryAuthority = (Inr [demo_claim\<lparr>cl_State := ClaimStatePending\<rparr>], demo_authority)"
  by (simp add: Port_Admit_def demo_normal NewMemoryAuthority_def cloneInventoryState_def admitState_def admitRequirement_def
      demo_authority_def demo_server_def demo_claim_def sortClaims_def add_claim_def
      add_reservation_def Let_def demo_request_def [THEN arg_cong, of ar_Requirements, simplified])

lemma demo_within: "within {demo_request} (OpAdmit None demo_request)"
  by (simp add: within_def demo_normal)

lemma new_reach: "reach pinit (pstep R) NewMemoryAuthority"
  by (rule reach_init) (simp add: pinit_def)

lemma demo_authority_reach: "reach pinit (pstep {demo_request}) demo_authority"
proof (rule reach_step [OF new_reach])
  show "pstep {demo_request} NewMemoryAuthority demo_authority"
    unfolding pstep_def using demo_within demo_admit by (intro exI [of _ "OpAdmit None demo_request"]) simp
qed

lemma demo_live:
  "fmlookup (ma_servers demo_authority) (serverKey (ar_ServerRef demo_request)) = Some demo_server"
  "fmlookup (is_claims demo_server) (claim_id demo_request demo_requirement) = Some demo_claim"
  "live_claim demo_server demo_claim"
  by (simp_all add: demo_authority_def demo_server_def live_claim_def claim_generation_def demo_claim_def new_generation_def)

theorem listeners_never_clash_witness:
  "live_claim demo_server demo_claim \<and> listener (cl_Requirement demo_claim) = (''tcp'', ''*'', 443, ''virtual-host'', ''edge'') \<and>
   (cl_StackID demo_claim = cl_StackID demo_claim \<or> rq_Sharing (cl_Requirement demo_claim) = SharingVirtualHost)"
proof -
  have "listener (cl_Requirement demo_claim) = (''tcp'', ''*'', 443, ''virtual-host'', ''edge'')"
    by (simp add: listener_def demo_claim_def demo_requirement_def port_consts)
  with listeners_never_clash [OF demo_distinct demo_authority_reach demo_live demo_live(2,3) refl refl addressesOverlap_refl] demo_live(3)
  show ?thesis by blast
qed

theorem admitted_until_released_witness:
  "\<exists>st g. fmlookup (ma_servers (port_exec (OpStart None (request_ref demo_request)) demo_authority))
      (serverKey (ar_ServerRef demo_request)) = Some st \<and> claim_generation st (demo_claim\<lparr>cl_State := ClaimStatePending\<rparr>) = Some g \<and>
    (cg_State g = ClaimStateReleased \<or>
     (\<exists>v. fmlookup (is_reservations st) (cl_ReservationID (demo_claim\<lparr>cl_State := ClaimStatePending\<rparr>)) = Some v \<and>
        rv_State v = ReservationStateReserved \<and>
        reserved_listener v = listener (cl_Requirement (demo_claim\<lparr>cl_State := ClaimStatePending\<rparr>))))"
proof -
  have "pstep {demo_request} demo_authority (port_exec (OpStart None (request_ref demo_request)) demo_authority)"
    unfolding pstep_def by (intro exI [of _ "OpStart None (request_ref demo_request)"]) (simp add: within_def)
  then have s: "(pstep {demo_request})\<^sup>*\<^sup>* demo_authority (port_exec (OpStart None (request_ref demo_request)) demo_authority)" by blast
  show ?thesis by (rule admitted_until_released [OF demo_distinct new_reach demo_normal _ demo_admit _ s]) simp_all
qed

theorem admission_idempotent_witness:
  "Port_Admit None demo_request demo_authority = (Inr [demo_claim\<lparr>cl_State := ClaimStatePending\<rparr>], demo_authority)"
  using admission_idempotent [OF demo_distinct new_reach demo_within demo_admit] by simp

theorem generation_lifecycle_witness:
  "\<exists>st' x. fmlookup (ma_servers (port_exec (OpAbort None (request_ref demo_request)) demo_authority))
      (serverKey (ar_ServerRef demo_request)) = Some st' \<and>
    fmlookup (is_generations st') (claimGenerationKey (request_ref demo_request)) = Some ((new_generation demo_request)\<lparr>cg_State := x\<rparr>)"
proof -
  have "fmlookup (is_generations demo_server) (claimGenerationKey (request_ref demo_request)) = Some (new_generation demo_request)"
    by (simp add: demo_server_def)
  from generation_lifecycle [OF demo_live(1) this, of "OpAbort None (request_ref demo_request)"] show ?thesis by blast
qed

end
