(* ===== verification/Port_Listeners.thy ===== *)
theory Port_Listeners
  imports Port_Inventory
begin

text \<open>
  Listener addresses: the normal form of a bind address is canonical, but not every spelling of the
  unspecified address becomes the wildcard, so that the overlap check misses some conflicts.
\<close>

section \<open>The normal form of an address\<close>













section \<open>Spellings of the wildcard\<close>

text \<open>A request of one stack for one exclusive listener on TCP port 443.\<close>

definition listener_request :: "string \<Rightarrow> string \<Rightarrow> AdmissionRequest" where
  "listener_request stack address =
     \<lparr>ar_ServerRef = \<lparr>sr_TenantID = ''t'', sr_ServerID = ''s'', sr_ServerGeneration = 1\<rparr>, ar_StackID = stack,
      ar_ResolvedPlanHash = ''h'',
      ar_Requirements = [\<lparr>rq_ID = ''web'', rq_NodeRef = [], rq_Transport = TransportTCP, rq_BindAddress = address, rq_Port = 443,
        rq_Sharing = SharingExclusive, rq_ListenerGroupRef = [], rq_Exposure = ExposurePublic, rq_SourceRouteRefs = []\<rparr>]\<rparr>"

text \<open>The server after a first admission of one requirement.\<close>

definition sole_state :: "AdmissionRequest \<Rightarrow> Requirement \<Rightarrow> inventoryState" where
  "sole_state n r =
     \<lparr>is_ref = ar_ServerRef n, is_reservations = fmupd (reservation_id (ar_ServerRef n) r) (new_reservation n r) fmempty,
      is_generations = fmupd (claimGenerationKey (request_ref n)) (new_generation n) fmempty,
      is_claims = fmupd (claim_id n r) (new_claim n r (reservation_id (ar_ServerRef n) r)) fmempty\<rparr>"

lemma new_ids: "rv_ID (new_reservation n r) = reservation_id (ar_ServerRef n) r" "rv_State (new_reservation n r) = ReservationStateReserved"
  "cl_ID (new_claim n r x) = claim_id n r" "cl_ReservationID (new_claim n r x) = x" "cl_StackID (new_claim n r x) = ar_StackID n"
  "claim_ref (new_claim n r x) = request_ref n"
  by (simp_all add: new_reservation_def new_claim_def claim_ref_def request_ref_def)

lemma admit_first:
  assumes "normalizeAdmission q = Inr n" "ar_Requirements n = [r]"
  shows "snd (Port_Admit None q NewMemoryAuthority) = \<lparr>ma_servers = fmupd (serverKey (ar_ServerRef n)) (sole_state n r) fmempty\<rparr>"
  using assms
  by (simp add: Port_Admit_def NewMemoryAuthority_def cloneInventoryState_def admitState_def admitRequirement_def
    new_ids add_claim_def add_reservation_def Let_def sole_state_def)

lemma admit_after:
  assumes q: "normalizeAdmission q = Inr n" "ar_Requirements n = [r]" and q': "normalizeAdmission q' = Inr n'" "ar_Requirements n' = [r']"
    and s: "ar_ServerRef n' = ar_ServerRef n" "claimGenerationKey (request_ref n') \<noteq> claimGenerationKey (request_ref n)"
      "ar_StackID n' \<noteq> ar_StackID n" "rq_Sharing r' = SharingExclusive"
  shows "isl (fst (Port_Admit None q' (snd (Port_Admit None q NewMemoryAuthority)))) \<longleftrightarrow> overlaps (new_reservation n r) r'"
proof -
  let ?st = "(sole_state n r)\<lparr>is_generations := fmupd (claimGenerationKey (request_ref n')) (new_generation n') (is_generations (sole_state n r))\<rparr>"
  have "\<not> exclusiveReservationReusable ?st (reservation_id (ar_ServerRef n) r) (ar_StackID n')"
    using s(2,3) by (simp add: exclusiveReservationReusable_def sole_state_def new_ids claim_generation_def new_generation_def)
  then have "\<not> shareable ?st (ar_StackID n') r' (new_reservation n r)"
    using s(4) by (simp add: shareable_def new_ids SharingExclusive_def SharingVirtualHost_def)
  then have "isl (admit_all ?st n' [r']) \<longleftrightarrow> overlaps (new_reservation n r) r'"
    by (simp add: admitRequirement_def sole_state_def new_ids Let_def)
  then show ?thesis
    using q' s(1,2) unfolding admit_first [OF q]
    by (auto simp: Port_Admit_def cloneInventoryState_def admitState_def sole_state_def Let_def split: sum.splits)
qed

lemma listener_request_normal:
  assumes "normalizeBindAddress address = Inr b" "TrimSpace stack = stack" "stack \<noteq> []"
  shows "normalizeAdmission (listener_request stack address) = Inr (listener_request stack b)"
proof -
  have c: "TrimSpace ''t'' = ''t''" "TrimSpace ''s'' = ''s''" "TrimSpace ''h'' = ''h''" "TrimSpace ''web'' = ''web''" "TrimSpace [] = []"
    "ToLower (TrimSpace TransportTCP) = TransportTCP" "ToLower (TrimSpace SharingExclusive) = SharingExclusive"
    "ToLower (TrimSpace ExposurePublic) = ExposurePublic" "normalizeRefs [] = []" "SharingExclusive \<noteq> SharingVirtualHost"
    by code_simp+
  show ?thesis
    by (simp add: normalizeAdmission_def listener_request_def NormalizeRequirement_def normalizeServerRef_def ref_valid_def assms c Let_def)
qed

text \<open>
  C39: the overlap check depends on how the wildcard is spelled: after a stack has been admitted on
  the address \<^verbatim>\<open>::\<close> an exclusive listener of another stack on \<^verbatim>\<open>10.0.0.1\<close> and the same port is refused,
  but after the same stack has been admitted on \<^verbatim>\<open>0::0\<close>, which is the same address, it is admitted.
\<close>

theorem wildcard_spelling_decides:
  "ParseAddr ''0::0'' = ParseAddr ''::'' \<and>
   isl (fst (Port_Admit None (listener_request ''b'' ''10.0.0.1'')
     (snd (Port_Admit None (listener_request ''a'' ''::'') NewMemoryAuthority)))) \<and>
   \<not> isl (fst (Port_Admit None (listener_request ''b'' ''10.0.0.1'')
     (snd (Port_Admit None (listener_request ''a'' ''0::0'') NewMemoryAuthority))))"
proof -
  have p: "ParseAddr ''0::0'' = ParseAddr ''::''" by code_simp
  have n: "normalizeBindAddress ''::'' = Inr ''*''" "normalizeBindAddress ''0::0'' = Inr ''::''"
    "normalizeBindAddress ''10.0.0.1'' = Inr ''10.0.0.1''" "TrimSpace ''a'' = ''a''" "TrimSpace ''b'' = ''b''"
    by code_simp+
  have k: "claimGenerationKey (request_ref (listener_request ''b'' y)) \<noteq> claimGenerationKey (request_ref (listener_request ''a'' x))" for x y
    by (simp add: claimGenerationKey_def request_ref_def listener_request_def serverKey_def Join_Cons)
  have "isl (fst (Port_Admit None (listener_request ''b'' ''10.0.0.1'')
      (snd (Port_Admit None (listener_request ''a'' x) NewMemoryAuthority)))) \<longleftrightarrow> addressesOverlap y ''10.0.0.1''"
    if "normalizeBindAddress x = Inr y" for x y
    using admit_after [OF listener_request_normal [OF that n(4)] _ listener_request_normal [OF n(3,5)] _ _ k]
    by (simp add: listener_request_def overlaps_def new_reservation_def)
  with n(1,2) p show ?thesis by (simp add: addressesOverlap_def)
qed

end
