(* ===== verification/Port_Teardown.thy ===== *)
theory Port_Teardown
  imports Port_Types
begin

text \<open>
  Teardown snapshots (\<^verbatim>\<open>src/internal/portinventory/teardown.go\<close>): the release batch that is sealed
  before a destroy job runs and validated before its claims are released.  A nil slice of
  generations is \<^term>\<open>None\<close>.
\<close>

section \<open>Data\<close>

record TeardownSnapshotRequest =
  tq_TenantID :: string
  tq_OwnerSubjectID :: string
  tq_TechstackID :: string

record TeardownGeneration =
  tg_Ref :: GenerationRef
  tg_ClaimSetDigest :: string
  tg_NodeRefs :: "string list"

record TeardownSnapshot =
  ts_APIVersion :: string
  ts_TenantID :: string
  ts_OwnerSubjectID :: string
  ts_TechstackID :: string
  ts_Generations :: "TeardownGeneration list option"
  ts_SnapshotDigest :: string

section \<open>Normalization\<close>

definition normalizeTeardownRequest :: "TeardownSnapshotRequest \<Rightarrow> port_error + TeardownSnapshotRequest" where
  "normalizeTeardownRequest q0 =
     (let q = \<lparr>tq_TenantID = TrimSpace (tq_TenantID q0), tq_OwnerSubjectID = TrimSpace (tq_OwnerSubjectID q0),
           tq_TechstackID = TrimSpace (tq_TechstackID q0)\<rparr>
      in if tq_TenantID q = [] \<or> tq_OwnerSubjectID q = [] \<or> tq_TechstackID q = [] then Inl ErrInvalidRequest else Inr q)"

definition validSHA256Digest :: "string \<Rightarrow> bool" where
  "validSHA256Digest v \<longleftrightarrow>
     HasPrefix v ''sha256:'' \<and> length v = 7 + 64 \<and>
     (let payload = drop 7 v in payload = ToLower payload \<and> list_all (\<lambda>c. hexval c \<noteq> None) payload)"

definition teardownGenerationKey :: "TeardownGeneration \<Rightarrow> string" where
  "teardownGenerationKey g =
     (let r = tg_Ref g; s = gr_ServerRef r
      in Join [CHR 0x00] [sr_TenantID s, sr_ServerID s, Itoa (sr_ServerGeneration s), gr_StackID r, gr_ResolvedPlanHash r])"

fun repeats :: "string list \<Rightarrow> bool" where
  "repeats (a # b # xs) = (b = a \<or> repeats (b # xs))"
| "repeats _ = False"

definition normalize_nodes :: "string list \<Rightarrow> string list option" where
  "normalize_nodes ns =
     (let trimmed = map TrimSpace ns; sorted_nodes = sort trimmed
      in if [] \<in> set trimmed \<or> repeats sorted_nodes then None else Some sorted_nodes)"

definition normalize_generation :: "string \<Rightarrow> string \<Rightarrow> TeardownGeneration \<Rightarrow> TeardownGeneration option" where
  "normalize_generation tenant techstack g =
     (case normalizeGenerationRef (tg_Ref g) of
        Inl _ \<Rightarrow> None
      | Inr ref \<Rightarrow>
          if sr_TenantID (gr_ServerRef ref) \<noteq> tenant \<or> gr_StackID ref \<noteq> techstack \<or>
            \<not> validSHA256Digest (tg_ClaimSetDigest g) \<or> tg_NodeRefs g = [] then None
          else map_option (\<lambda>ns. g\<lparr>tg_Ref := ref, tg_NodeRefs := ns\<rparr>) (normalize_nodes (tg_NodeRefs g)))"

fun normalize_generations ::
  "string \<Rightarrow> string \<Rightarrow> string list \<Rightarrow> TeardownGeneration list \<Rightarrow> TeardownGeneration list option" where
  "normalize_generations tenant techstack seen [] = Some []"
| "normalize_generations tenant techstack seen (g0 # gs) =
     (case normalize_generation tenant techstack g0 of
        None \<Rightarrow> None
      | Some g \<Rightarrow>
          let key = claimGenerationKey (tg_Ref g) in
          if key \<in> set seen then None
          else map_option (Cons g) (normalize_generations tenant techstack (key # seen) gs))"

definition normalizeTeardownGenerations :: "TeardownSnapshot \<Rightarrow> port_error + TeardownSnapshot" where
  "normalizeTeardownGenerations s =
     (case ts_Generations s of
        None \<Rightarrow> Inr s
      | Some gs0 \<Rightarrow>
          (case normalize_generations (ts_TenantID s) (ts_TechstackID s) [] gs0 of
             None \<Rightarrow> Inl ErrTeardownSnapshotMismatch
           | Some gs \<Rightarrow> Inr (s\<lparr>ts_Generations := Some (sort_key teardownGenerationKey gs)\<rparr>)))"

section \<open>Sealing and validation\<close>

definition generation_json :: "TeardownGeneration \<Rightarrow> json" where
  "generation_json g =
     (let r = tg_Ref g; s = gr_ServerRef r
      in JObj [(''tenant_id'', JStr (sr_TenantID s)), (''server_id'', JStr (sr_ServerID s)),
        (''server_generation'', JNum (Itoa (sr_ServerGeneration s))), (''stack_id'', JStr (gr_StackID r)),
        (''resolved_plan_hash'', JStr (gr_ResolvedPlanHash r)), (''claim_set_digest'', JStr (tg_ClaimSetDigest g)),
        (''node_refs'', if tg_NodeRefs g = [] then JNull else JArr (map JStr (tg_NodeRefs g)))])"

definition snapshot_json :: "TeardownSnapshot \<Rightarrow> json" where
  "snapshot_json s =
     JObj [(''api_version'', JStr (ts_APIVersion s)), (''tenant_id'', JStr (ts_TenantID s)),
       (''owner_subject_id'', JStr (ts_OwnerSubjectID s)), (''techstack_id'', JStr (ts_TechstackID s)),
       (''generations'', case ts_Generations s of None \<Rightarrow> JNull | Some gs \<Rightarrow> JArr (map generation_json gs)),
       (''snapshot_digest'', JStr (ts_SnapshotDigest s))]"

definition teardownSnapshotDigest :: "TeardownSnapshot \<Rightarrow> string" where
  "teardownSnapshotDigest s = ''sha256:'' @ hex_sum (print_json (snapshot_json (s\<lparr>ts_SnapshotDigest := []\<rparr>)))"

text \<open>Appending no element to a nil slice leaves it nil.\<close>

definition cloneTeardownGenerations :: "TeardownGeneration list option \<Rightarrow> TeardownGeneration list option" where
  "cloneTeardownGenerations gs = (case gs of Some (g # rest) \<Rightarrow> Some (g # rest) | _ \<Rightarrow> None)"

definition sealTeardownSnapshot ::
  "TeardownSnapshotRequest \<Rightarrow> TeardownGeneration list option \<Rightarrow> port_error + TeardownSnapshot" where
  "sealTeardownSnapshot request0 generations =
     (case normalizeTeardownRequest request0 of
        Inl e \<Rightarrow> Inl e
      | Inr request \<Rightarrow>
          let snapshot0 = \<lparr>ts_APIVersion = TeardownSnapshotAPIVersion, ts_TenantID = tq_TenantID request,
                ts_OwnerSubjectID = tq_OwnerSubjectID request, ts_TechstackID = tq_TechstackID request,
                ts_Generations = cloneTeardownGenerations generations, ts_SnapshotDigest = []\<rparr>;
              snapshot1 = (if ts_Generations snapshot0 = None then snapshot0\<lparr>ts_Generations := Some []\<rparr> else snapshot0)
          in case normalizeTeardownGenerations snapshot1 of
              Inl e \<Rightarrow> Inl e
            | Inr snapshot \<Rightarrow> Inr (snapshot\<lparr>ts_SnapshotDigest := teardownSnapshotDigest snapshot\<rparr>))"

text \<open>A loop over a nil slice is one over no elements.\<close>

definition gen_list :: "'a list option \<Rightarrow> 'a list" where
  "gen_list xs = (case xs of None \<Rightarrow> [] | Some ys \<Rightarrow> ys)"

definition equalTeardownGenerations :: "TeardownGeneration list option \<Rightarrow> TeardownGeneration list option \<Rightarrow> bool" where
  "equalTeardownGenerations left right \<longleftrightarrow>
     list_all2 (\<lambda>a b. tg_Ref a = tg_Ref b \<and> tg_ClaimSetDigest a = tg_ClaimSetDigest b \<and> tg_NodeRefs a = tg_NodeRefs b)
       (gen_list left) (gen_list right)"

definition ValidateTeardownSnapshot :: "TeardownSnapshot \<Rightarrow> port_error option" where
  "ValidateTeardownSnapshot s =
     (if ts_APIVersion s \<noteq> TeardownSnapshotAPIVersion \<or> ts_Generations s = None then Some ErrTeardownSnapshotMismatch
      else case normalizeTeardownRequest \<lparr>tq_TenantID = ts_TenantID s, tq_OwnerSubjectID = ts_OwnerSubjectID s,
            tq_TechstackID = ts_TechstackID s\<rparr> of
          Inl _ \<Rightarrow> Some ErrTeardownSnapshotMismatch
        | Inr request \<Rightarrow>
            if tq_TenantID request \<noteq> ts_TenantID s \<or> tq_OwnerSubjectID request \<noteq> ts_OwnerSubjectID s \<or>
              tq_TechstackID request \<noteq> ts_TechstackID s then Some ErrTeardownSnapshotMismatch
            else case normalizeTeardownGenerations (s\<lparr>ts_Generations := cloneTeardownGenerations (ts_Generations s)\<rparr>) of
                Inl _ \<Rightarrow> Some ErrTeardownSnapshotMismatch
              | Inr normalized \<Rightarrow>
                  if \<not> equalTeardownGenerations (ts_Generations normalized) (ts_Generations s) then Some ErrTeardownSnapshotMismatch
                  else if teardownSnapshotDigest s \<noteq> ts_SnapshotDigest s then Some ErrTeardownSnapshotMismatch
                  else None)"

section \<open>Properties\<close>

lemma sort_key_idem: "sort_key f (sort_key f xs) = sort_key f xs"
  by (rule properties_for_sort_key) simp_all

lemma repeats_iff: "sorted xs \<Longrightarrow> repeats xs \<longleftrightarrow> \<not> distinct xs"
  by (induction xs rule: repeats.induct) (auto simp: order_antisym)

lemma normalize_nodes_eq:
  "normalize_nodes ns =
     (if [] \<in> set (map TrimSpace ns) \<or> \<not> distinct (map TrimSpace ns) then None else Some (sort (map TrimSpace ns)))"
  by (simp add: normalize_nodes_def Let_def repeats_iff)

lemma normalize_nodes_idem:
  assumes "normalize_nodes ns = Some ms"
  shows "normalize_nodes ms = Some ms"
proof -
  have ms: "ms = sort (map TrimSpace ns)" "[] \<notin> set ms" "distinct ms"
    using assms by (auto simp: normalize_nodes_eq split: if_splits)
  then have "map TrimSpace ms = ms" by (intro map_idI) auto
  then show ?thesis using ms sort_key_idem by (simp add: normalize_nodes_eq)
qed

lemma normalizeGenerationRef_idem: "normalizeGenerationRef r = Inr r' \<Longrightarrow> normalizeGenerationRef r' = Inr r'"
  by (auto simp: normalizeGenerationRef_def normalizeServerRef_def Let_def split: if_splits)

lemma normalize_nodes_ne: "normalize_nodes ns = Some ms \<Longrightarrow> ns \<noteq> [] \<Longrightarrow> ms \<noteq> []"
  by (cases ns) (auto simp: normalize_nodes_eq split: if_splits)

lemma normalize_generation_idem:
  assumes "normalize_generation t k g = Some h"
  shows "normalize_generation t k h = Some h"
proof -
  obtain r where r: "normalizeGenerationRef (tg_Ref g) = Inr r"
    using assms by (cases "normalizeGenerationRef (tg_Ref g)") (simp_all add: normalize_generation_def)
  then have c: "sr_TenantID (gr_ServerRef r) = t" "gr_StackID r = k" "validSHA256Digest (tg_ClaimSetDigest g)" "tg_NodeRefs g \<noteq> []"
    and m: "map_option (\<lambda>ns. g\<lparr>tg_Ref := r, tg_NodeRefs := ns\<rparr>) (normalize_nodes (tg_NodeRefs g)) = Some h"
    using assms unfolding normalize_generation_def by (simp_all split: if_splits)
  obtain ns where ns: "normalize_nodes (tg_NodeRefs g) = Some ns" "h = g\<lparr>tg_Ref := r, tg_NodeRefs := ns\<rparr>"
    using m by (cases "normalize_nodes (tg_NodeRefs g)") simp_all
  then show ?thesis
    using c normalizeGenerationRef_idem [OF r] normalize_nodes_idem [OF ns(1)] normalize_nodes_ne [OF ns(1) c(4)]
    by (simp add: normalize_generation_def)
qed

text \<open>Both keys of a generation are the same text.\<close>

lemma key_eq: "claimGenerationKey (tg_Ref g) = teardownGenerationKey g"
  by (simp add: claimGenerationKey_def serverKey_def teardownGenerationKey_def Let_def Join_Cons)

lemma normalize_generations_eq:
  "normalize_generations t k seen gs =
     (let os = map (normalize_generation t k) gs; hs = map the os
      in if None \<in> set os \<or> \<not> distinct (map teardownGenerationKey hs) \<or> set (map teardownGenerationKey hs) \<inter> set seen \<noteq> {}
         then None else Some hs)"
proof (induction gs arbitrary: seen)
  case (Cons g gs)
  show ?case by (cases "normalize_generation t k g") (auto simp: Cons.IH key_eq Let_def)
qed simp

lemma normalize_generations_fixed:
  assumes "normalize_generations t k [] gs = Some hs"
  shows "normalize_generations t k [] (sort_key teardownGenerationKey hs) = Some (sort_key teardownGenerationKey hs)"
proof -
  have hs: "hs = map (the \<circ> normalize_generation t k) gs" "None \<notin> set (map (normalize_generation t k) gs)"
    "distinct (map teardownGenerationKey hs)"
    using assms by (auto simp: normalize_generations_eq Let_def comp_assoc split: if_splits)
  have "normalize_generation t k h = Some h" if "h \<in> set hs" for h
  proof -
    have "h \<in> (\<lambda>g. the (normalize_generation t k g)) ` set gs" using that hs(1) by (simp add: comp_def)
    then obtain g where g: "g \<in> set gs" "h = the (normalize_generation t k g)" by blast
    then have "normalize_generation t k g \<noteq> None" using hs(2) by (metis image_eqI set_map)
    then show ?thesis using g(2) normalize_generation_idem by auto
  qed
  then have m: "map (normalize_generation t k) (sort_key teardownGenerationKey hs) = map Some (sort_key teardownGenerationKey hs)"
    by simp
  have "distinct (map teardownGenerationKey (sort_key teardownGenerationKey hs))"
    using hs(3) by (metis mset_eq_imp_distinct_iff mset_map mset_sort)
  then show ?thesis unfolding normalize_generations_eq m by (auto simp: Let_def comp_def)
qed

definition sealed :: "TeardownSnapshotRequest \<Rightarrow> TeardownGeneration list \<Rightarrow> TeardownSnapshot" where
  "sealed r hs =
     (let s = \<lparr>ts_APIVersion = TeardownSnapshotAPIVersion, ts_TenantID = tq_TenantID r, ts_OwnerSubjectID = tq_OwnerSubjectID r,
           ts_TechstackID = tq_TechstackID r, ts_Generations = Some hs, ts_SnapshotDigest = []\<rparr>
      in s\<lparr>ts_SnapshotDigest := teardownSnapshotDigest s\<rparr>)"

lemma seal_eq:
  "sealTeardownSnapshot q gs =
     (case normalizeTeardownRequest q of
        Inl e \<Rightarrow> Inl e
      | Inr r \<Rightarrow>
          (case normalize_generations (tq_TenantID r) (tq_TechstackID r) [] (gen_list gs) of
             None \<Rightarrow> Inl ErrTeardownSnapshotMismatch
           | Some hs \<Rightarrow> Inr (sealed r (sort_key teardownGenerationKey hs))))"
proof -
  have "(case cloneTeardownGenerations gs of None \<Rightarrow> Some [] | Some x \<Rightarrow> Some x) = Some (gen_list gs)"
    by (auto simp: cloneTeardownGenerations_def gen_list_def split: option.split list.split)
  then show ?thesis
    by (cases "normalizeTeardownRequest q"; cases "cloneTeardownGenerations gs")
      (simp_all add: sealTeardownSnapshot_def normalizeTeardownGenerations_def sealed_def Let_def split: option.split)
qed

definition request_of :: "TeardownSnapshot \<Rightarrow> TeardownSnapshotRequest" where
  "request_of s = \<lparr>tq_TenantID = ts_TenantID s, tq_OwnerSubjectID = ts_OwnerSubjectID s, tq_TechstackID = ts_TechstackID s\<rparr>"

lemma equal_generations: "equalTeardownGenerations x y \<longleftrightarrow> gen_list x = gen_list y"
proof -
  have "(\<lambda>a b. tg_Ref a = tg_Ref b \<and> tg_ClaimSetDigest a = tg_ClaimSetDigest b \<and> tg_NodeRefs a = tg_NodeRefs b) = ((=) :: TeardownGeneration \<Rightarrow> _)"
    by (intro ext) auto
  then show ?thesis by (simp add: equalTeardownGenerations_def list.rel_eq)
qed

lemma sealed_request: "sealed (request_of s) hs = s \<longleftrightarrow>
    ts_APIVersion s = TeardownSnapshotAPIVersion \<and> ts_Generations s = Some hs \<and> teardownSnapshotDigest s = ts_SnapshotDigest s"
  by (cases s) (auto simp: sealed_def request_of_def teardownSnapshotDigest_def Let_def)

lemma validate_iff:
  "ValidateTeardownSnapshot s = None \<longleftrightarrow>
     (\<exists>hs hs'. normalizeTeardownRequest (request_of s) = Inr (request_of s) \<and> sealed (request_of s) hs = s \<and>
        normalize_generations (ts_TenantID s) (ts_TechstackID s) [] hs = Some hs' \<and> sort_key teardownGenerationKey hs' = hs)"
proof (cases "ts_APIVersion s = TeardownSnapshotAPIVersion \<and> normalizeTeardownRequest (request_of s) = Inr (request_of s)")
  case True
  have n: "normalizeTeardownGenerations (s\<lparr>ts_Generations := cloneTeardownGenerations (Some hs)\<rparr>) =
      (case normalize_generations (ts_TenantID s) (ts_TechstackID s) [] hs of
         None \<Rightarrow> Inl ErrTeardownSnapshotMismatch
       | Some hs' \<Rightarrow> Inr (s\<lparr>ts_Generations := (if hs = [] then None else Some (sort_key teardownGenerationKey hs'))\<rparr>))" for hs
    by (cases hs) (simp_all add: normalizeTeardownGenerations_def cloneTeardownGenerations_def split: option.split)
  have v: "ValidateTeardownSnapshot s = None \<longleftrightarrow>
      (\<exists>hs hs'. ts_Generations s = Some hs \<and> normalize_generations (ts_TenantID s) (ts_TechstackID s) [] hs = Some hs' \<and>
        gen_list (if hs = [] then None else Some (sort_key teardownGenerationKey hs')) = hs \<and> teardownSnapshotDigest s = ts_SnapshotDigest s)"
  proof (cases "ts_Generations s")
    case None
    then show ?thesis by (simp add: ValidateTeardownSnapshot_def)
  next
    case (Some hs)
    have "tq_TenantID (request_of s) = ts_TenantID s \<and> tq_OwnerSubjectID (request_of s) = ts_OwnerSubjectID s \<and>
        tq_TechstackID (request_of s) = ts_TechstackID s" by (simp add: request_of_def)
    then have "ValidateTeardownSnapshot s = (case normalizeTeardownGenerations (s\<lparr>ts_Generations := cloneTeardownGenerations (Some hs)\<rparr>) of
          Inl _ \<Rightarrow> Some ErrTeardownSnapshotMismatch
        | Inr normalized \<Rightarrow>
            if gen_list (ts_Generations normalized) \<noteq> hs then Some ErrTeardownSnapshotMismatch
            else if teardownSnapshotDigest s \<noteq> ts_SnapshotDigest s then Some ErrTeardownSnapshotMismatch else None)"
      using True Some
      by (simp add: ValidateTeardownSnapshot_def request_of_def [symmetric])
        (simp add: equal_generations gen_list_def split: sum.split)
    then show ?thesis
      unfolding n by (cases "normalize_generations (ts_TenantID s) (ts_TechstackID s) [] hs") (auto simp: Some)
  qed
  have "gen_list (if hs = [] then None else Some (sort_key teardownGenerationKey hs')) = hs \<longleftrightarrow> sort_key teardownGenerationKey hs' = hs"
    if "normalize_generations t k [] hs = Some hs'" for t k hs hs'
    using that by (auto simp: gen_list_def)
  then show ?thesis unfolding v sealed_request using True by blast
next
  case False
  then have "ValidateTeardownSnapshot s \<noteq> None"
    unfolding ValidateTeardownSnapshot_def request_of_def [symmetric]
    by (cases "normalizeTeardownRequest (request_of s)") (auto simp: request_of_def)
  then show ?thesis using False sealed_request by blast
qed

text \<open>
  C36: a snapshot is valid exactly when it is the result of sealing some generations for some
  request: sealing always yields a valid snapshot, and any other value is refused.
\<close>

theorem valid_iff_sealed:
  "ValidateTeardownSnapshot s = None \<longleftrightarrow> (\<exists>q gs. sealTeardownSnapshot q gs = Inr s)"
proof
  assume "ValidateTeardownSnapshot s = None"
  then obtain hs hs' where h: "normalizeTeardownRequest (request_of s) = Inr (request_of s)" "sealed (request_of s) hs = s"
    "normalize_generations (ts_TenantID s) (ts_TechstackID s) [] hs = Some hs'" "sort_key teardownGenerationKey hs' = hs"
    unfolding validate_iff by blast
  then have "sealTeardownSnapshot (request_of s) (Some hs) = Inr s"
    unfolding seal_eq h(1) by (simp add: gen_list_def request_of_def)
  then show "\<exists>q gs. sealTeardownSnapshot q gs = Inr s" by blast
next
  assume "\<exists>q gs. sealTeardownSnapshot q gs = Inr s"
  then obtain q gs r hs where h: "normalizeTeardownRequest q = Inr r"
    "normalize_generations (tq_TenantID r) (tq_TechstackID r) [] (gen_list gs) = Some hs" "s = sealed r (sort_key teardownGenerationKey hs)"
    unfolding seal_eq by (metis (lifting) sum.case_eq_if sum.collapse sum.distinct(1) option.case_eq_if option.collapse sum.inject(2))
  have r: "request_of s = r" by (simp add: h(3) sealed_def request_of_def Let_def)
  have "normalizeTeardownRequest r = Inr r" using h(1) by (auto simp: normalizeTeardownRequest_def Let_def split: if_splits)
  moreover have "ts_TenantID s = tq_TenantID r" "ts_TechstackID s = tq_TechstackID r" by (simp_all add: h(3) sealed_def Let_def)
  moreover have "sort_key teardownGenerationKey (sort_key teardownGenerationKey hs) = sort_key teardownGenerationKey hs"
    by (rule sort_key_idem)
  ultimately show "ValidateTeardownSnapshot s = None"
    unfolding validate_iff r using normalize_generations_fixed [OF h(2)] h(3) by metis
qed

text \<open>
  A sealed snapshot, and whether sealing succeeds, does not depend on the order in which the
  generations were read.
\<close>

theorem seal_order_irrelevant:
  assumes "mset gs = mset gs'"
  shows "sealTeardownSnapshot q (Some gs) = sealTeardownSnapshot q (Some gs')"
proof -
  have "map_option (sort_key teardownGenerationKey) (normalize_generations t k [] gs) =
     map_option (sort_key teardownGenerationKey) (normalize_generations t k [] gs')" for t k
  proof -
    let ?os = "map (normalize_generation t k) gs" and ?os' = "map (normalize_generation t k) gs'"
    have m: "mset ?os = mset ?os'" "mset (map the ?os) = mset (map the ?os')" using assms by simp_all
    have "set ?os = set ?os'" using m(1) by (rule mset_eq_setD)
    moreover have d: "distinct (map teardownGenerationKey (map the ?os)) = distinct (map teardownGenerationKey (map the ?os'))"
      using m(2) by (metis mset_eq_imp_distinct_iff mset_map)
    moreover have "sort_key teardownGenerationKey (map the ?os) = sort_key teardownGenerationKey (map the ?os')"
      if "distinct (map teardownGenerationKey (map the ?os))"
      using m(2) that by (intro sort_key_inj_key_eq) (simp_all only: distinct_map set_map mset_sort sorted_sort_key)
    ultimately show ?thesis unfolding normalize_generations_eq Let_def by (auto simp del: map_map set_map)
  qed
  then have e: "map_option (sealed r \<circ> sort_key teardownGenerationKey) (normalize_generations t k [] gs) =
     map_option (sealed r \<circ> sort_key teardownGenerationKey) (normalize_generations t k [] gs')" for r t k
    by (metis option.map_comp)
  have "(case x of None \<Rightarrow> Inl ErrTeardownSnapshotMismatch | Some hs \<Rightarrow> Inr (sealed r (sort_key teardownGenerationKey hs))) =
     (case map_option (sealed r \<circ> sort_key teardownGenerationKey) x of None \<Rightarrow> Inl ErrTeardownSnapshotMismatch | Some s \<Rightarrow> Inr s)" for x r
    by (cases x) simp_all
  then show ?thesis unfolding seal_eq gen_list_def option.case by (simp only: e)
qed

end
