(* ===== verification/Port_Observation.thy ===== *)
theory Port_Observation
  imports Port_Types "HOL-Library.Product_Lexorder"
begin

text \<open>
  What the agent of a node observes (\<^verbatim>\<open>src/internal/portinventory/observation.go\<close>) and the check of a
  rollout's requirements against it (\<^verbatim>\<open>baseline.go\<close>), with the parts of \<^verbatim>\<open>net\<close> and \<^verbatim>\<open>strconv\<close> they
  use.
\<close>

section \<open>Text of an address with a port\<close>

text \<open>The text before and after the last occurrence of a character.\<close>

definition split_last :: "char \<Rightarrow> string \<Rightarrow> (string \<times> string) option" where
  "split_last c s =
     (if c \<in> set s
      then Some (rev (tl (dropWhile (\<lambda>x. x \<noteq> c) (rev s))), rev (takeWhile (\<lambda>x. x \<noteq> c) (rev s)))
      else None)"

text \<open>
  \<^verbatim>\<open>net.SplitHostPort\<close>: the port follows the last colon; a host in brackets may contain colons, and no
  other bracket may occur.
\<close>

definition SplitHostPort :: "string \<Rightarrow> (string \<times> string) option" where
  "SplitHostPort hostport =
     (case split_last (CHR '':'') hostport of
        None \<Rightarrow> None
      | Some (before, port) \<Rightarrow>
          if hd hostport = CHR ''['' then
            let host = takeWhile (\<lambda>x. x \<noteq> CHR '']'') (tl hostport) in
            if before \<noteq> CHR ''['' # host @ '']'' then None
            else if CHR ''['' \<in> set (tl hostport) \<or> CHR '']'' \<in> set port then None
            else Some (host, port)
          else if CHR '':'' \<in> set before \<or> CHR ''['' \<in> set hostport \<or> CHR '']'' \<in> set hostport then None
          else Some (before, port))"

text \<open>\<^verbatim>\<open>strconv.ParseUint\<close> in base 10 with 16 bits.\<close>

definition ParseUint16 :: "string \<Rightarrow> int option" where
  "ParseUint16 s =
     (if s = [] \<or> \<not> list_all is_digit s then None
      else let n = foldl (\<lambda>n c. 10 * n + (of_char c - 48)) 0 s in if n < 65536 then Some n else None)"

section \<open>Facts of a node\<close>

datatype FactKind = FactKindObserved | FactKindExposed

record RuntimeFact =
  rf_Kind :: FactKind
  rf_Transport :: string
  rf_BindAddress :: string
  rf_Port :: "16 word"
  rf_Exposure :: string

definition exposureForBindAddress :: "string \<Rightarrow> string" where
  "exposureForBindAddress v =
     (if v = ''*'' then ExposurePublic
      else case ParseAddr v of
          None \<Rightarrow> ExposurePublic
        | Some a \<Rightarrow>
            if IsLoopback a then ExposureLocal
            else if IsPrivate a \<or> IsLinkLocalUnicast a then ExposureRemotePrivate else ExposurePublic)"

text \<open>The loop over the two schemes: both prefixes are tried in turn.\<close>

definition strip_scheme :: "string \<Rightarrow> string \<Rightarrow> string \<times> string \<Rightarrow> string \<times> string" where
  "strip_scheme prefix t r = (if HasPrefix (snd r) prefix then (t, drop (length prefix) (snd r)) else r)"

definition split_address :: "string \<Rightarrow> (string \<times> string) option" where
  "split_address v =
     (if CHR '':'' \<notin> set v then Some (''*'', v)
      else case SplitHostPort v of
          Some r \<Rightarrow> Some r
        | None \<Rightarrow>
            if count_list v (CHR '':'') = 1
            then SplitHostPort (''['' @ takeWhile (\<lambda>x. x \<noteq> CHR '':'') v @ '']:'' @ tl (dropWhile (\<lambda>x. x \<noteq> CHR '':'') v))
            else None)"

definition parseAgentPortFact :: "string \<Rightarrow> port_error + RuntimeFact" where
  "parseAgentPortFact value0 =
     (let (t1, v1) = strip_scheme ''udp://'' TransportUDP (strip_scheme ''tcp://'' TransportTCP (TransportTCP, ToLower (TrimSpace value0)));
          (t, v) = (case split_last (CHR ''/'') v1 of None \<Rightarrow> (t1, v1) | Some (before, after) \<Rightarrow> (TrimSpace after, TrimSpace before))
      in if t \<noteq> TransportTCP \<and> t \<noteq> TransportUDP then Inl ErrInvalidRequirement
         else case split_address v of
             None \<Rightarrow> Inl ErrInvalidRequirement
           | Some (address0, portText) \<Rightarrow>
               (case ParseUint16 portText of
                  None \<Rightarrow> Inl ErrInvalidRequirement
                | Some port \<Rightarrow>
                    if port = 0 then Inl ErrInvalidRequirement
                    else case normalizeBindAddress address0 of
                        Inl e \<Rightarrow> Inl e
                      | Inr address \<Rightarrow>
                          Inr \<lparr>rf_Kind = FactKindObserved, rf_Transport = t, rf_BindAddress = address,
                            rf_Port = word_of_int port, rf_Exposure = exposureForBindAddress address\<rparr>))"

definition fact_key :: "RuntimeFact \<Rightarrow> string" where
  "fact_key f = rf_Transport f @ [CHR 0x00] @ rf_BindAddress f @ [CHR 0x00] @ Itoa (uint (rf_Port f))"

fun collect_facts :: "string list \<Rightarrow> bool \<Rightarrow> string list \<Rightarrow> RuntimeFact list \<times> bool" where
  "collect_facts seen complete [] = ([], complete)"
| "collect_facts seen complete (v # vs) =
     (case parseAgentPortFact v of
        Inl _ \<Rightarrow> collect_facts seen False vs
      | Inr f \<Rightarrow>
          if fact_key f \<in> set seen then collect_facts seen complete vs
          else let (fs, c) = collect_facts (fact_key f # seen) complete vs in (f # fs, c))"

definition parseAgentPortFacts :: "string list \<Rightarrow> RuntimeFact list \<times> bool" where
  "parseAgentPortFacts vs =
     (let (fs, complete) = collect_facts [] True vs
      in (sort_key (\<lambda>f. (rf_Port f, rf_Transport f, rf_BindAddress f)) fs, complete))"

section \<open>The baseline of a host\<close>

text \<open>
  The last constructors are the zero values; \<^term>\<open>None\<close> is the zero value of a reservation's state.
\<close>

datatype EvidenceState = EvidenceUnknown | EvidencePresent | EvidenceMissing | EvidenceStale | EvidenceNone

datatype DriftState = DriftConsistent | DriftMissing | DriftUnexpected | DriftUnknown | DriftNone










section \<open>Properties\<close>

lemma Itoa_nonneg_chars: "0 \<le> n \<Longrightarrow> CHR 0x00 \<notin> set (Itoa n)"
  using digits_nat_digits [of "nat n"] by (auto simp: Itoa_def list_all_iff is_digit_def)

text \<open>A separator that does not occur in the last part splits it off.\<close>

lemma last_part_eq:
  assumes "xs @ c # as = ys @ c # bs" "c \<notin> set as" "c \<notin> set bs"
  shows "xs = ys \<and> as = bs"
proof -
  have "takeWhile (\<lambda>x. x \<noteq> c) (rev as @ c # rev xs) = rev as" "takeWhile (\<lambda>x. x \<noteq> c) (rev bs @ c # rev ys) = rev bs"
    using assms(2,3) by (auto simp: takeWhile_append)
  moreover have "rev as @ c # rev xs = rev bs @ c # rev ys"
    using arg_cong [OF assms(1), of rev] by simp
  ultimately show ?thesis using assms(1) by auto
qed

lemma parse_fact_form:
  assumes "parseAgentPortFact v = Inr f"
  shows "rf_Kind f = FactKindObserved \<and> (rf_Transport f = TransportTCP \<or> rf_Transport f = TransportUDP) \<and>
    rf_Exposure f = exposureForBindAddress (rf_BindAddress f)"
  using assms unfolding parseAgentPortFact_def Let_def
  by (auto split: prod.splits if_splits option.splits sum.splits)

lemma digits_value: "foldl (\<lambda>n c. 10 * n + (of_char c - 48)) 0 (digits_nat n) = (int n)"
proof (induction n rule: digits_nat.induct)
  case (1 n)
  have d: "(of_char (char_of (48 + m) :: char) :: int) = 48 + int m" if "m < 10" for m :: nat
  proof -
    have "(of_char (char_of (48 + m) :: char) :: nat) = 48 + m" using that by simp
    then show ?thesis by (metis of_nat_add of_nat_numeral of_nat_of_char)
  qed
  show ?case using "1" d [of n] d [of "n mod 10"] by (subst digits_nat.simps) (simp add: zmod_int zdiv_int)
qed

lemma Itoa_inj: "0 \<le> m \<Longrightarrow> 0 \<le> n \<Longrightarrow> Itoa m = Itoa n \<Longrightarrow> m = n"
proof -
  assume "0 \<le> m" "0 \<le> n" "Itoa m = Itoa n"
  then have "int (nat m) = int (nat n)" unfolding digits_value [symmetric] by (simp add: Itoa_def)
  with \<open>0 \<le> m\<close> \<open>0 \<le> n\<close> show "m = n" by simp
qed

text \<open>The key determines a fact.\<close>

lemma fact_key_inj:
  assumes "parseAgentPortFact v = Inr f" "parseAgentPortFact w = Inr g" "fact_key f = fact_key g"
  shows "f = g"
proof -
  have z: "CHR 0x00 \<notin> set (Itoa (uint (rf_Port h)))" for h :: RuntimeFact by (rule Itoa_nonneg_chars) simp
  have "(rf_Transport f @ [CHR 0x00] @ rf_BindAddress f) @ CHR 0x00 # Itoa (uint (rf_Port f)) =
      (rf_Transport g @ [CHR 0x00] @ rf_BindAddress g) @ CHR 0x00 # Itoa (uint (rf_Port g))"
    using assms(3) by (simp add: fact_key_def)
  then have e: "rf_Transport f @ [CHR 0x00] @ rf_BindAddress f = rf_Transport g @ [CHR 0x00] @ rf_BindAddress g"
    "Itoa (uint (rf_Port f)) = Itoa (uint (rf_Port g))" using last_part_eq [OF _ z z] by blast+
  have "rf_Port f = rf_Port g" using Itoa_inj [OF _ _ e(2)] by (simp add: word_uint_eq_iff)
  moreover have "rf_Transport f = rf_Transport g" "rf_BindAddress f = rf_BindAddress g"
    using e(1) parse_fact_form [OF assms(1)] parse_fact_form [OF assms(2)] by (auto simp: TransportTCP_def TransportUDP_def)
  ultimately show ?thesis using parse_fact_form [OF assms(1)] parse_fact_form [OF assms(2)] by simp
qed

lemma collect_facts_props:
  assumes "collect_facts seen complete vs = (fs, c)"
  shows "set fs = {f. \<exists>v\<in>set vs. parseAgentPortFact v = Inr f \<and> fact_key f \<notin> set seen}"
    and "distinct fs" and "c \<longleftrightarrow> complete \<and> (\<forall>v\<in>set vs. \<exists>f. parseAgentPortFact v = Inr f)"
proof -
  have "set fs = {f. \<exists>v\<in>set vs. parseAgentPortFact v = Inr f \<and> fact_key f \<notin> set seen} \<and> distinct fs \<and>
      (c \<longleftrightarrow> complete \<and> (\<forall>v\<in>set vs. \<exists>f. parseAgentPortFact v = Inr f))"
    using assms
  proof (induction vs arbitrary: seen complete fs c)
    case (Cons v vs)
    show ?case
    proof (cases "parseAgentPortFact v")
      case (Inl e)
      then show ?thesis using Cons.IH [of seen False fs c] Cons.prems by auto
    next
      case (Inr f)
      show ?thesis
      proof (cases "fact_key f \<in> set seen")
        case True
        then show ?thesis using Cons.IH [of seen complete fs c] Cons.prems Inr by auto
      next
        case False
        then obtain fs' where fs': "collect_facts (fact_key f # seen) complete vs = (fs', c)" "fs = f # fs'"
          using Cons.prems Inr by (auto split: prod.splits)
        note IH = Cons.IH [OF fs'(1)]
        have "f \<notin> set fs'" using IH by auto
        moreover have "set fs = {f. \<exists>v\<in>set (v # vs). parseAgentPortFact v = Inr f \<and> fact_key f \<notin> set seen}"
          using IH fs'(2) Inr False fact_key_inj [OF _ Inr] by auto
        ultimately show ?thesis using IH fs'(2) Inr by auto
      qed
    qed
  qed simp
  then show "set fs = {f. \<exists>v\<in>set vs. parseAgentPortFact v = Inr f \<and> fact_key f \<notin> set seen}"
    and "distinct fs" and "c \<longleftrightarrow> complete \<and> (\<forall>v\<in>set vs. \<exists>f. parseAgentPortFact v = Inr f)" by blast+
qed

text \<open>
  The facts read from an agent's report are exactly the listeners some entry of it denotes, each
  once, ordered by port, transport and address, and the report counts as complete exactly when every
  entry could be read.
\<close>

theorem agent_facts_exact:
  assumes "parseAgentPortFacts vs = (fs, complete)"
  shows "set fs = {f. \<exists>v. v \<in> set vs \<and> parseAgentPortFact v = Inr f} \<and> distinct fs \<and>
    sorted (map (\<lambda>f. (rf_Port f, rf_Transport f, rf_BindAddress f)) fs) \<and>
    complete = list_all (\<lambda>v. \<not> isl (parseAgentPortFact v)) vs"
proof -
  obtain gs where gs: "collect_facts [] True vs = (gs, complete)"
    "fs = sort_key (\<lambda>f. (rf_Port f, rf_Transport f, rf_BindAddress f)) gs"
    using assms by (auto simp: parseAgentPortFacts_def split: prod.splits)
  note P = collect_facts_props [OF gs(1)]
  have "(\<exists>f. r = Inr f) \<longleftrightarrow> \<not> isl r" for r :: "port_error + RuntimeFact" by (cases r) simp_all
  then show ?thesis using P gs(2) by (auto simp: list_all_iff)
qed

text \<open>A report with a repeated and an unreadable entry.\<close>

lemma agent_facts_example:
  "map (\<lambda>f. (rf_Port f, rf_Transport f, rf_BindAddress f, rf_Exposure f))
     (fst (parseAgentPortFacts [''tcp://[::1]:80'', ''53/udp'', ''[::1]:80/tcp'', ''x''])) =
     [(53, ''udp'', ''*'', ''public''), (80, ''tcp'', ''::1'', ''local'')]"
  "\<not> snd (parseAgentPortFacts [''tcp://[::1]:80'', ''53/udp'', ''[::1]:80/tcp'', ''x''])"
  by code_simp+








end
