(* ===== verification/Lease_Store.thy ===== *)
theory Lease_Store
  imports Go_JSON Go_SHA256
begin

text \<open>
  The authority over VM leases (\<^verbatim>\<open>src/pkg/vmleases\<close>): the lease type of
  \<^verbatim>\<open>src/internal/runtimeproduct/vmlease/types.go\<close>, resource generations, the memory store and the
  service on top of it.  Each operation of the store holds its mutex; \<^verbatim>\<open>Patch\<close> of the service reads
  and writes under two acquisitions and is therefore two operations here.
\<close>

section \<open>Leases\<close>

definition DesiredStateRunning :: string where "DesiredStateRunning = ''running''"
definition DesiredStateStopped :: string where "DesiredStateStopped = ''stopped''"
definition DesiredStateArchived :: string where "DesiredStateArchived = ''archived''"

record Subject =
  su_Kind :: string
  su_ID :: string
  su_OrgID :: string

record ResourceRef =
  re_ProviderID :: string
  re_EngineVMID :: string
  re_SimulationID :: string
  re_VMID :: string
  re_Region :: string

text \<open>A nil map of metadata reads like an empty one.\<close>

record Lease =
  le_ID :: string
  le_Subject :: Subject
  le_Resource :: ResourceRef
  le_DesiredState :: string
  le_BillingMode :: string
  le_CustodyClass :: string
  le_LifecycleClass :: string
  le_RestartPolicy :: string
  le_RecreatePolicy :: string
  le_ValidFrom :: gtime
  le_ValidUntil :: gtime
  le_RenewedAt :: gtime
  le_CancelledAt :: "gtime option"
  le_Metadata :: "(string, string) fmap"

datatype lease_error =
    ErrInvalidLease
  | ErrLeaseExpired
  | ErrLeaseEnded
  | ErrUnsupportedLease
  | ErrLeaseNotFound
  | ErrTenantRequired
  | ErrProviderRefRequired
  | ErrTenantMismatch
  | ErrLeaseCancelled
  | ErrResourceGenerationUnavailable
  | ErrResourceGenerationImmutable
  | ErrResourceGenerationDigest
  | ErrResourceGenerationSuperseded
  | ErrDecommissionClaimImmutable
  | ErrLeaseIdentityConflict
  | ErrSSHHostKeyBinding
  | ErrSSHHostKeyImmutable
  | ErrLeaseExecutionAuthorityUnbound

definition Lease_Validate :: "gtime \<Rightarrow> Lease \<Rightarrow> lease_error option" where
  "Lease_Validate now l =
     (if le_ID l = [] \<or> su_ID (le_Subject l) = [] \<or> re_ProviderID (le_Resource l) = [] then Some ErrInvalidLease
      else if su_Kind (le_Subject l) \<noteq> ''user'' \<and> su_Kind (le_Subject l) \<noteq> ''org'' then Some ErrInvalidLease
      else if le_DesiredState l \<noteq> DesiredStateRunning \<and> le_DesiredState l \<noteq> DesiredStateStopped \<and>
        le_DesiredState l \<noteq> DesiredStateArchived then Some ErrInvalidLease
      else if (if le_CustodyClass l = ''customer_substrate''
        then re_ProviderID (le_Resource l) \<noteq> ''proxmox'' \<or> le_BillingMode l \<noteq> ''local'' \<or>
          le_LifecycleClass l \<noteq> ''one_time'' \<or> le_RecreatePolicy l \<noteq> ''never''
        else le_CustodyClass l \<noteq> [] \<or> le_BillingMode l \<noteq> ''subscription'' \<or> le_LifecycleClass l \<noteq> ''subscription'')
      then Some ErrUnsupportedLease
      else if le_RestartPolicy l \<noteq> ''none'' \<and> le_RestartPolicy l \<noteq> ''on_unexpected_stop'' then Some ErrInvalidLease
      else if le_RecreatePolicy l \<noteq> ''never'' \<and> le_RecreatePolicy l \<noteq> ''manual'' \<and>
        le_RecreatePolicy l \<noteq> ''automatic_if_stateless'' then Some ErrInvalidLease
      else if IsZero (le_ValidFrom l) \<or> IsZero (le_ValidUntil l) \<or> \<not> le_ValidFrom l < le_ValidUntil l then Some ErrInvalidLease
      else if (case le_CancelledAt l of None \<Rightarrow> False | Some t \<Rightarrow> \<not> now < t) then Some ErrLeaseEnded
      else if \<not> now < le_ValidUntil l then Some ErrLeaseExpired
      else None)"

definition ActiveAt :: "gtime \<Rightarrow> Lease \<Rightarrow> bool" where
  "ActiveAt now l \<longleftrightarrow> Lease_Validate now l = None \<and> \<not> now < le_ValidFrom l"

section \<open>Resource generations\<close>

definition MetadataKeyResourceGenerationID :: string where "MetadataKeyResourceGenerationID = ''resource_generation_id''"
definition MetadataKeyDecommissionClaimDigest :: string where
  "MetadataKeyDecommissionClaimDigest = ''resource_decommission_claim_digest''"
definition MetadataKeySSHHostKey :: string where "MetadataKeySSHHostKey = ''runtime_ssh_host_key''"
definition resourceGenerationDigestVersion :: string where
  "resourceGenerationDigestVersion = ''techstack.vmlease.resource-generation/v1''"

definition metadata :: "string \<Rightarrow> Lease \<Rightarrow> string" where
  "metadata k l = (case fmlookup (le_Metadata l) k of None \<Rightarrow> [] | Some v \<Rightarrow> v)"

definition setLeaseMetadata :: "string \<Rightarrow> string \<Rightarrow> Lease \<Rightarrow> Lease" where
  "setLeaseMetadata key v l =
     l\<lparr>le_Metadata := (if v = [] then fmdrop key (le_Metadata l) else fmupd key v (le_Metadata l))\<rparr>"

definition tenantIDFromLease :: "Lease \<Rightarrow> lease_error + string" where
  "tenantIDFromLease l =
     (let t = TrimSpace (su_OrgID (le_Subject l)) in if t = [] then Inl ErrTenantRequired else Inr t)"

definition ResourceGenerationID :: "Lease \<Rightarrow> string" where
  "ResourceGenerationID l = TrimSpace (metadata MetadataKeyResourceGenerationID l)"

text \<open>\<^verbatim>\<open>uuid.NewRandom\<close> is a call of a package outside the repository: its result is an argument.\<close>

definition assignNewResourceGenerationID :: "string option \<Rightarrow> Lease \<Rightarrow> lease_error + Lease" where
  "assignNewResourceGenerationID generationID l =
     (case generationID of
        None \<Rightarrow> Inl ErrResourceGenerationUnavailable
      | Some i \<Rightarrow> Inr (setLeaseMetadata MetadataKeyResourceGenerationID i l))"

definition digest_payload :: "string \<Rightarrow> Lease \<Rightarrow> json" where
  "digest_payload tenantID l =
     JObj [(''version'', JStr resourceGenerationDigestVersion), (''tenant_id'', JStr tenantID),
       (''lease_id'', JStr (TrimSpace (le_ID l))), (''resource_generation_id'', JStr (ResourceGenerationID l)),
       (''provider_id'', JStr (ToLower (TrimSpace (re_ProviderID (le_Resource l))))),
       (''engine_vm_id'', JStr (TrimSpace (re_EngineVMID (le_Resource l)))),
       (''simulation_id'', JStr (TrimSpace (re_SimulationID (le_Resource l)))),
       (''vm_id'', JStr (TrimSpace (re_VMID (le_Resource l))))]"

definition ResourceGenerationDigest :: "string \<Rightarrow> Lease \<Rightarrow> lease_error + string" where
  "ResourceGenerationDigest tenantID0 l =
     (let tenantID = TrimSpace tenantID0 in
      if tenantID = [] then Inl ErrTenantRequired
      else case tenantIDFromLease l of
          Inl e \<Rightarrow> Inl e
        | Inr leaseTenantID \<Rightarrow>
            if leaseTenantID \<noteq> tenantID then Inl ErrTenantMismatch
            else if TrimSpace (le_ID l) = [] \<or> ResourceGenerationID l = [] \<or>
              ToLower (TrimSpace (re_ProviderID (le_Resource l))) = [] then Inl ErrResourceGenerationUnavailable
            else Inr (hex_sum (print_json (digest_payload tenantID l))))"

definition validResourceGenerationDigest :: "string \<Rightarrow> bool" where
  "validResourceGenerationDigest value0 \<longleftrightarrow>
     (let v = TrimSpace value0
      in length v = 64 \<and> list_all (\<lambda>c. hexval c \<noteq> None) v \<and> v = ToLower v)"

definition ensureResourceGenerationUnchanged :: "Lease \<Rightarrow> Lease \<Rightarrow> lease_error option" where
  "ensureResourceGenerationUnchanged existing updated =
     (if ResourceGenerationID existing \<noteq> ResourceGenerationID updated then Some ErrResourceGenerationImmutable else None)"

definition ensureCancellationMonotonic :: "Lease \<Rightarrow> Lease \<Rightarrow> lease_error option" where
  "ensureCancellationMonotonic existing updated =
     (case le_CancelledAt existing of
        None \<Rightarrow> None
      | Some t \<Rightarrow>
          if le_CancelledAt updated \<noteq> Some t then Some ErrLeaseCancelled
          else if le_DesiredState updated \<noteq> DesiredStateStopped \<and> le_DesiredState updated \<noteq> DesiredStateArchived
          then Some ErrLeaseCancelled
          else None)"

definition decommission_claim :: "Lease \<Rightarrow> string" where
  "decommission_claim l = TrimSpace (metadata MetadataKeyDecommissionClaimDigest l)"

definition ensureDecommissionClaimUnchanged :: "Lease \<Rightarrow> Lease \<Rightarrow> lease_error option" where
  "ensureDecommissionClaimUnchanged existing updated =
     (if decommission_claim existing \<noteq> [] \<and> decommission_claim updated \<noteq> decommission_claim existing
      then Some ErrDecommissionClaimImmutable
      else if decommission_claim updated = [] then None
      else case tenantIDFromLease updated of
          Inl e \<Rightarrow> Some e
        | Inr tenantID \<Rightarrow>
            (case ResourceGenerationDigest tenantID updated of
               Inl e \<Rightarrow> Some e
             | Inr digest \<Rightarrow> if decommission_claim updated \<noteq> digest then Some ErrResourceGenerationDigest else None))"

definition ssh_host_key :: "Lease \<Rightarrow> string" where
  "ssh_host_key l = TrimSpace (metadata MetadataKeySSHHostKey l)"

definition ensureSSHHostKeyUnchanged :: "Lease \<Rightarrow> Lease \<Rightarrow> lease_error option" where
  "ensureSSHHostKeyUnchanged existing updated =
     (if ssh_host_key updated \<noteq> ssh_host_key existing then Some ErrSSHHostKeyImmutable else None)"

section \<open>The memory store\<close>

record OperationEvent =
  oe_TenantID :: string
  oe_LeaseID :: string
  oe_EventType :: string
  oe_Status :: string
  oe_Actor :: string
  oe_Error :: string
  oe_ResourceGenerationDigest :: string
  oe_CreatedAt :: gtime

record SSHHostKeyPinRequest =
  pr_TenantID :: string
  pr_LeaseID :: string
  pr_OwnerSubjectID :: string
  pr_ServerID :: string
  pr_StackID :: string
  pr_ServerGeneration :: int
  pr_ExpectedResourceGenerationDigest :: string
  pr_HostKey :: string

record MemoryStore =
  ms_leases :: "(string, Lease) fmap"
  ms_idempotencyKey :: "(string \<times> string, string) fmap"
  ms_executionAuthorities :: "(string \<times> string, string) fmap"
  ms_journal :: "OperationEvent list"
  ms_decommissioned :: "(string \<times> string \<times> string) fset"

definition NewMemoryStore :: MemoryStore where
  "NewMemoryStore =
     \<lparr>ms_leases = fmempty, ms_idempotencyKey = fmempty, ms_executionAuthorities = fmempty, ms_journal = [], ms_decommissioned = {||}\<rparr>"

definition put_lease :: "Lease \<Rightarrow> MemoryStore \<Rightarrow> MemoryStore" where
  "put_lease l s = s\<lparr>ms_leases := fmupd (le_ID l) l (ms_leases s)\<rparr>"

text \<open>A lookup of a missing lease reads the zero lease.\<close>

definition zero_lease :: Lease where
  "zero_lease =
     \<lparr>le_ID = [], le_Subject = \<lparr>su_Kind = [], su_ID = [], su_OrgID = []\<rparr>,
      le_Resource = \<lparr>re_ProviderID = [], re_EngineVMID = [], re_SimulationID = [], re_VMID = [], re_Region = []\<rparr>,
      le_DesiredState = [], le_BillingMode = [], le_CustodyClass = [], le_LifecycleClass = [], le_RestartPolicy = [],
      le_RecreatePolicy = [], le_ValidFrom = 0, le_ValidUntil = 0, le_RenewedAt = 0, le_CancelledAt = None, le_Metadata = fmempty\<rparr>"

definition existingIdempotentLeaseLocked :: "string \<Rightarrow> string \<Rightarrow> string \<Rightarrow> MemoryStore \<Rightarrow> lease_error + Lease option" where
  "existingIdempotentLeaseLocked tenantID key leaseID s =
     (if key = [] then Inr None
      else case fmlookup (ms_idempotencyKey s) (tenantID, key) of
          None \<Rightarrow> Inr None
        | Some existingID \<Rightarrow>
            if existingID \<noteq> leaseID then Inl ErrLeaseIdentityConflict
            else Inr (Some (case fmlookup (ms_leases s) existingID of None \<Rightarrow> zero_lease | Some l \<Rightarrow> l)))"

definition bindIdempotencyKeyLocked :: "string \<Rightarrow> string \<Rightarrow> string \<Rightarrow> MemoryStore \<Rightarrow> MemoryStore" where
  "bindIdempotencyKeyLocked tenantID key leaseID s =
     (if key = [] then s
      else if leaseID |\<in>| fmran (ms_idempotencyKey s) then s
      else s\<lparr>ms_idempotencyKey := fmupd (tenantID, key) leaseID (ms_idempotencyKey s)\<rparr>)"

definition upsertLocked :: "Lease \<Rightarrow> string \<Rightarrow> string \<Rightarrow> MemoryStore \<Rightarrow> (lease_error + Lease) \<times> MemoryStore" where
  "upsertLocked l tenantID idempotencyKey s =
     (let existingByID = fmlookup (ms_leases s) (le_ID l) in
      if (case existingByID of None \<Rightarrow> False | Some x \<Rightarrow> tenantIDFromLease x \<noteq> Inr tenantID) then (Inl ErrLeaseIdentityConflict, s)
      else let key = TrimSpace idempotencyKey in
        case existingIdempotentLeaseLocked tenantID key (le_ID l) s of
          Inl e \<Rightarrow> (Inl e, s)
        | Inr (Some x) \<Rightarrow> (Inr x, s)
        | Inr None \<Rightarrow>
            (case existingByID of
               Some x \<Rightarrow> (Inr x, s)
             | None \<Rightarrow> (Inr l, put_lease l (bindIdempotencyKeyLocked tenantID key (le_ID l) s))))"

definition Upsert :: "Lease \<Rightarrow> string \<Rightarrow> MemoryStore \<Rightarrow> (lease_error + Lease) \<times> MemoryStore" where
  "Upsert l idempotencyKey s =
     (case tenantIDFromLease l of
        Inl e \<Rightarrow> (Inl e, s)
      | Inr tenantID \<Rightarrow> upsertLocked l tenantID idempotencyKey s)"

definition Store_Get :: "string \<Rightarrow> string \<Rightarrow> MemoryStore \<Rightarrow> lease_error + Lease" where
  "Store_Get tenantID0 leaseID s =
     (let tenantID = TrimSpace tenantID0 in
      if tenantID = [] then Inl ErrTenantRequired
      else case fmlookup (ms_leases s) leaseID of
          None \<Rightarrow> Inl ErrLeaseNotFound
        | Some l \<Rightarrow> if tenantIDFromLease l \<noteq> Inr tenantID then Inl ErrLeaseNotFound else Inr l)"

definition ListByTenant :: "string \<Rightarrow> MemoryStore \<Rightarrow> lease_error + Lease list" where
  "ListByTenant tenantID0 s =
     (let tenantID = TrimSpace tenantID0 in
      if tenantID = [] then Inl ErrTenantRequired
      else Inr (sort_key le_ID (filter (\<lambda>l. tenantIDFromLease l = Inr tenantID) (map_values (ms_leases s)))))"

definition update_refused :: "Lease \<Rightarrow> Lease \<Rightarrow> lease_error option" where
  "update_refused existing l =
     (case ensureResourceGenerationUnchanged existing l of
        Some e \<Rightarrow> Some e
      | None \<Rightarrow>
          (case ensureCancellationMonotonic existing l of
             Some e \<Rightarrow> Some e
           | None \<Rightarrow>
               (case ensureDecommissionClaimUnchanged existing l of
                  Some e \<Rightarrow> Some e
                | None \<Rightarrow> ensureSSHHostKeyUnchanged existing l)))"

definition Store_Update :: "string \<Rightarrow> Lease \<Rightarrow> MemoryStore \<Rightarrow> (lease_error + Lease) \<times> MemoryStore" where
  "Store_Update tenantID0 l s =
     (let tenantID = TrimSpace tenantID0 in
      if tenantID = [] then (Inl ErrTenantRequired, s)
      else case tenantIDFromLease l of
          Inl e \<Rightarrow> (Inl e, s)
        | Inr leaseTenantID \<Rightarrow>
            if leaseTenantID \<noteq> tenantID then (Inl ErrLeaseNotFound, s)
            else case fmlookup (ms_leases s) (le_ID l) of
                None \<Rightarrow> (Inl ErrLeaseNotFound, s)
              | Some existing \<Rightarrow>
                  if tenantIDFromLease existing \<noteq> Inr tenantID then (Inl ErrLeaseNotFound, s)
                  else case update_refused existing l of
                      Some e \<Rightarrow> (Inl e, s)
                    | None \<Rightarrow> (Inr l, put_lease l s))"

definition Store_PinSSHHostKey :: "SSHHostKeyPinRequest \<Rightarrow> MemoryStore \<Rightarrow> (lease_error + Lease) \<times> MemoryStore" where
  "Store_PinSSHHostKey q s =
     (case fmlookup (ms_leases s) (pr_LeaseID q) of
        None \<Rightarrow> (Inl ErrLeaseNotFound, s)
      | Some existing \<Rightarrow>
          if tenantIDFromLease existing \<noteq> Inr (pr_TenantID q) then (Inl ErrLeaseNotFound, s)
          else if ResourceGenerationDigest (pr_TenantID q) existing \<noteq> Inr (pr_ExpectedResourceGenerationDigest q)
          then (Inl ErrResourceGenerationSuperseded, s)
          else if ssh_host_key existing \<noteq> [] then (Inr existing, s)
          else let updated = setLeaseMetadata MetadataKeySSHHostKey (pr_HostKey q) existing
            in (Inr updated, s\<lparr>ms_leases := fmupd (pr_LeaseID q) updated (ms_leases s)\<rparr>))"

definition OperationEventDecommission :: string where "OperationEventDecommission = ''decommission''"
definition OperationStatusDecommissioned :: string where "OperationStatusDecommissioned = ''decommissioned''"
definition OperationActorSystem :: string where "OperationActorSystem = ''system''"

definition decommission_proof :: "OperationEvent \<Rightarrow> bool" where
  "decommission_proof e \<longleftrightarrow> oe_EventType e = OperationEventDecommission \<and> oe_Status e = OperationStatusDecommissioned"

definition AppendOperation :: "OperationEvent \<Rightarrow> MemoryStore \<Rightarrow> lease_error option \<times> MemoryStore" where
  "AppendOperation e s =
     (if TrimSpace (oe_TenantID e) = [] then (Some ErrTenantRequired, s)
      else if oe_LeaseID e = [] then (Some ErrLeaseNotFound, s)
      else (None, s\<lparr>ms_journal := ms_journal s @ [e],
        ms_decommissioned := (if decommission_proof e
          then finsert (TrimSpace (oe_TenantID e), oe_LeaseID e, TrimSpace (oe_ResourceGenerationDigest e)) (ms_decommissioned s)
          else ms_decommissioned s)\<rparr>))"

definition HasConfirmedDecommission :: "string \<Rightarrow> string \<Rightarrow> string \<Rightarrow> MemoryStore \<Rightarrow> lease_error + bool" where
  "HasConfirmedDecommission tenantID0 leaseID digest0 s =
     (let tenantID = TrimSpace tenantID0; digest = TrimSpace digest0 in
      if tenantID = [] then Inl ErrTenantRequired
      else if leaseID = [] then Inl ErrLeaseNotFound
      else if \<not> validResourceGenerationDigest digest then Inl ErrResourceGenerationDigest
      else Inr ((tenantID, leaseID, digest) |\<in>| ms_decommissioned s))"

definition ListOperations :: "string \<Rightarrow> string \<Rightarrow> int \<Rightarrow> MemoryStore \<Rightarrow> lease_error + OperationEvent list" where
  "ListOperations tenantID0 leaseID limit s =
     (let tenantID = TrimSpace tenantID0;
          es = filter (\<lambda>e. oe_TenantID e = tenantID \<and> oe_LeaseID e = leaseID) (rev (ms_journal s))
      in if tenantID = [] then Inl ErrTenantRequired
         else Inr (if limit > 0 then take (nat limit) es else es))"

end
