(* ===== verification/Lease_Service.thy ===== *)
theory Lease_Service
  imports Lease_Store
begin

text \<open>
  The service of the lease authority (\<^verbatim>\<open>service.go\<close>, \<^verbatim>\<open>ssh_host_key.go\<close>, \<^verbatim>\<open>operation_journal.go\<close>,
  \<^verbatim>\<open>execution_authority.go\<close> and \<^verbatim>\<open>inventory.go\<close> of \<^verbatim>\<open>src/pkg/vmleases\<close>) over the memory store, and its
  callers as a step relation: the read and the write of a \<^verbatim>\<open>Patch\<close> are two steps, and any other call may
  come between them.
\<close>

section \<open>Creating leases\<close>

definition CreateOrUpdate ::
  "string option \<Rightarrow> gtime \<Rightarrow> Lease \<Rightarrow> string \<Rightarrow> MemoryStore \<Rightarrow> (lease_error + Lease) \<times> MemoryStore" where
  "CreateOrUpdate generationID now lease0 idempotencyKey s =
     (let lease1 = lease0\<lparr>le_Resource := (le_Resource lease0)
            \<lparr>re_ProviderID := ToLower (TrimSpace (re_ProviderID (le_Resource lease0)))\<rparr>\<rparr>
      in case tenantIDFromLease lease1 of
          Inl e \<Rightarrow> (Inl e, s)
        | Inr _ \<Rightarrow>
            if TrimSpace (re_EngineVMID (le_Resource lease1)) = [] then (Inl ErrProviderRefRequired, s)
            else case assignNewResourceGenerationID generationID lease1 of
                Inl e \<Rightarrow> (Inl e, s)
              | Inr lease2 \<Rightarrow>
                  let lease3 = setLeaseMetadata MetadataKeyDecommissionClaimDigest [] lease2;
                      lease = (if IsZero (le_RenewedAt lease3) then lease3\<lparr>le_RenewedAt := now\<rparr> else lease3)
                  in case Lease_Validate now lease of
                      Some e \<Rightarrow> (Inl e, s)
                    | None \<Rightarrow> Upsert lease (TrimSpace idempotencyKey) s)"

section \<open>Patching a lease\<close>

text \<open>
  The metadata of a request are its entries in the order in which the loop visits them.
\<close>

record PatchRequest =
  pa_TenantID :: string
  pa_DesiredState :: "string option"
  pa_ValidUntil :: "gtime option"
  pa_Cancel :: bool
  pa_Metadata :: "(string \<times> string) list"
  pa_ExpectedResourceGenerationDigest :: string
  pa_ClaimDecommission :: bool

fun patch_metadata :: "(string \<times> string) list \<Rightarrow> Lease \<Rightarrow> lease_error + Lease" where
  "patch_metadata [] l = Inr l"
| "patch_metadata ((key0, v) # kvs) l =
     (let key = TrimSpace key0 in
      if key = [] then patch_metadata kvs l
      else if key = MetadataKeyResourceGenerationID then
        (if TrimSpace v \<noteq> ResourceGenerationID l then Inl ErrResourceGenerationImmutable else patch_metadata kvs l)
      else if key = MetadataKeyDecommissionClaimDigest then
        (if TrimSpace v \<noteq> decommission_claim l then Inl ErrDecommissionClaimImmutable else patch_metadata kvs l)
      else patch_metadata kvs (setLeaseMetadata key (TrimSpace v) l))"

definition expected_generation :: "string \<Rightarrow> PatchRequest \<Rightarrow> Lease \<Rightarrow> lease_error option" where
  "expected_generation tenantID q l =
     (let expected = TrimSpace (pa_ExpectedResourceGenerationDigest q) in
      if expected = [] then (if pa_ClaimDecommission q then Some ErrResourceGenerationDigest else None)
      else if \<not> validResourceGenerationDigest expected then Some ErrResourceGenerationDigest
      else case ResourceGenerationDigest tenantID l of
          Inl e \<Rightarrow> Some e
        | Inr current \<Rightarrow> if current \<noteq> expected then Some ErrResourceGenerationSuperseded else None)"

definition patch_state :: "PatchRequest \<Rightarrow> gtime \<Rightarrow> Lease \<Rightarrow> Lease" where
  "patch_state q now l =
     (let l1 = (case pa_DesiredState q of None \<Rightarrow> l | Some d \<Rightarrow> l\<lparr>le_DesiredState := d\<rparr>);
          l2 = (case pa_ValidUntil q of None \<Rightarrow> l1 | Some t \<Rightarrow> l1\<lparr>le_ValidUntil := t\<rparr>)
      in if pa_Cancel q
         then l2\<lparr>le_CancelledAt := Some now,
           le_DesiredState := (if pa_DesiredState q = Some DesiredStateArchived then DesiredStateArchived else DesiredStateStopped)\<rparr>
         else l2)"

text \<open>What \<^verbatim>\<open>Patch\<close> does with the lease it read: fail, return it, or write an updated one.\<close>

datatype patch_plan = PatchReturn Lease | PatchWrite Lease

definition patch_lease :: "string \<Rightarrow> PatchRequest \<Rightarrow> gtime \<Rightarrow> Lease \<Rightarrow> lease_error + patch_plan" where
  "patch_lease tenantID q now l =
     (case expected_generation tenantID q l of
        Some e \<Rightarrow> Inl e
      | None \<Rightarrow>
          if le_CancelledAt l \<noteq> None \<and> pa_Cancel q then Inr (PatchReturn l)
          else if le_CancelledAt l \<noteq> None \<and>
            (case pa_DesiredState q of None \<Rightarrow> False | Some d \<Rightarrow> d \<noteq> DesiredStateStopped \<and> d \<noteq> DesiredStateArchived)
          then Inl ErrLeaseCancelled
          else case patch_metadata (pa_Metadata q) (patch_state q now l) of
              Inl e \<Rightarrow> Inl e
            | Inr l1 \<Rightarrow>
                let l2 = (if pa_ClaimDecommission q
                      then setLeaseMetadata MetadataKeyDecommissionClaimDigest (TrimSpace (pa_ExpectedResourceGenerationDigest q)) l1
                      else l1)
                in Inr (PatchWrite (l2\<lparr>le_RenewedAt := now\<rparr>)))"

definition patch_tenant :: "string \<Rightarrow> PatchRequest \<Rightarrow> string" where
  "patch_tenant tenantID q = (if TrimSpace tenantID = [] then TrimSpace (pa_TenantID q) else TrimSpace tenantID)"

definition patch_read :: "string \<Rightarrow> string \<Rightarrow> PatchRequest \<Rightarrow> gtime \<Rightarrow> MemoryStore \<Rightarrow> lease_error + patch_plan" where
  "patch_read tenantID0 leaseID q now s =
     (let tenantID = patch_tenant tenantID0 q in
      if tenantID = [] then Inl ErrTenantRequired
      else case Store_Get tenantID leaseID s of
          Inl e \<Rightarrow> Inl e
        | Inr l \<Rightarrow> patch_lease tenantID q now l)"

text \<open>A \<^verbatim>\<open>Patch\<close> no other call interrupts.\<close>

definition Patch :: "string \<Rightarrow> string \<Rightarrow> PatchRequest \<Rightarrow> gtime \<Rightarrow> MemoryStore \<Rightarrow> (lease_error + Lease) \<times> MemoryStore" where
  "Patch tenantID leaseID q now s =
     (case patch_read tenantID leaseID q now s of
        Inl e \<Rightarrow> (Inl e, s)
      | Inr (PatchReturn l) \<Rightarrow> (Inr l, s)
      | Inr (PatchWrite l) \<Rightarrow> Store_Update (patch_tenant tenantID q) l s)"

section \<open>Host keys and the operation journal\<close>

text \<open>\<^verbatim>\<open>ssh.ParseAuthorizedKey\<close> of \<^verbatim>\<open>golang.org/x/crypto\<close> is the argument \<open>parses\<close>.\<close>

definition PinSSHHostKey :: "(string \<Rightarrow> bool) \<Rightarrow> SSHHostKeyPinRequest \<Rightarrow> MemoryStore \<Rightarrow> (lease_error + Lease) \<times> MemoryStore" where
  "PinSSHHostKey parses q0 s =
     (let q = q0\<lparr>pr_TenantID := TrimSpace (pr_TenantID q0), pr_LeaseID := TrimSpace (pr_LeaseID q0),
           pr_OwnerSubjectID := TrimSpace (pr_OwnerSubjectID q0), pr_ServerID := TrimSpace (pr_ServerID q0),
           pr_StackID := TrimSpace (pr_StackID q0),
           pr_ExpectedResourceGenerationDigest := TrimSpace (pr_ExpectedResourceGenerationDigest q0),
           pr_HostKey := TrimSpace (pr_HostKey q0)\<rparr>
      in if pr_TenantID q = [] \<or> pr_LeaseID q = [] \<or> pr_OwnerSubjectID q = [] \<or> pr_ServerID q = [] \<or> pr_StackID q = [] \<or>
           pr_ServerGeneration q = 0 \<or> \<not> validResourceGenerationDigest (pr_ExpectedResourceGenerationDigest q) \<or>
           pr_HostKey q = [] \<or> int (length (pr_HostKey q)) > 16 * 1024 then (Inl ErrSSHHostKeyBinding, s)
         else if \<not> parses (pr_HostKey q) then (Inl ErrSSHHostKeyBinding, s)
         else Store_PinSSHHostKey q s)"

definition RecordOperation :: "gtime \<Rightarrow> OperationEvent \<Rightarrow> MemoryStore \<Rightarrow> lease_error option \<times> MemoryStore" where
  "RecordOperation now e0 s =
     (let e = e0\<lparr>oe_TenantID := TrimSpace (oe_TenantID e0), oe_EventType := TrimSpace (oe_EventType e0),
           oe_Status := TrimSpace (oe_Status e0), oe_Actor := TrimSpace (oe_Actor e0), oe_Error := TrimSpace (oe_Error e0),
           oe_ResourceGenerationDigest := TrimSpace (oe_ResourceGenerationDigest e0)\<rparr>
      in if oe_TenantID e = [] then (Some ErrTenantRequired, s)
         else if oe_LeaseID e = [] then (Some ErrLeaseNotFound, s)
         else if decommission_proof e \<and> \<not> validResourceGenerationDigest (oe_ResourceGenerationDigest e)
         then (Some ErrResourceGenerationDigest, s)
         else AppendOperation (e\<lparr>oe_CreatedAt := (if IsZero (oe_CreatedAt e) then now else oe_CreatedAt e),
             oe_Actor := (if oe_Actor e = [] then OperationActorSystem else oe_Actor e)\<rparr>) s)"

section \<open>Execution authority and inventory\<close>

definition LegacySimulate :: string where "LegacySimulate = ''legacy_simulate''"
definition TechStackProviderControl :: string where "TechStackProviderControl = ''techstack_provider_control''"

definition normalizeLeaseExecutionAuthority :: "string \<Rightarrow> string" where
  "normalizeLeaseExecutionAuthority a = ToLower (TrimSpace a)"

definition validateLeaseExecutionAuthority :: "string \<Rightarrow> lease_error option" where
  "validateLeaseExecutionAuthority a =
     (if normalizeLeaseExecutionAuthority a = LegacySimulate \<or> normalizeLeaseExecutionAuthority a = TechStackProviderControl
      then None else Some ErrLeaseExecutionAuthorityUnbound)"

definition ExecutionAuthority :: "string \<Rightarrow> string \<Rightarrow> MemoryStore \<Rightarrow> lease_error + string" where
  "ExecutionAuthority tenantID0 leaseID0 s =
     (let tenantID = TrimSpace tenantID0; leaseID = TrimSpace leaseID0 in
      if tenantID = [] then Inl ErrTenantRequired
      else if leaseID = [] then Inl ErrLeaseNotFound
      else case fmlookup (ms_executionAuthorities s) (tenantID, leaseID) of
          None \<Rightarrow> Inl ErrLeaseExecutionAuthorityUnbound
        | Some a \<Rightarrow>
            (case validateLeaseExecutionAuthority a of
               Some e \<Rightarrow> Inl e
             | None \<Rightarrow> Inr (normalizeLeaseExecutionAuthority a)))"

datatype LeaseAuthorityState = AuthorityUnbound | LegacyQuarantined | NativeInactive | StateNativeActive

record LeaseInventoryRecord =
  ir_Lease :: Lease
  ir_ExecutionAuthority :: string
  ir_AuthorityState :: LeaseAuthorityState

definition NativeActive :: "LeaseInventoryRecord \<Rightarrow> bool" where
  "NativeActive r \<longleftrightarrow>
     normalizeLeaseExecutionAuthority (ir_ExecutionAuthority r) = TechStackProviderControl \<and> ir_AuthorityState r = StateNativeActive"

definition leaseLifecycleActive :: "gtime \<Rightarrow> Lease \<Rightarrow> bool" where
  "leaseLifecycleActive now l \<longleftrightarrow> le_DesiredState l = DesiredStateRunning \<and> ActiveAt now l"

definition classifyLeaseInventory :: "Lease \<times> string option \<Rightarrow> gtime \<Rightarrow> lease_error + LeaseInventoryRecord" where
  "classifyLeaseInventory row now =
     (case row of
        (l, None) \<Rightarrow> Inr \<lparr>ir_Lease = l, ir_ExecutionAuthority = [], ir_AuthorityState = AuthorityUnbound\<rparr>
      | (l, Some a0) \<Rightarrow>
          let a = normalizeLeaseExecutionAuthority a0 in
          case validateLeaseExecutionAuthority a of
            Some e \<Rightarrow> Inl e
          | None \<Rightarrow>
              Inr \<lparr>ir_Lease = l, ir_ExecutionAuthority = a,
                ir_AuthorityState =
                  (if a = LegacySimulate then LegacyQuarantined
                   else if leaseLifecycleActive now l then StateNativeActive else NativeInactive)\<rparr>)"

definition getInventory :: "string \<Rightarrow> string \<Rightarrow> MemoryStore \<Rightarrow> lease_error + (Lease \<times> string option)" where
  "getInventory tenantID0 leaseID s =
     (let tenantID = TrimSpace tenantID0 in
      if tenantID = [] then Inl ErrTenantRequired
      else case fmlookup (ms_leases s) leaseID of
          None \<Rightarrow> Inl ErrLeaseNotFound
        | Some l \<Rightarrow>
            if tenantIDFromLease l \<noteq> Inr tenantID then Inl ErrLeaseNotFound
            else Inr (l, fmlookup (ms_executionAuthorities s) (tenantID, leaseID)))"

definition listInventoryByTenant :: "string \<Rightarrow> MemoryStore \<Rightarrow> lease_error + (Lease \<times> string option) list" where
  "listInventoryByTenant tenantID0 s =
     (let tenantID = TrimSpace tenantID0 in
      if tenantID = [] then Inl ErrTenantRequired
      else Inr (sort_key (\<lambda>r. le_ID (fst r))
        (map (\<lambda>l. (l, fmlookup (ms_executionAuthorities s) (tenantID, le_ID l)))
          (filter (\<lambda>l. tenantIDFromLease l = Inr tenantID) (map_values (ms_leases s))))))"

definition GetInventory :: "string \<Rightarrow> string \<Rightarrow> gtime \<Rightarrow> MemoryStore \<Rightarrow> lease_error + LeaseInventoryRecord" where
  "GetInventory tenantID0 leaseID now s =
     (let tenantID = TrimSpace tenantID0 in
      if tenantID = [] then Inl ErrTenantRequired
      else case getInventory tenantID leaseID s of
          Inl e \<Rightarrow> Inl e
        | Inr row \<Rightarrow> classifyLeaseInventory row now)"

fun classify_all :: "gtime \<Rightarrow> (Lease \<times> string option) list \<Rightarrow> lease_error + LeaseInventoryRecord list" where
  "classify_all now [] = Inr []"
| "classify_all now (row # rows) =
     (case classifyLeaseInventory row now of
        Inl e \<Rightarrow> Inl e
      | Inr r \<Rightarrow> (case classify_all now rows of Inl e \<Rightarrow> Inl e | Inr rs \<Rightarrow> Inr (r # rs)))"

definition ListInventoryByTenant :: "string \<Rightarrow> gtime \<Rightarrow> MemoryStore \<Rightarrow> lease_error + LeaseInventoryRecord list" where
  "ListInventoryByTenant tenantID0 now s =
     (let tenantID = TrimSpace tenantID0 in
      if tenantID = [] then Inl ErrTenantRequired
      else case listInventoryByTenant tenantID s of
          Inl e \<Rightarrow> Inl e
        | Inr rows \<Rightarrow> classify_all now rows)"

section \<open>Callers\<close>

text \<open>The patches that have read their lease and not yet written it.\<close>

record lsys =
  store :: MemoryStore
  patches :: "(string \<times> Lease) list"

datatype laction =
    LCreate "string option" gtime Lease string
  | LPatchRead string string PatchRequest gtime
  | LPatchWrite nat
  | LPin "string \<Rightarrow> bool" SSHHostKeyPinRequest
  | LRecord gtime OperationEvent

fun lexec :: "laction \<Rightarrow> lsys \<Rightarrow> lsys" where
  "lexec (LCreate g now l key) s = s\<lparr>store := snd (CreateOrUpdate g now l key (store s))\<rparr>"
| "lexec (LPatchRead t i q now) s =
     (case patch_read t i q now (store s) of
        Inr (PatchWrite l) \<Rightarrow> s\<lparr>patches := patches s @ [(patch_tenant t q, l)]\<rparr>
      | _ \<Rightarrow> s)"
| "lexec (LPatchWrite k) s =
     (if k < length (patches s)
      then s\<lparr>store := snd (Store_Update (fst (patches s ! k)) (snd (patches s ! k)) (store s)),
             patches := take k (patches s) @ drop (Suc k) (patches s)\<rparr>
      else s)"
| "lexec (LPin parses q) s = s\<lparr>store := snd (PinSSHHostKey parses q (store s))\<rparr>"
| "lexec (LRecord now e) s = s\<lparr>store := snd (RecordOperation now e (store s))\<rparr>"

definition lstep :: "lsys \<Rightarrow> lsys \<Rightarrow> bool" where
  "lstep s t \<longleftrightarrow> (\<exists>a. lexec a s = t)"

text \<open>The bindings of execution authorities come from elsewhere and stay as they are.\<close>

definition linit :: "lsys \<Rightarrow> bool" where
  "linit s \<longleftrightarrow> (\<exists>b. store s = NewMemoryStore\<lparr>ms_executionAuthorities := b\<rparr>) \<and> patches s = []"

end
