(* ===== verification/Lease_Safety.thy ===== *)
theory Lease_Safety
  imports Lease_Service
begin

text \<open>
  Safety of the lease authority: what every call keeps of a stored lease, the binding of a
  decommission claim to its resource generation, and the separation of tenants.
\<close>

section \<open>What calls keep of a lease\<close>

definition lease_kept :: "Lease \<Rightarrow> Lease \<Rightarrow> bool" where
  "lease_kept l l' \<longleftrightarrow>
     tenantIDFromLease l' = tenantIDFromLease l \<and> ResourceGenerationID l' = ResourceGenerationID l \<and>
     (le_CancelledAt l \<noteq> None \<longrightarrow> le_CancelledAt l' = le_CancelledAt l \<and>
        (le_DesiredState l' = DesiredStateRunning \<longrightarrow> le_DesiredState l = DesiredStateRunning)) \<and>
     (decommission_claim l \<noteq> [] \<longrightarrow> decommission_claim l' = decommission_claim l) \<and>
     (ssh_host_key l \<noteq> [] \<longrightarrow> ssh_host_key l' = ssh_host_key l)"

lemma lease_kept_refl [simp]: "lease_kept l l" by (simp add: lease_kept_def)

lemma lease_kept_trans: "lease_kept a b \<Longrightarrow> lease_kept b c \<Longrightarrow> lease_kept a c"
  unfolding lease_kept_def by auto

text \<open>A claim names the generation of the lease that carries it.\<close>

definition claim_bound :: "Lease \<Rightarrow> bool" where
  "claim_bound l \<longleftrightarrow>
     decommission_claim l = [] \<or>
     (\<exists>t. tenantIDFromLease l = Inr t \<and> ResourceGenerationDigest t l = Inr (decommission_claim l))"

definition store_ok :: "MemoryStore \<Rightarrow> bool" where
  "store_ok m \<longleftrightarrow>
     (\<forall>k l. fmlookup (ms_leases m) k = Some l \<longrightarrow> le_ID l = k \<and> \<not> isl (tenantIDFromLease l) \<and> claim_bound l)"

definition store_kept :: "MemoryStore \<Rightarrow> MemoryStore \<Rightarrow> bool" where
  "store_kept m m' \<longleftrightarrow>
     (\<forall>k l. fmlookup (ms_leases m) k = Some l \<longrightarrow> (\<exists>l'. fmlookup (ms_leases m') k = Some l' \<and> lease_kept l l'))"

lemma store_kept_refl [simp]: "store_kept m m" by (auto simp: store_kept_def)

lemma store_kept_trans: "store_kept a b \<Longrightarrow> store_kept b c \<Longrightarrow> store_kept a c"
  unfolding store_kept_def by (metis lease_kept_trans)

text \<open>Writing one lease.\<close>

lemma store_write:
  assumes "store_ok m" "ms_leases m' = fmupd k l (ms_leases m)" "le_ID l = k" "\<not> isl (tenantIDFromLease l)" "claim_bound l"
    and "\<And>x. fmlookup (ms_leases m) k = Some x \<Longrightarrow> lease_kept x l"
  shows "store_ok m' \<and> store_kept m m'"
  using assms by (auto simp: store_ok_def store_kept_def)

lemma metadata_set [simp]: "metadata k (setLeaseMetadata k' v l) = (if k = k' then v else metadata k l)"
  by (simp add: metadata_def setLeaseMetadata_def)

lemma set_metadata_sel [simp]:
  "le_ID (setLeaseMetadata k v l) = le_ID l" "le_Subject (setLeaseMetadata k v l) = le_Subject l"
  "le_Resource (setLeaseMetadata k v l) = le_Resource l" "le_CancelledAt (setLeaseMetadata k v l) = le_CancelledAt l"
  "le_DesiredState (setLeaseMetadata k v l) = le_DesiredState l" "le_RenewedAt (setLeaseMetadata k v l) = le_RenewedAt l"
  by (simp_all add: setLeaseMetadata_def)

lemma tenant_cong: "le_Subject l' = le_Subject l \<Longrightarrow> tenantIDFromLease l' = tenantIDFromLease l"
  by (simp add: tenantIDFromLease_def)

lemma tenant_set [simp]: "tenantIDFromLease (setLeaseMetadata k v l) = tenantIDFromLease l"
  by (rule tenant_cong) simp

lemma digest_cong:
  assumes "le_ID l' = le_ID l" "le_Subject l' = le_Subject l" "le_Resource l' = le_Resource l"
    "ResourceGenerationID l' = ResourceGenerationID l"
  shows "ResourceGenerationDigest t l' = ResourceGenerationDigest t l"
  unfolding ResourceGenerationDigest_def digest_payload_def tenant_cong [OF assms(2)] assms(1,3,4) ..

lemmas metadata_keys = MetadataKeyResourceGenerationID_def MetadataKeyDecommissionClaimDigest_def MetadataKeySSHHostKey_def

section \<open>Each call\<close>

lemma upsert_inv:
  assumes "store_ok m" "claim_bound l"
  shows "store_ok (snd (Upsert l key m)) \<and> store_kept m (snd (Upsert l key m))"
proof (cases "tenantIDFromLease l")
  case (Inr t)
  show ?thesis
  proof (cases "snd (Upsert l key m) = m")
    case False
    then have n: "fmlookup (ms_leases m) (le_ID l) = None"
      "snd (Upsert l key m) = put_lease l (bindIdempotencyKeyLocked t (TrimSpace key) (le_ID l) m)"
      using Inr by (auto simp: Upsert_def upsertLocked_def Let_def split: option.splits sum.splits if_splits)
    show ?thesis
    proof (rule store_write [OF assms(1)])
      show "ms_leases (snd (Upsert l key m)) = fmupd (le_ID l) l (ms_leases m)"
        unfolding n(2) by (simp add: put_lease_def bindIdempotencyKeyLocked_def)
    qed (use assms(2) Inr n(1) in simp_all)
  qed (use assms(1) in simp)
qed (use assms(1) in \<open>simp add: Upsert_def\<close>)

lemma create_inv:
  assumes "store_ok m"
  shows "store_ok (snd (CreateOrUpdate g now l key m)) \<and> store_kept m (snd (CreateOrUpdate g now l key m))"
proof (cases "snd (CreateOrUpdate g now l key m) = m")
  case False
  then obtain x where x: "decommission_claim x = []" "CreateOrUpdate g now l key m = Upsert x (TrimSpace key) m"
    by (auto simp: CreateOrUpdate_def Let_def split: sum.splits option.splits if_splits)
      (force simp: decommission_claim_def metadata_def setLeaseMetadata_def)+
  then show ?thesis using upsert_inv [OF assms] by (simp add: claim_bound_def)
qed (use assms in simp)

lemma update_refused_None:
  assumes "update_refused x l = None"
  shows "ResourceGenerationID l = ResourceGenerationID x"
    "le_CancelledAt x \<noteq> None \<Longrightarrow> le_CancelledAt l = le_CancelledAt x \<and> le_DesiredState l \<noteq> DesiredStateRunning"
    "decommission_claim x \<noteq> [] \<Longrightarrow> decommission_claim l = decommission_claim x"
    "claim_bound l" "ssh_host_key l = ssh_host_key x"
proof -
  have e: "ensureResourceGenerationUnchanged x l = None" "ensureCancellationMonotonic x l = None"
    "ensureDecommissionClaimUnchanged x l = None" "ensureSSHHostKeyUnchanged x l = None"
    using assms by (auto simp: update_refused_def split: option.splits)
  show "ResourceGenerationID l = ResourceGenerationID x" using e(1) by (simp add: ensureResourceGenerationUnchanged_def split: if_splits)
  show "le_CancelledAt x \<noteq> None \<Longrightarrow> le_CancelledAt l = le_CancelledAt x \<and> le_DesiredState l \<noteq> DesiredStateRunning"
    using e(2) by (auto simp: ensureCancellationMonotonic_def DesiredStateRunning_def DesiredStateStopped_def DesiredStateArchived_def split: if_splits)
  show "decommission_claim x \<noteq> [] \<Longrightarrow> decommission_claim l = decommission_claim x" "claim_bound l"
    using e(3) by (auto simp: ensureDecommissionClaimUnchanged_def claim_bound_def split: if_splits sum.splits)
  show "ssh_host_key l = ssh_host_key x" using e(4) by (simp add: ensureSSHHostKeyUnchanged_def split: if_splits)
qed

text \<open>The one branch of \<^verbatim>\<open>Update\<close> that writes.\<close>

lemma update_cases:
  obtains e where "Store_Update t l m = (Inl e, m)"
  | x where "fmlookup (ms_leases m) (le_ID l) = Some x" "tenantIDFromLease x = Inr (TrimSpace t)"
    "tenantIDFromLease l = Inr (TrimSpace t)" "update_refused x l = None" "Store_Update t l m = (Inr l, put_lease l m)"
proof (cases "TrimSpace t \<noteq> [] \<and> tenantIDFromLease l = Inr (TrimSpace t)")
  case True
  show ?thesis
  proof (cases "fmlookup (ms_leases m) (le_ID l)")
    case None
    then have "Store_Update t l m = (Inl ErrLeaseNotFound, m)" using True by (simp add: Store_Update_def)
    then show ?thesis by (rule that(1))
  next
    case (Some x)
    show ?thesis
    proof (cases "tenantIDFromLease x = Inr (TrimSpace t)")
      case x: True
      show ?thesis
      proof (cases "update_refused x l")
        case None
        then have "Store_Update t l m = (Inr l, put_lease l m)" using True Some x by (simp add: Store_Update_def)
        then show ?thesis using that(2) [OF Some x _ None] True by blast
      next
        case (Some e)
        then have "Store_Update t l m = (Inl e, m)"
          using True \<open>fmlookup (ms_leases m) (le_ID l) = Some x\<close> x by (simp add: Store_Update_def)
        then show ?thesis by (rule that(1))
      qed
    next
      case False
      then have "Store_Update t l m = (Inl ErrLeaseNotFound, m)" using True Some by (simp add: Store_Update_def)
      then show ?thesis by (rule that(1))
    qed
  qed
next
  case False
  then have "\<exists>e. Store_Update t l m = (Inl e, m)"
    by (cases "tenantIDFromLease l") (auto simp: Store_Update_def Let_def)
  then show ?thesis using that(1) by blast
qed

lemma update_inv:
  assumes "store_ok m"
  shows "store_ok (snd (Store_Update t l m)) \<and> store_kept m (snd (Store_Update t l m))"
proof (rule update_cases [of t l m])
  fix x
  assume x: "fmlookup (ms_leases m) (le_ID l) = Some x" "tenantIDFromLease x = Inr (TrimSpace t)"
    "tenantIDFromLease l = Inr (TrimSpace t)" "update_refused x l = None" "Store_Update t l m = (Inr l, put_lease l m)"
  note u = update_refused_None [OF x(4)]
  show ?thesis
  proof (rule store_write [OF assms])
    show "ms_leases (snd (Store_Update t l m)) = fmupd (le_ID l) l (ms_leases m)" by (simp add: x(5) put_lease_def)
    show "lease_kept z l" if "fmlookup (ms_leases m) (le_ID l) = Some z" for z
      using that x(1-3) u unfolding lease_kept_def by auto
  qed (use x(3) u(4) in simp_all)
qed (use assms in simp)

lemma pin_cases:
  obtains "snd (Store_PinSSHHostKey q m) = m"
  | x where "fmlookup (ms_leases m) (pr_LeaseID q) = Some x" "tenantIDFromLease x = Inr (pr_TenantID q)" "ssh_host_key x = []"
    "ms_leases (snd (Store_PinSSHHostKey q m)) = fmupd (pr_LeaseID q) (setLeaseMetadata MetadataKeySSHHostKey (pr_HostKey q) x) (ms_leases m)"
proof (cases "snd (Store_PinSSHHostKey q m) = m")
  case False
  then show ?thesis using that(2)
    by (auto simp: Store_PinSSHHostKey_def Let_def split: option.splits if_splits)
qed (rule that(1))

lemma pin_metadata:
  "decommission_claim (setLeaseMetadata MetadataKeySSHHostKey v x) = decommission_claim x"
  "ResourceGenerationID (setLeaseMetadata MetadataKeySSHHostKey v x) = ResourceGenerationID x"
  by (simp_all add: decommission_claim_def ResourceGenerationID_def metadata_keys)

lemma pin_inv:
  assumes "store_ok m"
  shows "store_ok (snd (Store_PinSSHHostKey q m)) \<and> store_kept m (snd (Store_PinSSHHostKey q m))"
proof (rule pin_cases [of q m])
  fix x
  let ?l = "setLeaseMetadata MetadataKeySSHHostKey (pr_HostKey q) x"
  assume x: "fmlookup (ms_leases m) (pr_LeaseID q) = Some x" "tenantIDFromLease x = Inr (pr_TenantID q)" "ssh_host_key x = []"
    "ms_leases (snd (Store_PinSSHHostKey q m)) = fmupd (pr_LeaseID q) ?l (ms_leases m)"
  have o: "le_ID x = pr_LeaseID q" "claim_bound x" using assms x(1) by (auto simp: store_ok_def)
  have d: "ResourceGenerationDigest u ?l = ResourceGenerationDigest u x" for u
    by (rule digest_cong) (simp_all add: pin_metadata)
  show ?thesis
  proof (rule store_write [OF assms x(4)])
    show "claim_bound ?l" using o(2) by (simp add: claim_bound_def pin_metadata d)
    show "lease_kept z ?l" if "fmlookup (ms_leases m) (pr_LeaseID q) = Some z" for z
      using that x(1,3) by (simp add: lease_kept_def pin_metadata)
  qed (use o(1) x(2) in simp_all)
qed (use assms in simp)

lemma service_pin_cases: "\<exists>q'. snd (PinSSHHostKey parses q m) = m \<or> snd (PinSSHHostKey parses q m) = snd (Store_PinSSHHostKey q' m)"
  by (auto simp: PinSSHHostKey_def Let_def)

lemma record_leases: "ms_leases (snd (RecordOperation now e m)) = ms_leases m"
  by (simp add: RecordOperation_def AppendOperation_def Let_def)

lemma lexec_inv:
  assumes "store_ok (store s)"
  shows "store_ok (store (lexec a s)) \<and> store_kept (store s) (store (lexec a s))"
proof (cases a)
  case (LCreate g now l key)
  then show ?thesis using create_inv [OF assms] by simp
next
  case (LPatchRead t i q now)
  then show ?thesis using assms by (auto split: sum.splits patch_plan.splits)
next
  case (LPatchWrite k)
  then show ?thesis using update_inv [OF assms] assms by simp
next
  case (LPin parses q)
  then show ?thesis using service_pin_cases [of parses q "store s"] pin_inv [OF assms] assms by auto
next
  case (LRecord now e)
  then show ?thesis using assms by (simp add: store_ok_def store_kept_def record_leases)
qed

interpretation leases: invariant_system linit lstep "\<lambda>s. store_ok (store s)"
proof
  show "store_ok (store s)" if "linit s" for s using that by (auto simp: linit_def store_ok_def NewMemoryStore_def)
  show "store_ok (store t)" if "store_ok (store s)" "lstep s t" for s t using that lexec_inv by (auto simp: lstep_def)
qed

lemma lsteps_kept:
  assumes "lstep\<^sup>*\<^sup>* s t" "store_ok (store s)"
  shows "store_kept (store s) (store t)"
  using assms
proof (induction rule: rtranclp_induct)
  case (step u v)
  then have "store_ok (store u)" using leases.steps_inv by blast
  then have "store_kept (store u) (store v)" using step.hyps(2) lexec_inv by (auto simp: lstep_def)
  then show ?case using step store_kept_trans by blast
qed simp

end
