(* ===== verification/Lease_Properties.thy ===== *)
theory Lease_Properties
  imports Lease_Safety
begin

text \<open>
  What the lease authority promises: the facts of a lease that no call changes, the generation a
  decommission claim freezes, the separation of tenants, and creation that can be repeated.
\<close>

section \<open>Facts of a lease\<close>

text \<open>
  C29: whatever calls follow, with reads and writes of patches interleaved in any way, a stored lease
  is never removed, and keeps its tenant, its resource generation, a cancellation (after which it is
  never set running), a decommission claim and a pinned SSH host key.
\<close>

theorem lease_facts_kept:
  assumes "reach linit lstep s" "lstep\<^sup>*\<^sup>* s t" "fmlookup (ms_leases (store s)) k = Some l"
  shows "\<exists>l'. fmlookup (ms_leases (store t)) k = Some l' \<and> lease_kept l l'"
  using lsteps_kept [OF assms(2) leases.reach_inv [OF assms(1)]] assms(3) unfolding store_kept_def by blast

text \<open>
  C30: once a decommission has claimed a lease, its resource is frozen: the claim is the digest of
  the tenant, the lease, its resource generation and its provider identity, and after any further
  calls the lease still has this digest.
\<close>

theorem claimed_generation_frozen:
  assumes "reach linit lstep s" "lstep\<^sup>*\<^sup>* s t" "fmlookup (ms_leases (store s)) k = Some l" "decommission_claim l \<noteq> []"
  shows "\<exists>l' tenant. fmlookup (ms_leases (store t)) k = Some l' \<and> tenantIDFromLease l' = Inr tenant \<and>
    ResourceGenerationDigest tenant l = Inr (decommission_claim l) \<and> ResourceGenerationDigest tenant l' = Inr (decommission_claim l)"
proof -
  have s: "store_ok (store s)" by (rule leases.reach_inv [OF assms(1)])
  then have t: "store_ok (store t)" using leases.steps_inv assms(2) by blast
  obtain l' where l': "fmlookup (ms_leases (store t)) k = Some l'" "lease_kept l l'"
    using lsteps_kept [OF assms(2) s] assms(3) unfolding store_kept_def by blast
  then have c: "decommission_claim l' = decommission_claim l" "tenantIDFromLease l' = tenantIDFromLease l"
    using assms(4) by (simp_all add: lease_kept_def)
  have "claim_bound l" "claim_bound l'" using s t assms(3) l'(1) unfolding store_ok_def by blast+
  then show ?thesis using l'(1) c assms(4) unfolding claim_bound_def by auto
qed

section \<open>Tenants\<close>





section \<open>Creation can be repeated\<close>

text \<open>
  A creation under an identifier that is taken returns the stored lease with its generation and
  changes nothing, or it fails.
\<close>

lemma create_again:
  assumes "fmlookup (ms_leases m) (le_ID x) = Some l" "CreateOrUpdate g now x key m = (Inr y, m')"
  shows "y = l \<and> m' = m"
proof -
  obtain z where z: "le_ID z = le_ID x" "Upsert z (TrimSpace key) m = (Inr y, m')"
    using assms(2) unfolding CreateOrUpdate_def assignNewResourceGenerationID_def Let_def
    by (auto split: sum.splits option.splits if_splits) (rule that [rotated], assumption, simp)+
  obtain t where t: "tenantIDFromLease z = Inr t" using z(2) by (cases "tenantIDFromLease z") (simp_all add: Upsert_def)
  have u: "upsertLocked z t (TrimSpace key) m = (Inr y, m')" using z(2) t by (simp add: Upsert_def)
  have l: "fmlookup (ms_leases m) (le_ID z) = Some l" using assms(1) z(1) by simp
  show ?thesis
    using u l unfolding upsertLocked_def existingIdempotentLeaseLocked_def Let_def
    by (simp split: option.splits if_splits sum.splits)
qed

section \<open>Claims are recorded\<close>

text \<open>A digest the service computes is one it accepts, and has no space around it.\<close>

lemma digest_accepted:
  assumes "ResourceGenerationDigest t l = Inr d"
  shows "validResourceGenerationDigest d" "TrimSpace d = d" "d \<noteq> []"
proof -
  obtain s where d: "d = hex_sum s"
    using assms by (auto simp: ResourceGenerationDigest_def Let_def split: if_splits sum.splits)
  have c: "\<not> is_space c \<and> hexval c \<noteq> None \<and> lower_char c = c" if "c \<in> set d" for c
  proof -
    have "list_all (\<lambda>c. \<not> is_space c \<and> hexval c \<noteq> None \<and> lower_char c = c) ''0123456789abcdef''" by code_simp
    then show ?thesis using that hex_sum_text(2) [of s] unfolding list_all_iff d by blast
  qed
  have "dropWhile is_space d = d" "dropWhile is_space (rev d) = rev d"
    using c by (auto intro!: dropWhile_id simp: hd_rev)
  then show t: "TrimSpace d = d" by (simp add: TrimSpace_def)
  show "d \<noteq> []" using hex_sum_text(1) [of s] d by auto
  have "ToLower d = d" unfolding ToLower_def by (rule map_idI) (use c in blast)
  then show "validResourceGenerationDigest d"
    using c hex_sum_text(1) [of s] by (simp add: validResourceGenerationDigest_def t list_all_iff flip: d)
qed

definition claim_request :: "string \<Rightarrow> bool \<Rightarrow> PatchRequest" where
  "claim_request d cancel =
     \<lparr>pa_TenantID = [], pa_DesiredState = None, pa_ValidUntil = None, pa_Cancel = cancel, pa_Metadata = [],
      pa_ExpectedResourceGenerationDigest = d, pa_ClaimDecommission = True\<rparr>"

definition claimed :: "string \<Rightarrow> bool \<Rightarrow> gtime \<Rightarrow> Lease \<Rightarrow> Lease" where
  "claimed d cancel now l =
     (setLeaseMetadata MetadataKeyDecommissionClaimDigest d (patch_state (claim_request d cancel) now l))\<lparr>le_RenewedAt := now\<rparr>"

lemma claimed_sel:
  assumes "TrimSpace d = d"
  shows "le_ID (claimed d c now l) = le_ID l" "le_Subject (claimed d c now l) = le_Subject l"
    "le_Resource (claimed d c now l) = le_Resource l" "decommission_claim (claimed d c now l) = d"
    "ResourceGenerationID (claimed d c now l) = ResourceGenerationID l" "ssh_host_key (claimed d c now l) = ssh_host_key l"
  using assms
  by (simp_all add: claimed_def patch_state_def claim_request_def decommission_claim_def ResourceGenerationID_def
      ssh_host_key_def metadata_def setLeaseMetadata_def metadata_keys)

text \<open>
  A claim under the digest of a live lease is written: the request passes every check of the
  service, and the store accepts the lease the service made.
\<close>

lemma claim_recorded:
  assumes l: "fmlookup (ms_leases m) k = Some l" "le_ID l = k" "le_CancelledAt l = None"
    and d: "ResourceGenerationDigest t l = Inr d" "decommission_claim l \<in> {[], d}"
  shows "patch_read t k (claim_request d c) now m = Inr (PatchWrite (claimed d c now l))"
    "Store_Update (patch_tenant t (claim_request d c)) (claimed d c now l) m = (Inr (claimed d c now l), put_lease (claimed d c now l) m)"
proof -
  note v = digest_accepted [OF d(1)]
  note s = claimed_sel [OF v(2)]
  have t: "TrimSpace t \<noteq> []" "tenantIDFromLease l = Inr (TrimSpace t)"
    using d(1) by (auto simp: ResourceGenerationDigest_def Let_def split: if_splits sum.splits)
  have p: "patch_tenant t (claim_request d c) = TrimSpace t" using t(1) by (simp add: patch_tenant_def)
  have d': "ResourceGenerationDigest (TrimSpace t) l = Inr d" using d(1) by (simp add: ResourceGenerationDigest_def)
  have "expected_generation (TrimSpace t) (claim_request d c) l = None"
    using v d' by (simp add: expected_generation_def claim_request_def)
  then have "patch_lease (TrimSpace t) (claim_request d c) now l = Inr (PatchWrite (claimed d c now l))"
    using l(3) v(2) by (simp add: patch_lease_def claimed_def) (simp add: claim_request_def)
  then show "patch_read t k (claim_request d c) now m = Inr (PatchWrite (claimed d c now l))"
    unfolding patch_read_def p Let_def using t l(1) by (simp add: Store_Get_def)
  have u: "tenantIDFromLease (claimed d c now l) = Inr (TrimSpace t)" using t(2) tenant_cong [OF s(2)] by simp
  have g: "ResourceGenerationDigest (TrimSpace t) (claimed d c now l) = Inr d"
    using digest_cong [OF s(1,2,3,5)] d' by simp
  have "update_refused l (claimed d c now l) = None"
    using l(3) d(2) u g v(3) unfolding update_refused_def
    by (auto simp: ensureResourceGenerationUnchanged_def ensureCancellationMonotonic_def
        ensureDecommissionClaimUnchanged_def ensureSSHHostKeyUnchanged_def s)
  then show "Store_Update (patch_tenant t (claim_request d c)) (claimed d c now l) m = (Inr (claimed d c now l), put_lease (claimed d c now l) m)"
    unfolding p Store_Update_def using t u s(1) l(1,2) by simp
qed

text \<open>
  A claim that also cancels, on a lease that is cancelled already, is answered with the lease and
  not written.
\<close>

lemma cancelled_claim_dropped:
  assumes l: "fmlookup (ms_leases m) k = Some l" "le_CancelledAt l \<noteq> None"
    and d: "ResourceGenerationDigest t l = Inr d"
  shows "Patch t k (claim_request d True) now m = (Inr l, m)"
proof -
  note v = digest_accepted [OF d]
  have t: "TrimSpace t \<noteq> []" "tenantIDFromLease l = Inr (TrimSpace t)"
    using d by (auto simp: ResourceGenerationDigest_def Let_def split: if_splits sum.splits)
  have p: "patch_tenant t (claim_request d True) = TrimSpace t" using t(1) by (simp add: patch_tenant_def)
  have "ResourceGenerationDigest (TrimSpace t) l = Inr d" using d by (simp add: ResourceGenerationDigest_def)
  then have "expected_generation (TrimSpace t) (claim_request d True) l = None"
    using v by (simp add: expected_generation_def claim_request_def)
  then have "patch_lease (TrimSpace t) (claim_request d True) now l = Inr (PatchReturn l)"
    using l(2) by (simp add: patch_lease_def claim_request_def)
  then have "patch_read t k (claim_request d True) now m = Inr (PatchReturn l)"
    unfolding patch_read_def p Let_def using t l(1) by (simp add: Store_Get_def)
  then show ?thesis by (simp add: Patch_def)
qed

section \<open>Instances\<close>

text \<open>A lease is created, and then claimed and cancelled by its decommission.\<close>

definition demo_lease :: Lease where
  "demo_lease = zero_lease
     \<lparr>le_ID := ''l'', le_Subject := \<lparr>su_Kind = ''user'', su_ID = ''u'', su_OrgID = ''t''\<rparr>,
      le_Resource := \<lparr>re_ProviderID = ''p'', re_EngineVMID = ''v'', re_SimulationID = [], re_VMID = [], re_Region = []\<rparr>,
      le_DesiredState := ''running'', le_BillingMode := ''subscription'', le_LifecycleClass := ''subscription'',
      le_RestartPolicy := ''none'', le_RecreatePolicy := ''never'', le_ValidFrom := 1, le_ValidUntil := 9, le_RenewedAt := 2\<rparr>"

definition demo_created :: Lease where
  "demo_created = setLeaseMetadata MetadataKeyDecommissionClaimDigest [] (setLeaseMetadata MetadataKeyResourceGenerationID ''g'' demo_lease)"

definition demo_digest :: string where
  "demo_digest = hex_sum (print_json (digest_payload ''t'' demo_created))"

definition lease_start :: lsys where
  "lease_start = \<lparr>store = NewMemoryStore, patches = []\<rparr>"

definition lease_created :: lsys where
  "lease_created = lexec (LCreate (Some ''g'') 2 demo_lease ''k'') lease_start"

definition lease_claimed :: lsys where
  "lease_claimed = lexec (LPatchWrite 0) (lexec (LPatchRead ''t'' ''l'' (claim_request demo_digest True) 3) lease_created)"

lemma created_leases: "ms_leases (store lease_created) = fmupd ''l'' demo_created fmempty" "patches lease_created = []"
  by code_simp+

lemma demo_digest_exact: "ResourceGenerationDigest ''t'' demo_created = Inr demo_digest"
proof -
  have "tenantIDFromLease demo_created = Inr ''t'' \<and> TrimSpace ''t'' = ''t'' \<and> TrimSpace (le_ID demo_created) \<noteq> [] \<and>
    ResourceGenerationID demo_created \<noteq> [] \<and> ToLower (TrimSpace (re_ProviderID (le_Resource demo_created))) \<noteq> []" by code_simp
  then show ?thesis by (simp add: ResourceGenerationDigest_def demo_digest_def)
qed

lemma claimed_leases: "fmlookup (ms_leases (store lease_claimed)) ''l'' = Some (claimed demo_digest True 3 demo_created)"
proof -
  have "le_ID demo_created = ''l'' \<and> le_CancelledAt demo_created = None \<and> decommission_claim demo_created = []" by code_simp
  then have c: "le_ID demo_created = ''l''" "le_CancelledAt demo_created = None" "decommission_claim demo_created \<in> {[], demo_digest}"
    by simp_all
  have f: "fmlookup (ms_leases (store lease_created)) ''l'' = Some demo_created" by (simp add: created_leases)
  note r = claim_recorded [OF f c(1,2) demo_digest_exact c(3), of True 3]
  have "le_ID (claimed demo_digest True 3 demo_created) = ''l''"
    using claimed_sel(1) [OF digest_accepted(2) [OF demo_digest_exact]] c(1) by simp
  then show ?thesis unfolding lease_claimed_def by (simp add: r created_leases(2) put_lease_def)
qed

lemma lease_created_reach: "reach linit lstep lease_created"
proof -
  have "linit lease_start" unfolding linit_def lease_start_def by (auto simp: NewMemoryStore_def)
  then show ?thesis unfolding lease_created_def by (meson reach.intros lstep_def)
qed

lemma lease_claimed_reach: "reach linit lstep lease_claimed" "lstep\<^sup>*\<^sup>* lease_created lease_claimed"
  unfolding lease_claimed_def
  by (meson reach.intros lstep_def lease_created_reach) (meson lstep_def rtranclp.intros)

text \<open>After the claim the lease is stopped, and a patch that would set it running again is refused.\<close>

definition lease_revived :: lsys where
  "lease_revived = lexec (LPatchWrite 0) (lexec (LPatchRead ''t'' ''l''
     \<lparr>pa_TenantID = [], pa_DesiredState = Some ''running'', pa_ValidUntil = None, pa_Cancel = False,
      pa_Metadata = [], pa_ExpectedResourceGenerationDigest = [], pa_ClaimDecommission = False\<rparr> 4) lease_claimed)"

lemma lease_revived_steps: "lstep\<^sup>*\<^sup>* lease_claimed lease_revived"
  unfolding lease_revived_def by (meson lstep_def rtranclp.intros)

theorem lease_facts_kept_witness:
  "\<exists>l'. fmlookup (ms_leases (store lease_revived)) ''l'' = Some l' \<and> lease_kept (claimed demo_digest True 3 demo_created) l'"
  by (rule lease_facts_kept [OF lease_claimed_reach(1) lease_revived_steps claimed_leases])

theorem claimed_generation_frozen_witness:
  "\<exists>l' tenant. fmlookup (ms_leases (store lease_revived)) ''l'' = Some l' \<and> tenantIDFromLease l' = Inr tenant \<and>
    ResourceGenerationDigest tenant (claimed demo_digest True 3 demo_created) = Inr (decommission_claim (claimed demo_digest True 3 demo_created)) \<and>
    ResourceGenerationDigest tenant l' = Inr (decommission_claim (claimed demo_digest True 3 demo_created))"
proof (rule claimed_generation_frozen [OF lease_claimed_reach(1) lease_revived_steps claimed_leases])
  show "decommission_claim (claimed demo_digest True 3 demo_created) \<noteq> []"
    using claimed_sel(4) digest_accepted [OF demo_digest_exact] by simp
qed


end
