(* ===== verification/Availability.thy ===== *)
theory Availability
  imports Go_JSON Go_Time Go_Float "HOL-Library.Product_Lexorder"
begin

text \<open>
  The availability of servers (\<^verbatim>\<open>src/pkg/availability\<close>): the recorded transitions of a server are
  folded into segments of one state, downtime episodes, daily buckets and ratios, for one server and for
  a fleet, and a node is classified for planning.  Instants are compared as such; the location of a
  \<^verbatim>\<open>time.Time\<close> is UTC throughout.
\<close>

section \<open>Classes of states\<close>

definition ConnectionConnected :: string where "ConnectionConnected = ''connected''"
definition ConnectionDegraded :: string where "ConnectionDegraded = ''degraded''"
definition ConnectionStale :: string where "ConnectionStale = ''stale''"
definition ConnectionOffline :: string where "ConnectionOffline = ''offline''"
definition ConnectionRevoked :: string where "ConnectionRevoked = ''revoked''"

datatype Class = ClassUnobserved | ClassUp | ClassDown

definition Classify :: "string \<Rightarrow> Class" where
  "Classify state =
     (let s = ToLower (TrimSpace state) in
      if s = ConnectionConnected \<or> s = ConnectionDegraded then ClassUp
      else if s = ConnectionStale \<or> s = ConnectionOffline \<or> s = ConnectionRevoked then ClassDown
      else ClassUnobserved)"

definition severity :: "string \<Rightarrow> int" where
  "severity state =
     (let s = ToLower (TrimSpace state) in
      if s = ConnectionConnected then 1
      else if s = ConnectionDegraded then 2
      else if s = ConnectionStale then 3
      else if s = ConnectionOffline \<or> s = ConnectionRevoked then 4
      else 0)"

section \<open>Reports\<close>

record Window =
  wn_Start :: gtime
  wn_End :: gtime

record Segment =
  sg_State :: string
  sg_From :: gtime
  sg_To :: gtime

text \<open>\<^verbatim>\<open>Time.Sub\<close> saturates, a sum of durations wraps around.\<close>

definition Time_Sub :: "gtime \<Rightarrow> gtime \<Rightarrow> duration" where
  "Time_Sub a b = max (- (2 ^ 63)) (min (2 ^ 63 - 1) (a - b))"

definition add64 :: "duration \<Rightarrow> duration \<Rightarrow> duration" where
  "add64 a b = (a + b + 2 ^ 63) mod 2 ^ 64 - 2 ^ 63"

definition Segment_Duration :: "Segment \<Rightarrow> duration" where
  "Segment_Duration s = Time_Sub (sg_To s) (sg_From s)"

text \<open>\<^verbatim>\<open>Duration.Seconds\<close>: whole seconds and the rest, each a \<^verbatim>\<open>float64\<close>, added.\<close>

definition Seconds :: "duration \<Rightarrow> rat" where
  "Seconds d =
     (let sec = (if d \<ge> 0 then d div second else - (- d div second)); nsec = d - sec * second
      in round53 (round53 (of_int sec) + round53 (of_int nsec / 1000000000)))"

record Episode =
  ep_ServerID :: string
  ep_ServerName :: string
  ep_StartedAt :: gtime
  ep_EndedAt :: "gtime option"
  ep_Seconds :: int
  ep_Ongoing :: bool
  ep_State :: string
  ep_TriggerReason :: string
  ep_TriggerSource :: string
  ep_RecoveryReason :: string
  ep_RecoverySource :: string
  ep_EvidenceRef :: string

record DayBucket =
  db_Day :: string
  db_State :: string

record ServerReport =
  sr_ServerID :: string
  sr_Name :: string
  sr_UptimeRatio :: "rat option"
  sr_ObservedSeconds :: int
  sr_DownSeconds :: int
  sr_Episodes :: "Episode list"
  sr_Days :: "DayBucket list"

record Transition =
  tr_ID :: int
  tr_Dimension :: string
  tr_FromState :: string
  tr_ToState :: string
  tr_ReasonCode :: string
  tr_Source :: string
  tr_ObservedAt :: gtime
  tr_Evidence :: "(string, json) fmap option"

record Input =
  in_ServerID :: string
  in_Name :: string
  in_EnrolledAt :: gtime
  in_CurrentState :: string
  in_Transitions :: "Transition list"

section \<open>Segments\<close>

definition connectionTransitions :: "Window \<Rightarrow> Transition list \<Rightarrow> Transition list" where
  "connectionTransitions w ts =
     sort_key (\<lambda>t. (tr_ObservedAt t, tr_ID t))
       (filter (\<lambda>t. EqualFold (TrimSpace (tr_Dimension t)) ''connection'' \<and>
          \<not> tr_ObservedAt t < wn_Start w \<and> \<not> wn_End w < tr_ObservedAt t) ts)"

definition segments_start :: "Window \<Rightarrow> Input \<Rightarrow> gtime" where
  "segments_start w i =
     (if \<not> IsZero (in_EnrolledAt i) \<and> in_EnrolledAt i > wn_Start w then in_EnrolledAt i else wn_Start w)"

definition initial_state :: "Input \<Rightarrow> Transition list \<Rightarrow> string" where
  "initial_state i ts = (case ts of [] \<Rightarrow> TrimSpace (in_CurrentState i) | t # _ \<Rightarrow> TrimSpace (tr_FromState t))"

text \<open>The loop over the transitions, from the state and the cursor to the end of the window.\<close>

fun segments_loop :: "gtime \<Rightarrow> Transition list \<Rightarrow> string \<Rightarrow> gtime \<Rightarrow> Segment list" where
  "segments_loop end [] state cursor =
     (if end > cursor then [\<lparr>sg_State = state, sg_From = cursor, sg_To = end\<rparr>] else [])"
| "segments_loop end (t # ts) state cursor =
     (if tr_ObservedAt t > cursor
      then \<lparr>sg_State = state, sg_From = cursor, sg_To = tr_ObservedAt t\<rparr> #
        segments_loop end ts (TrimSpace (tr_ToState t)) (tr_ObservedAt t)
      else segments_loop end ts (TrimSpace (tr_ToState t)) cursor)"

definition buildSegments :: "Window \<Rightarrow> Input \<Rightarrow> Transition list \<Rightarrow> Segment list" where
  "buildSegments w i ts =
     (let start = segments_start w i in
      if \<not> wn_End w > start then []
      else segments_loop (wn_End w) ts (initial_state i ts) start)"

section \<open>Episodes\<close>

definition evidenceRef :: "Transition \<Rightarrow> string" where
  "evidenceRef t =
     (case tr_Evidence t of
        None \<Rightarrow> []
      | Some m \<Rightarrow> (case fmlookup m ''evidence_ref'' of Some (JStr s) \<Rightarrow> s | _ \<Rightarrow> []))"

definition entering :: "Transition list \<Rightarrow> (gtime, Transition) fmap" where
  "entering ts = fold (\<lambda>t m. fmupd (tr_ObservedAt t) t m) ts fmempty"

definition closeEpisode :: "Episode \<Rightarrow> gtime \<Rightarrow> (gtime, Transition) fmap \<Rightarrow> Episode" where
  "closeEpisode e endedAt ent =
     (let e1 = e\<lparr>ep_EndedAt := Some endedAt, ep_Seconds := trunc_int (Seconds (Time_Sub endedAt (ep_StartedAt e)))\<rparr>
      in case fmlookup ent endedAt of
          None \<Rightarrow> e1
        | Some t \<Rightarrow> e1\<lparr>ep_RecoveryReason := tr_ReasonCode t, ep_RecoverySource := tr_Source t\<rparr>)"

definition openEpisode :: "Input \<Rightarrow> (gtime, Transition) fmap \<Rightarrow> Segment \<Rightarrow> Episode" where
  "openEpisode i ent s =
     (let e = \<lparr>ep_ServerID = in_ServerID i, ep_ServerName = in_Name i, ep_StartedAt = sg_From s, ep_EndedAt = None,
           ep_Seconds = 0, ep_Ongoing = False, ep_State = sg_State s, ep_TriggerReason = [], ep_TriggerSource = [],
           ep_RecoveryReason = [], ep_RecoverySource = [], ep_EvidenceRef = []\<rparr>
      in case fmlookup ent (sg_From s) of
          None \<Rightarrow> e
        | Some t \<Rightarrow> e\<lparr>ep_TriggerReason := tr_ReasonCode t, ep_TriggerSource := tr_Source t, ep_EvidenceRef := evidenceRef t\<rparr>)"

definition deepen :: "Segment \<Rightarrow> Episode \<Rightarrow> Episode" where
  "deepen s e = (if severity (sg_State s) > severity (ep_State e) then e\<lparr>ep_State := sg_State s\<rparr> else e)"

text \<open>The loop over the segments with the episode that is open.\<close>

fun episodes_loop ::
  "Input \<Rightarrow> (gtime, Transition) fmap \<Rightarrow> Window \<Rightarrow> Segment list \<Rightarrow> Episode option \<Rightarrow> Episode list" where
  "episodes_loop i ent w [] current =
     (case current of
        None \<Rightarrow> []
      | Some e \<Rightarrow> [e\<lparr>ep_Ongoing := True, ep_Seconds := trunc_int (Seconds (Time_Sub (wn_End w) (ep_StartedAt e)))\<rparr>])"
| "episodes_loop i ent w (s # ss) current =
     (if Classify (sg_State s) = ClassDown
      then episodes_loop i ent w ss
        (Some (deepen s (case current of None \<Rightarrow> openEpisode i ent s | Some e \<Rightarrow> e)))
      else case current of
          None \<Rightarrow> episodes_loop i ent w ss None
        | Some e \<Rightarrow> closeEpisode e (sg_From s) ent # episodes_loop i ent w ss None)"

definition buildEpisodes :: "Input \<Rightarrow> Segment list \<Rightarrow> Transition list \<Rightarrow> Window \<Rightarrow> Episode list" where
  "buildEpisodes i ss ts w = episodes_loop i (entering ts) w ss None"

section \<open>Days\<close>

definition day :: duration where "day = 24 * hour"

definition Truncate :: "gtime \<Rightarrow> duration \<Rightarrow> gtime" where
  "Truncate t d = t - t mod d"

text \<open>\<^verbatim>\<open>Format\<close> with the layout of a date; a year has at least four digits.\<close>

definition year_text :: "int \<Rightarrow> string" where
  "year_text y =
     (let n = nat \<bar>y\<bar> in (if y < 0 then ''-'' else []) @ (if n < 10000 then digs 4 n else digits_nat n))"

definition format_day :: "gtime \<Rightarrow> string" where
  "format_day t =
     (let n = t div day; k = (if n < 0 then - n div 146097 + 1 else 0); (y, m, d) = civil (nat (n + 146097 * k))
      in year_text (int y - 400 * k) @ ''-'' @ digs 2 m @ ''-'' @ digs 2 d)"

text \<open>The days a loop visits from one instant to the last before another.\<close>

function days_until :: "gtime \<Rightarrow> gtime \<Rightarrow> gtime list" where
  "days_until d stop = (if d < stop then d # days_until (d + day) stop else [])"
  by auto
termination
  by (relation "measure (\<lambda>(d, stop). nat (stop - d))") (auto simp: day_def hour_def minute_def second_def)

declare days_until.simps [simp del]

definition worst_state :: "(string, string) fmap \<Rightarrow> string \<Rightarrow> string" where
  "worst_state m key = (case fmlookup m key of None \<Rightarrow> [] | Some s \<Rightarrow> s)"

definition mark_day :: "string \<Rightarrow> gtime \<Rightarrow> (string, string) fmap \<Rightarrow> (string, string) fmap" where
  "mark_day state d m =
     (let key = format_day d in if severity state > severity (worst_state m key) then fmupd key state m else m)"

definition worst_days :: "Segment list \<Rightarrow> (string, string) fmap" where
  "worst_days ss =
     fold (\<lambda>s. fold (mark_day (sg_State s)) (days_until (Truncate (sg_From s) day) (sg_To s))) ss fmempty"

definition buildDays :: "Window \<Rightarrow> Segment list \<Rightarrow> DayBucket list" where
  "buildDays w ss =
     map (\<lambda>d. \<lparr>db_Day = format_day d, db_State = worst_state (worst_days ss) (format_day d)\<rparr>)
       (days_until (Truncate (wn_Start w) day) (wn_End w + 1))"

section \<open>The report of a server\<close>

definition class_time :: "Class \<Rightarrow> Segment list \<Rightarrow> duration" where
  "class_time c ss = fold (\<lambda>s t. if Classify (sg_State s) = c then add64 t (Segment_Duration s) else t) ss 0"

definition BuildServerReport :: "Window \<Rightarrow> Input \<Rightarrow> ServerReport" where
  "BuildServerReport w i =
     (let report = \<lparr>sr_ServerID = in_ServerID i, sr_Name = in_Name i, sr_UptimeRatio = None, sr_ObservedSeconds = 0,
           sr_DownSeconds = 0, sr_Episodes = [], sr_Days = []\<rparr>
      in if \<not> wn_End w > wn_Start w then report
         else let transitions = connectionTransitions w (in_Transitions i);
                  segments = buildSegments w i transitions;
                  up = class_time ClassUp segments; down = class_time ClassDown segments; observed = add64 up down
           in report\<lparr>sr_ObservedSeconds := trunc_int (Seconds observed), sr_DownSeconds := trunc_int (Seconds down),
                sr_UptimeRatio := (if observed > 0 then Some (round53 (Seconds up / Seconds observed)) else None),
                sr_Episodes := buildEpisodes i segments transitions w, sr_Days := buildDays w segments\<rparr>)"

section \<open>The class of a node\<close>

definition NodeEvidenceWindow :: "gtime \<Rightarrow> Window" where
  "NodeEvidenceWindow now = \<lparr>wn_Start = now - 14 * day, wn_End = now\<rparr>"

definition NodeAlwaysOnMinUptime :: rat where "NodeAlwaysOnMinUptime = round53 (97 / 100)"
definition NodePartTimeMaxUptime :: rat where "NodePartTimeMaxUptime = round53 (90 / 100)"

definition ClassifyNode :: "ServerReport \<Rightarrow> string" where
  "ClassifyNode r =
     (case sr_UptimeRatio r of
        None \<Rightarrow> ''unknown''
      | Some ratio \<Rightarrow>
          if sr_ObservedSeconds r < 3 * day div second then ''unknown''
          else if ratio \<ge> NodeAlwaysOnMinUptime then ''always-on''
          else if ratio < NodePartTimeMaxUptime then ''part-time''
          else ''unknown'')"

section \<open>The report of a fleet\<close>

record CauseTotal =
  ct_ReasonCode :: string
  ct_Seconds :: int
  ct_Episodes :: int

record FleetReport =
  fr_Start :: gtime
  fr_End :: gtime
  fr_UptimeRatio :: "rat option"
  fr_ObservedSeconds :: int
  fr_DownSeconds :: int
  fr_MTTRSeconds :: "int option"
  fr_ClosedEpisodes :: int
  fr_ByCause :: "CauseTotal list"
  fr_Servers :: "ServerReport list"

definition episode_reason :: "Episode \<Rightarrow> string" where
  "episode_reason e = (let r = TrimSpace (ep_TriggerReason e) in if r = [] then ''unrecorded'' else r)"

definition add_cause :: "Episode \<Rightarrow> (string, CauseTotal) fmap \<Rightarrow> (string, CauseTotal) fmap" where
  "add_cause e m =
     (let reason = episode_reason e;
          total = (case fmlookup m reason of None \<Rightarrow> \<lparr>ct_ReasonCode = reason, ct_Seconds = 0, ct_Episodes = 0\<rparr> | Some c \<Rightarrow> c)
      in fmupd reason (total\<lparr>ct_Seconds := ct_Seconds total + ep_Seconds e, ct_Episodes := ct_Episodes total + 1\<rparr>) m)"

text \<open>The sums of seconds stay far below the range of \<^verbatim>\<open>int64\<close>.\<close>

definition BuildFleetReport :: "Window \<Rightarrow> Input list \<Rightarrow> FleetReport" where
  "BuildFleetReport w inputs =
     (let servers = map (BuildServerReport w) inputs;
          episodes = concat (map sr_Episodes servers);
          observed = sum_list (map sr_ObservedSeconds servers); down = sum_list (map sr_DownSeconds servers);
          closed = filter (\<lambda>e. \<not> ep_Ongoing e) episodes;
          causes = fold add_cause episodes fmempty
      in \<lparr>fr_Start = wn_Start w, fr_End = wn_End w,
           fr_UptimeRatio = (if observed > 0 then Some (round53 (round53 (of_int (observed - down)) / round53 (of_int observed))) else None),
           fr_ObservedSeconds = observed, fr_DownSeconds = down,
           fr_MTTRSeconds = (if closed = [] then None else Some (sum_list (map ep_Seconds closed) div int (length closed))),
           fr_ClosedEpisodes = int (length closed),
           fr_ByCause = sort_key (\<lambda>c. (- ct_Seconds c, ct_ReasonCode c)) (map_values causes),
           fr_Servers = servers\<rparr>)"

end
