(* ===== verification/Availability_Properties.thy ===== *)
theory Availability_Properties
  imports Availability
begin

text \<open>
  The reports on availability against a direct reading of the timeline: the state of a server at
  an instant is the one the last transition up to it entered.
\<close>

section \<open>Segments follow the timeline\<close>

definition state_after :: "Transition list \<Rightarrow> string \<Rightarrow> gtime \<Rightarrow> string" where
  "state_after ts state t =
     (let before = filter (\<lambda>x. tr_ObservedAt x \<le> t) ts
      in if before = [] then state else TrimSpace (tr_ToState (last before)))"

definition state_at :: "Window \<Rightarrow> Input \<Rightarrow> gtime \<Rightarrow> string" where
  "state_at w i t =
     (let ts = connectionTransitions w (in_Transitions i) in state_after ts (initial_state i ts) t)"

lemma state_after_Cons:
  assumes "sorted (map tr_ObservedAt (x # xs))"
  shows "state_after (x # xs) state t =
    (if tr_ObservedAt x \<le> t then state_after xs (TrimSpace (tr_ToState x)) t else state)"
proof (cases "tr_ObservedAt x \<le> t")
  case False
  then have "filter (\<lambda>x. tr_ObservedAt x \<le> t) (x # xs) = []" using assms by (auto simp: filter_empty_conv)
  then show ?thesis using False by (simp add: state_after_def)
qed (simp add: state_after_def)

text \<open>Adjacent, not empty, from one instant to another.\<close>

fun chain :: "gtime \<Rightarrow> gtime \<Rightarrow> Segment list \<Rightarrow> bool" where
  "chain stop c [] \<longleftrightarrow> c = stop"
| "chain stop c (s # ss) \<longleftrightarrow> sg_From s = c \<and> c < sg_To s \<and> chain stop (sg_To s) ss"

lemma chain_le: "chain stop c ss \<Longrightarrow> c \<le> stop"
  by (induction stop c ss rule: chain.induct) auto

lemma chain_from: "chain stop c ss \<Longrightarrow> s \<in> set ss \<Longrightarrow> c \<le> sg_From s \<and> sg_From s < sg_To s \<and> sg_To s \<le> stop"
  by (induction stop c ss rule: chain.induct) (auto dest: chain_le)

lemma segments_chain:
  assumes "\<And>x. x \<in> set ts \<Longrightarrow> tr_ObservedAt x \<le> stop" "c \<le> stop"
  shows "chain stop c (segments_loop stop ts state c)"
  using assms by (induction stop ts state c rule: segments_loop.induct) auto

lemma segments_state:
  assumes "sorted (map tr_ObservedAt ts)" "c \<le> t" "t < stop"
  shows "\<exists>s\<in>set (segments_loop stop ts state c). sg_From s \<le> t \<and> t < sg_To s \<and> sg_State s = state_after ts state t"
  using assms
proof (induction stop ts state c rule: segments_loop.induct)
  case (1 stop state c)
  then show ?case by (simp add: state_after_def)
next
  case (2 stop x xs state c)
  show ?case
  proof (cases "tr_ObservedAt x > c \<and> t < tr_ObservedAt x")
    case True
    then show ?thesis using 2(4) by (simp add: state_after_Cons [OF 2(3)])
  next
    case False
    then have "tr_ObservedAt x \<le> t" "sorted (map tr_ObservedAt xs)" using 2(3,4) by auto
    then show ?thesis using 2 False by (auto simp: state_after_Cons [OF 2(3)])
  qed
qed

lemma chain_unique:
  assumes "chain stop c ss" "s \<in> set ss" "u \<in> set ss" "sg_From s \<le> t" "t < sg_To s" "sg_From u \<le> t" "t < sg_To u"
  shows "s = u"
  using assms
proof (induction stop c ss rule: chain.induct)
  case (2 stop c x xs)
  have "sg_To x \<le> sg_From y" if "y \<in> set xs" for y using chain_from [OF _ that] 2(2) by auto
  then show ?case using 2 by fastforce
qed simp

lemma transitions_sorted:
  "sorted (map tr_ObservedAt (connectionTransitions w ts))"
  "x \<in> set (connectionTransitions w ts) \<Longrightarrow> wn_Start w \<le> tr_ObservedAt x \<and> tr_ObservedAt x \<le> wn_End w"
proof -
  have "sorted (map (\<lambda>t. (tr_ObservedAt t, tr_ID t)) (connectionTransitions w ts))"
    by (simp add: connectionTransitions_def)
  then show "sorted (map tr_ObservedAt (connectionTransitions w ts))"
    unfolding sorted_map by (rule sorted_wrt_mono_rel [rotated]) (auto simp: less_eq_prod_def)
qed (auto simp: connectionTransitions_def)

text \<open>The segments of a report.\<close>

definition report_segments :: "Window \<Rightarrow> Input \<Rightarrow> Segment list" where
  "report_segments w i = buildSegments w i (connectionTransitions w (in_Transitions i))"

lemma report_chain:
  assumes "segments_start w i < wn_End w"
  shows "chain (wn_End w) (segments_start w i) (report_segments w i)"
  using assms transitions_sorted(2) [of _ w "in_Transitions i"]
  by (auto simp: report_segments_def buildSegments_def Let_def intro!: segments_chain)

lemma timeline_faithful:
  assumes "segments_start w i \<le> t" "t < wn_End w"
  shows "\<exists>s\<in>set (report_segments w i). sg_From s \<le> t \<and> t < sg_To s \<and> sg_State s = state_at w i t"
  using segments_state [OF transitions_sorted(1) assms] assms
  by (simp add: report_segments_def buildSegments_def state_at_def Let_def)

section \<open>Episodes are the outages\<close>

definition ep_end :: "Window \<Rightarrow> Episode \<Rightarrow> gtime" where
  "ep_end w e = (case ep_EndedAt e of None \<Rightarrow> wn_End w | Some t \<Rightarrow> t)"

lemma close_sel [simp]:
  "ep_StartedAt (closeEpisode e t ent) = ep_StartedAt e" "ep_EndedAt (closeEpisode e t ent) = Some t"
  "ep_Ongoing (closeEpisode e t ent) = ep_Ongoing e"
  by (simp_all add: closeEpisode_def Let_def split: option.splits)

lemma open_sel [simp]:
  "ep_StartedAt (openEpisode i ent s) = sg_From s" "ep_EndedAt (openEpisode i ent s) = None"
  "ep_Ongoing (openEpisode i ent s) = False"
  by (simp_all add: openEpisode_def Let_def split: option.splits)

lemma deepen_sel [simp]:
  "ep_StartedAt (deepen s e) = ep_StartedAt e" "ep_EndedAt (deepen s e) = ep_EndedAt e"
  "ep_Ongoing (deepen s e) = ep_Ongoing e"
  by (simp_all add: deepen_def)

text \<open>The start of the open episode, or the instant the loop has reached.\<close>

definition open_from :: "gtime \<Rightarrow> Episode option \<Rightarrow> gtime" where
  "open_from c cur = (case cur of None \<Rightarrow> c | Some e \<Rightarrow> ep_StartedAt e)"

definition open_ok :: "gtime \<Rightarrow> Episode option \<Rightarrow> bool" where
  "open_ok c cur \<longleftrightarrow> (case cur of None \<Rightarrow> True | Some e \<Rightarrow> ep_StartedAt e < c \<and> ep_EndedAt e = None \<and> \<not> ep_Ongoing e)"

lemmas open_defs = open_from_def open_ok_def

definition down_at :: "gtime \<Rightarrow> Segment list \<Rightarrow> bool" where
  "down_at t ss \<longleftrightarrow> (\<exists>s\<in>set ss. sg_From s \<le> t \<and> t < sg_To s \<and> Classify (sg_State s) = ClassDown)"

lemma episodes_from:
  assumes "chain (wn_End w) c ss" "open_ok c cur" "e \<in> set (episodes_loop i ent w ss cur)"
  shows "open_from c cur \<le> ep_StartedAt e \<and> ep_StartedAt e < ep_end w e \<and> ep_end w e \<le> wn_End w \<and>
    (ep_Ongoing e \<longleftrightarrow> ep_EndedAt e = None)"
  using assms
proof (induction i ent w ss cur arbitrary: c rule: episodes_loop.induct)
  case (1 i ent w cur)
  then show ?case by (auto simp: open_defs ep_end_def split: option.splits)
next
  case (2 i ent w s ss cur)
  have c: "sg_From s = c" "c < sg_To s" "chain (wn_End w) (sg_To s) ss" using "2.prems"(1) by auto
  show ?case
  proof (cases "Classify (sg_State s) = ClassDown")
    case True
    then show ?thesis using "2.IH"(1) [OF True c(3)] "2.prems"(2,3) c by (force simp: open_defs split: option.splits)
  next
    case False
    show ?thesis
    proof (cases cur)
      case None
      then show ?thesis using "2.IH"(2) [OF False None c(3)] "2.prems"(2,3) False c(2) by (force simp: open_defs)
    next
      case (Some e0)
      then show ?thesis
        using "2.IH"(3) [OF False Some c(3)] "2.prems"(2,3) False c chain_le [OF c(3)] by (force simp: open_defs ep_end_def)
    qed
  qed
qed

lemma episodes_separate:
  assumes "chain (wn_End w) c ss" "open_ok c cur"
  shows "sorted_wrt (\<lambda>e f. ep_end w e < ep_StartedAt f) (episodes_loop i ent w ss cur)"
  using assms
proof (induction i ent w ss cur arbitrary: c rule: episodes_loop.induct)
  case (1 i ent w cur)
  then show ?case by (simp split: option.splits)
next
  case (2 i ent w s ss cur)
  have c: "sg_From s = c" "c < sg_To s" "chain (wn_End w) (sg_To s) ss" using "2.prems"(1) by auto
  have n: "open_ok (sg_To s) None" by (simp add: open_ok_def)
  show ?case
  proof (cases "Classify (sg_State s) = ClassDown")
    case True
    have "open_ok (sg_To s) (Some (deepen s (case cur of None \<Rightarrow> openEpisode i ent s | Some e \<Rightarrow> e)))"
      using "2.prems"(2) c by (auto simp: open_ok_def split: option.splits)
    then show ?thesis using "2.IH"(1) [OF True c(3)] True by simp
  next
    case False
    show ?thesis
    proof (cases cur)
      case None
      then show ?thesis using "2.IH"(2) [OF False None c(3) n] False by simp
    next
      case (Some e0)
      have "sg_From s < ep_StartedAt f" if "f \<in> set (episodes_loop i ent w ss None)" for f
        using episodes_from [OF c(3) n that] c by (simp add: open_from_def)
      then show ?thesis using "2.IH"(3) [OF False Some c(3) n] False Some by (simp add: ep_end_def)
    qed
  qed
qed

definition in_episode :: "Window \<Rightarrow> gtime \<Rightarrow> Episode list \<Rightarrow> bool" where
  "in_episode w t es \<longleftrightarrow> (\<exists>e\<in>set es. ep_StartedAt e \<le> t \<and> t < ep_end w e)"

lemma episodes_cover:
  assumes "chain (wn_End w) c ss" "open_ok c cur" "open_from c cur \<le> t" "t < wn_End w"
  shows "in_episode w t (episodes_loop i ent w ss cur) \<longleftrightarrow> t < c \<or> down_at t ss"
  using assms
proof (induction i ent w ss cur arbitrary: c rule: episodes_loop.induct)
  case (1 i ent w cur)
  then show ?case by (auto simp: open_defs ep_end_def in_episode_def down_at_def split: option.splits)
next
  case (2 i ent w s ss cur)
  have c: "sg_From s = c" "c < sg_To s" "chain (wn_End w) (sg_To s) ss" using "2.prems"(1) by auto
  have n: "open_ok (sg_To s) None" by (simp add: open_ok_def)
  have d: "down_at t (s # ss) \<longleftrightarrow> c \<le> t \<and> t < sg_To s \<and> Classify (sg_State s) = ClassDown \<or> down_at t ss"
    using c(1) by (auto simp: down_at_def)
  have later: "sg_To s \<le> t" if "down_at t ss" using that chain_from [OF c(3)] by (force simp: down_at_def)
  show ?case
  proof (cases "Classify (sg_State s) = ClassDown")
    case True
    let ?e = "Some (deepen s (case cur of None \<Rightarrow> openEpisode i ent s | Some e \<Rightarrow> e))"
    have "open_ok (sg_To s) ?e" "open_from (sg_To s) ?e \<le> t"
      using "2.prems"(2,3) c by (auto simp: open_defs split: option.splits)
    then have "in_episode w t (episodes_loop i ent w ss ?e) \<longleftrightarrow> t < sg_To s \<or> down_at t ss"
      using "2.IH"(1) [OF True c(3)] "2.prems"(4) by blast
    then show ?thesis using True c(2) d by auto
  next
    case False
    have rest: "in_episode w t (episodes_loop i ent w ss None) \<longleftrightarrow> down_at t ss"
      if "\<And>c'. chain (wn_End w) c' ss \<Longrightarrow> open_ok c' None \<Longrightarrow> open_from c' None \<le> t \<Longrightarrow>
        in_episode w t (episodes_loop i ent w ss None) \<longleftrightarrow> t < c' \<or> down_at t ss"
    proof (cases "sg_To s \<le> t")
      case True
      then show ?thesis using that [OF c(3) n] by (simp add: open_from_def)
    next
      case False
      then show ?thesis
        using later episodes_from [OF c(3) n] by (force simp: in_episode_def open_from_def)
    qed
    show ?thesis
    proof (cases cur)
      case None
      have "in_episode w t (episodes_loop i ent w ss None) \<longleftrightarrow> down_at t ss"
        by (rule rest) (use "2.IH"(2) [OF False None] "2.prems"(4) in blast)
      then show ?thesis using False None "2.prems"(3) d by (simp add: open_from_def)
    next
      case (Some e0)
      have r: "in_episode w t (episodes_loop i ent w ss None) \<longleftrightarrow> down_at t ss"
        by (rule rest) (use "2.IH"(3) [OF False Some] "2.prems"(4) in blast)
      have "in_episode w t (closeEpisode e0 (sg_From s) ent # es) \<longleftrightarrow> t < c \<or> in_episode w t es" for es
        using "2.prems"(3) Some c(1) by (simp add: in_episode_def ep_end_def open_from_def)
      then show ?thesis using False Some d r by simp
    qed
  qed
qed

definition class_sum :: "Class \<Rightarrow> Segment list \<Rightarrow> int" where
  "class_sum k ss = sum_list (map (\<lambda>s. sg_To s - sg_From s) (filter (\<lambda>s. Classify (sg_State s) = k) ss))"

lemma episodes_sum:
  assumes "chain (wn_End w) c ss" "open_ok c cur"
  shows "sum_list (map (\<lambda>e. ep_end w e - ep_StartedAt e) (episodes_loop i ent w ss cur)) = c - open_from c cur + class_sum ClassDown ss"
  using assms
proof (induction i ent w ss cur arbitrary: c rule: episodes_loop.induct)
  case (1 i ent w cur)
  then show ?case by (auto simp: open_defs ep_end_def class_sum_def split: option.splits)
next
  case (2 i ent w s ss cur)
  have c: "sg_From s = c" "c < sg_To s" "chain (wn_End w) (sg_To s) ss" using "2.prems"(1) by auto
  have n: "open_ok (sg_To s) None" by (simp add: open_ok_def)
  show ?case
  proof (cases "Classify (sg_State s) = ClassDown")
    case True
    then show ?thesis using "2.IH"(1) [OF True c(3)] "2.prems"(2) c by (auto simp: open_defs class_sum_def split: option.splits)
  next
    case False
    show ?thesis
    proof (cases cur)
      case None
      then show ?thesis using "2.IH"(2) [OF False None c(3) n] False by (simp add: class_sum_def open_from_def)
    next
      case (Some e0)
      then show ?thesis using "2.IH"(3) [OF False Some c(3) n] False c(1) by (simp add: class_sum_def open_from_def ep_end_def)
    qed
  qed
qed

text \<open>Within the range of a \<^verbatim>\<open>time.Duration\<close> the accumulated times are exact.\<close>

lemma class_sum_bounds: "chain stop c ss \<Longrightarrow> 0 \<le> class_sum k ss \<and> class_sum k ss \<le> stop - c"
  by (induction stop c ss rule: chain.induct) (auto simp: class_sum_def)

lemma class_sums_disjoint: "chain stop c ss \<Longrightarrow> k \<noteq> k' \<Longrightarrow> class_sum k ss + class_sum k' ss \<le> stop - c"
  by (induction stop c ss rule: chain.induct) (auto simp: class_sum_def)

lemma add64_exact: "0 \<le> a \<Longrightarrow> 0 \<le> b \<Longrightarrow> a + b < 2 ^ 63 \<Longrightarrow> add64 a b = a + b"
  by (simp add: add64_def)

lemma class_time_fold:
  assumes "chain stop c ss" "0 \<le> a" "a + (stop - c) < 2 ^ 63"
  shows "fold (\<lambda>s t. if Classify (sg_State s) = k then add64 t (Segment_Duration s) else t) ss a = a + class_sum k ss"
  using assms
proof (induction stop c ss arbitrary: a rule: chain.induct)
  case (2 stop c s ss)
  have d: "Segment_Duration s = sg_To s - sg_From s" "add64 a (sg_To s - sg_From s) = a + (sg_To s - sg_From s)"
    using 2 chain_le [of stop "sg_To s" ss] by (simp_all add: Segment_Duration_def Time_Sub_def add64_exact)
  show ?case using 2 d chain_le [of stop "sg_To s" ss] by (simp add: class_sum_def)
qed (simp add: class_sum_def)

lemma class_time_exact:
  assumes "chain stop c ss" "stop - c < 2 ^ 63"
  shows "class_time k ss = class_sum k ss"
  using class_time_fold [OF assms(1), of 0 k] assms(2) by (simp add: class_time_def)

section \<open>Properties of reports\<close>

lemma report_fields:
  assumes "wn_Start w < wn_End w"
  shows "sr_Episodes (BuildServerReport w i) =
      episodes_loop i (entering (connectionTransitions w (in_Transitions i))) w (report_segments w i) None"
    "sr_DownSeconds (BuildServerReport w i) = trunc_int (Seconds (class_time ClassDown (report_segments w i)))"
    "sr_ObservedSeconds (BuildServerReport w i) =
      trunc_int (Seconds (add64 (class_time ClassUp (report_segments w i)) (class_time ClassDown (report_segments w i))))"
    "sr_Days (BuildServerReport w i) = buildDays w (report_segments w i)"
  using assms by (simp_all add: BuildServerReport_def buildEpisodes_def report_segments_def Let_def)

lemma start_window: "segments_start w i < wn_End w \<Longrightarrow> wn_Start w < wn_End w"
  by (auto simp: segments_start_def split: if_splits)

lemma segment_state_at:
  assumes "segments_start w i < wn_End w" "s \<in> set (report_segments w i)" "sg_From s \<le> t" "t < sg_To s"
  shows "sg_State s = state_at w i t" "segments_start w i \<le> t" "t < wn_End w"
proof -
  note c = report_chain [OF assms(1)]
  show t: "segments_start w i \<le> t" "t < wn_End w" using chain_from [OF c assms(2)] assms(3,4) by auto
  show "sg_State s = state_at w i t" using timeline_faithful [OF t] chain_unique [OF c assms(2) _ assms(3,4)] by metis
qed

text \<open>
  C32: the episodes of a report are the outages of the timeline.  An instant of the observed window lies
  in an episode exactly when the last transition up to it left the server stale, offline or revoked;
  episodes are in order and apart from each other, and only one that reaches the end of the window is
  ongoing.
\<close>

theorem outages_exact:
  assumes "segments_start w i < wn_End w"
  shows "(\<forall>t. segments_start w i \<le> t \<longrightarrow> t < wn_End w \<longrightarrow>
      ((\<exists>e\<in>set (sr_Episodes (BuildServerReport w i)). ep_StartedAt e \<le> t \<and> t < ep_end w e) \<longleftrightarrow>
       Classify (state_at w i t) = ClassDown)) \<and>
    sorted_wrt (\<lambda>e f. ep_end w e < ep_StartedAt f) (sr_Episodes (BuildServerReport w i)) \<and>
    (\<forall>e\<in>set (sr_Episodes (BuildServerReport w i)).
       segments_start w i \<le> ep_StartedAt e \<and> ep_StartedAt e < ep_end w e \<and> ep_end w e \<le> wn_End w \<and>
       (ep_Ongoing e \<longleftrightarrow> ep_EndedAt e = None))"
proof -
  note c = report_chain [OF assms]
  have o: "open_ok (segments_start w i) None" "open_from (segments_start w i) None = segments_start w i"
    by (simp_all add: open_defs)
  have "down_at t (report_segments w i) \<longleftrightarrow> Classify (state_at w i t) = ClassDown"
    if t: "segments_start w i \<le> t" "t < wn_End w" for t
    using timeline_faithful [OF t] segment_state_at(1) [OF assms] unfolding down_at_def by metis
  then show ?thesis
    unfolding report_fields(1) [OF start_window [OF assms]]
    using episodes_cover [OF c o(1), unfolded in_episode_def] episodes_separate [OF c o(1)] episodes_from [OF c o(1)] by (simp add: o(2))
qed

text \<open>
  C34: downtime is accounted once.  The downtime of a report is the total length of its episodes, and
  it is at most the observed time, which is at most the length of the observed window.
\<close>

theorem downtime_accounted:
  assumes "segments_start w i < wn_End w" "wn_End w - wn_Start w < 2 ^ 63"
  shows "\<exists>down observed. down = sum_list (map (\<lambda>e. ep_end w e - ep_StartedAt e) (sr_Episodes (BuildServerReport w i))) \<and>
    sr_DownSeconds (BuildServerReport w i) = trunc_int (Seconds down) \<and>
    sr_ObservedSeconds (BuildServerReport w i) = trunc_int (Seconds observed) \<and>
    0 \<le> down \<and> down \<le> observed \<and> observed \<le> wn_End w - segments_start w i"
proof -
  note c = report_chain [OF assms(1)]
  have o: "open_ok (segments_start w i) None" "open_from (segments_start w i) None = segments_start w i"
    by (simp_all add: open_defs)
  have "wn_Start w \<le> segments_start w i" by (simp add: segments_start_def)
  then have l: "wn_End w - segments_start w i < 2 ^ 63" using assms(2) by simp
  note e = class_time_exact [OF c l] and b = class_sum_bounds [OF c]
  have s: "sum_list (map (\<lambda>e. ep_end w e - ep_StartedAt e) (sr_Episodes (BuildServerReport w i))) =
      class_sum ClassDown (report_segments w i)"
    unfolding report_fields(1) [OF start_window [OF assms(1)]] episodes_sum [OF c o(1)] o(2)
    by (simp add: class_sum_def)
  have u: "class_sum ClassUp (report_segments w i) + class_sum ClassDown (report_segments w i) \<le> wn_End w - segments_start w i"
    by (rule class_sums_disjoint [OF c]) simp
  then have a: "add64 (class_sum ClassUp (report_segments w i)) (class_sum ClassDown (report_segments w i)) =
      class_sum ClassUp (report_segments w i) + class_sum ClassDown (report_segments w i)"
    using l b by (intro add64_exact) auto
  show ?thesis
    unfolding s report_fields(2,3) [OF start_window [OF assms(1)]] e a using u b by (auto simp del: of_int_add)
qed

section \<open>Days show the worst state\<close>

lemma day_pos: "0 < day" by (simp add: day_def hour_def minute_def second_def)

lemma days_until_iff: "x \<in> set (days_until d stop) \<longleftrightarrow> (\<exists>k. x = d + int k * day) \<and> x < stop"
proof (induction d stop rule: days_until.induct)
  case (1 d stop)
  show ?case
  proof (cases "d < stop")
    case True
    have "(\<exists>k. x = d + int k * day) \<longleftrightarrow> x = d \<or> (\<exists>k. x = d + day + int k * day)"
      (is "?l \<longleftrightarrow> ?r")
    proof
      assume ?l
      then obtain k where k: "x = d + int k * day" ..
      show ?r using k by (cases k) (auto simp: algebra_simps)
    next
      assume ?r
      then show ?l
      proof
        assume "\<exists>k. x = d + day + int k * day"
        then obtain k where "x = d + day + int k * day" ..
        then have "x = d + int (Suc k) * day" by (simp add: algebra_simps)
        then show ?l ..
      qed (rule exI [of _ 0], simp)
    qed
    then show ?thesis using 1 [OF True] True by (subst days_until.simps) auto
  next
    case False
    have "0 \<le> int k * day" for k using day_pos by simp
    then have "\<not> d + int k * day < stop" for k using False by (simp add: not_less add_increasing2)
    then have "\<not> ((\<exists>k. x = d + int k * day) \<and> x < stop)" by blast
    then show ?thesis using False by (simp add: days_until.simps)
  qed
qed

lemma severity_nonneg: "0 \<le> severity s" "severity [] = 0"
  by (simp_all add: severity_def Let_def ToLower_def ConnectionConnected_def ConnectionDegraded_def ConnectionStale_def
      ConnectionOffline_def ConnectionRevoked_def)

text \<open>The loops over the segments and their days as one list of marks.\<close>

definition marks :: "Segment list \<Rightarrow> (string \<times> gtime) list" where
  "marks ss = concat (map (\<lambda>s. map (Pair (sg_State s)) (days_until (Truncate (sg_From s) day) (sg_To s))) ss)"

lemma worst_days_marks: "worst_days ss = fold (\<lambda>(state, d). mark_day state d) (marks ss) fmempty"
proof -
  have "fold (mark_day state) ds m = fold (\<lambda>(state, d). mark_day state d) (map (Pair state) ds) m" for state ds m
    by (simp add: fold_map comp_def)
  then have "fold (\<lambda>s. fold (mark_day (sg_State s)) (days_until (Truncate (sg_From s) day) (sg_To s))) ss m =
      fold (\<lambda>(state, d). mark_day state d) (marks ss) m" for m
    by (induction ss arbitrary: m) (simp_all add: marks_def)
  then show ?thesis by (simp add: worst_days_def)
qed

lemma worst_upd [simp]:
  "worst_state fmempty key = []" "worst_state (fmupd k v m) key = (if key = k then v else worst_state m key)"
  by (simp_all add: worst_state_def)

lemma worst_mark:
  "worst_state (mark_day state d m) key =
     (if key = format_day d \<and> severity state > severity (worst_state m key) then state else worst_state m key)"
  by (auto simp: mark_day_def Let_def)

lemma marks_worst:
  assumes "(state, d) \<in> set ps" "format_day d = key"
  shows "severity state \<le> severity (worst_state (fold (\<lambda>(state, d). mark_day state d) ps fmempty) key)"
  using assms by (induction ps rule: rev_induct) (auto simp: worst_mark)

lemma worst_marked:
  "worst_state (fold (\<lambda>(state, d). mark_day state d) ps fmempty) key \<noteq> [] \<Longrightarrow>
   \<exists>d. (worst_state (fold (\<lambda>(state, d). mark_day state d) ps fmempty) key, d) \<in> set ps \<and> format_day d = key"
proof (induction ps rule: rev_induct)
  case (snoc p ps)
  obtain state d where p: "p = (state, d)" by (cases p)
  let ?m = "fold (\<lambda>(state, d). mark_day state d) ps fmempty"
  show ?case
  proof (cases "key = format_day d \<and> severity state > severity (worst_state ?m key)")
    case True
    then show ?thesis by (auto simp: p worst_mark)
  next
    case False
    then have "worst_state (mark_day state d ?m) key = worst_state ?m key" unfolding worst_mark by (rule if_not_P)
    then show ?thesis using snoc by (auto simp: p)
  qed
qed simp

text \<open>The text of a date determines the day.\<close>

lemma num_acc_digits_nat: "num_acc 0 (digits_nat n) = Some n"
proof (induction n rule: digits_nat.induct)
  case (1 n)
  have d: "dval (char_of (48 + k)) = Some k" if "k < 10" for k :: nat using dval_dchar [OF that] by (simp add: dchar_def)
  show ?case
  proof (cases "n < 10")
    case False
    then show ?thesis using 1 d [of "n mod 10"] by (subst digits_nat.simps) (simp add: num_acc_append)
  qed (subst digits_nat.simps, simp add: d)
qed

lemma year_text_inj:
  assumes "year_text (int a) = year_text (int b)"
  shows "a = b"
proof -
  have "num_acc 0 (year_text (int n)) = Some n" for n
    using num_acc_digs [of n 4 0] num_acc_digits_nat [of n] by (simp add: year_text_def)
  then show ?thesis using assms by (metis option.inject)
qed

lemma format_day_inj:
  assumes "format_day a = format_day b" "0 \<le> a" "0 \<le> b"
  shows "a div day = b div day"
proof -
  obtain y m d where c: "civil (nat (a div day)) = (y, m, d)" by (cases "civil (nat (a div day))") auto
  obtain y' m' d' where c': "civil (nat (b div day)) = (y', m', d')" by (cases "civil (nat (b div day))") auto
  have nn: "0 \<le> a div day" "0 \<le> b div day" using assms(2,3) day_pos by (simp_all add: pos_imp_zdiv_nonneg_iff)
  have "year_text (int y) @ ''-'' @ digs 2 m @ ''-'' @ digs 2 d = year_text (int y') @ ''-'' @ digs 2 m' @ ''-'' @ digs 2 d'"
    using assms(1) nn by (simp add: format_day_def c c')
  then have e: "year_text (int y) = year_text (int y')" "digs 2 m = digs 2 m'" "digs 2 d = digs 2 d'"
    by (simp_all add: append_eq_append_conv del: digs.simps)
  note i = civil_inverse [OF c] and i' = civil_inverse [OF c']
  have "d < 100" if "1 \<le> m" "m \<le> 12" "d \<le> month_lengths lp ! (m - 1)" for m d lp
    using month_length_le [of "m - 1" lp] that by linarith
  then have b: "d < 100" "d' < 100" "m < 100" "m' < 100" using i(3,4,6) i'(3,4,6) by auto
  have "m = m'" using num_acc_digs2 [OF b(3)] num_acc_digs2 [OF b(4)] unfolding e(2) by simp
  moreover have "d = d'" using num_acc_digs2 [OF b(1)] num_acc_digs2 [OF b(2)] unfolding e(3) by simp
  ultimately have "nat (a div day) = nat (b div day)" using i(1) i'(1) year_text_inj [OF e(1)] by simp
  then show ?thesis using nn by simp
qed

lemma day_of:
  assumes "d mod day = 0"
  shows "d \<le> t \<and> t < d + day \<longleftrightarrow> Truncate t day = d"
proof
  assume "d \<le> t \<and> t < d + day"
  moreover have "(t - d) mod day = t mod day" using assms by (metis diff_zero mod_diff_right_eq)
  ultimately show "Truncate t day = d" using mod_pos_pos_trivial [of "t - d" day] by (simp add: Truncate_def)
next
  assume "Truncate t day = d"
  then show "d \<le> t \<and> t < d + day" using day_pos pos_mod_bound [of day t] pos_mod_sign [of day t] by (auto simp: Truncate_def)
qed

lemma Truncate_day: "Truncate t day mod day = 0" "format_day (Truncate t day) = format_day t"
  "t \<le> u \<Longrightarrow> \<exists>k. Truncate u day = Truncate t day + int k * day"
proof -
  have q: "Truncate t day = t div day * day" for t by (simp add: Truncate_def minus_mod_eq_div_mult)
  show "Truncate t day mod day = 0" by (simp add: q)
  show "format_day (Truncate t day) = format_day t" using day_pos by (simp add: q format_day_def)
  assume "t \<le> u"
  then have "t div day \<le> u div day" using day_pos by (simp add: zdiv_mono1)
  then have "Truncate u day = Truncate t day + int (nat (u div day - t div day)) * day" by (simp add: q algebra_simps)
  then show "\<exists>k. Truncate u day = Truncate t day + int k * day" ..
qed

text \<open>A segment marks a day exactly when it has an instant of the day.\<close>

lemma marks_iff:
  assumes "d mod day = 0"
  shows "(state, d) \<in> set (marks ss) \<longleftrightarrow>
    (\<exists>s\<in>set ss. sg_State s = state \<and> d < sg_To s \<and> Truncate (sg_From s) day \<le> d)"
proof -
  have "(\<exists>k. d = Truncate u day + int k * day) \<longleftrightarrow> Truncate u day \<le> d" for u
  proof
    assume "Truncate u day \<le> d"
    moreover have "Truncate (Truncate u day) day = Truncate u day" "Truncate d day = d"
      using assms Truncate_day(1) by (simp_all add: Truncate_def)
    ultimately show "\<exists>k. d = Truncate u day + int k * day" using Truncate_day(3) by metis
  qed (use day_pos in auto)
  then have "d \<in> set (days_until (Truncate u day) v) \<longleftrightarrow> Truncate u day \<le> d \<and> d < v" for u v by (simp add: days_until_iff)
  then show ?thesis unfolding marks_def by force
qed

lemma marks_aligned: "(state, d) \<in> set (marks ss) \<Longrightarrow> d mod day = 0"
  using Truncate_day(1) by (auto simp: marks_def days_until_iff)

lemma marked_instants:
  assumes "segments_start w i < wn_End w" "d mod day = 0"
  shows "(state, d) \<in> set (marks (report_segments w i)) \<longleftrightarrow>
    (\<exists>t. segments_start w i \<le> t \<and> t < wn_End w \<and> d \<le> t \<and> t < d + day \<and> state_at w i t = state)"
    (is "?l \<longleftrightarrow> ?r")
proof
  assume ?l
  then obtain s where s: "s \<in> set (report_segments w i)" "sg_State s = state" "d < sg_To s" "Truncate (sg_From s) day \<le> d"
    using marks_iff [OF assms(2)] by blast
  have f: "sg_From s < Truncate (sg_From s) day + day" using day_of [OF Truncate_day(1)] by blast
  let ?t = "max d (sg_From s)"
  have "sg_From s < sg_To s" using chain_from [OF report_chain [OF assms(1)] s(1)] by simp
  then have "sg_From s \<le> ?t" "?t < sg_To s" "d \<le> ?t" "?t < d + day" using s(3,4) f day_pos by auto
  then show ?r using segment_state_at [OF assms(1) s(1)] s(2) by metis
next
  assume ?r
  then obtain t where t: "segments_start w i \<le> t" "t < wn_End w" "d \<le> t" "t < d + day" "state_at w i t = state" by blast
  obtain s where s: "s \<in> set (report_segments w i)" "sg_From s \<le> t" "t < sg_To s" "sg_State s = state_at w i t"
    using timeline_faithful [OF t(1,2)] by blast
  have "Truncate t day = d" using day_of [OF assms(2)] t(3,4) by blast
  moreover obtain k where "Truncate t day = Truncate (sg_From s) day + int k * day" using Truncate_day(3) [OF s(2)] ..
  moreover have "0 \<le> int k * day" using day_pos by simp
  ultimately have "Truncate (sg_From s) day \<le> d" by linarith
  then show ?l using marks_iff [OF assms(2)] s t(3,5) by force
qed

lemma marks_nonneg:
  assumes "0 \<le> wn_Start w" "segments_start w i < wn_End w" "(state, d) \<in> set (marks (report_segments w i))"
  shows "0 \<le> d"
proof -
  have "wn_Start w \<le> segments_start w i" by (simp add: segments_start_def)
  moreover obtain t where "segments_start w i \<le> t" "t < d + day" "d \<le> t"
    using marked_instants [OF assms(2) marks_aligned [OF assms(3)]] assms(3) by blast
  ultimately have "0 \<le> t" "Truncate t day = d" using assms(1) day_of [OF marks_aligned [OF assms(3)]] by auto
  then show ?thesis using day_pos by (auto simp: Truncate_def minus_mod_eq_div_mult pos_imp_zdiv_nonneg_iff)
qed

definition report_day_starts :: "Window \<Rightarrow> gtime list" where
  "report_day_starts w = days_until (Truncate (wn_Start w) day) (wn_End w + 1)"

lemma report_days:
  assumes "wn_Start w < wn_End w"
  shows "sr_Days (BuildServerReport w i) =
    map (\<lambda>d. \<lparr>db_Day = format_day d, db_State = worst_state (worst_days (report_segments w i)) (format_day d)\<rparr>)
      (report_day_starts w)"
  using report_fields(4) [OF assms] by (simp add: buildDays_def report_day_starts_def)

text \<open>
  C33: a day of a report shows the worst state of that day.  Every instant of the window has a bucket
  with its date; no state at an observed instant of the day is worse than the one of the bucket, and a
  bucket that is not empty shows the state of such an instant.
\<close>

theorem days_show_worst:
  assumes "0 \<le> wn_Start w" "segments_start w i < wn_End w"
  shows "(\<forall>t. wn_Start w \<le> t \<and> t \<le> wn_End w \<longrightarrow> format_day t \<in> db_Day ` set (sr_Days (BuildServerReport w i))) \<and>
    (\<forall>b\<in>set (sr_Days (BuildServerReport w i)). \<exists>d. db_Day b = format_day d \<and> d mod day = 0 \<and>
       (\<forall>t. segments_start w i \<le> t \<and> t < wn_End w \<and> d \<le> t \<and> t < d + day \<longrightarrow>
          severity (state_at w i t) \<le> severity (db_State b)) \<and>
       (db_State b = [] \<or>
        (\<exists>t. segments_start w i \<le> t \<and> t < wn_End w \<and> d \<le> t \<and> t < d + day \<and> state_at w i t = db_State b)))"
proof (intro conjI allI ballI impI)
  note R = report_days [OF start_window [OF assms(2)]]
  fix t assume t: "wn_Start w \<le> t \<and> t \<le> wn_End w"
  have "Truncate t day \<le> t" using day_of [OF Truncate_day(1)] by blast
  then have "Truncate t day \<in> set (report_day_starts w)" using Truncate_day(3) [of "wn_Start w" t] t by (simp add: report_day_starts_def days_until_iff)
  then have "format_day (Truncate t day) \<in> db_Day ` set (sr_Days (BuildServerReport w i))" unfolding R by force
  then show "format_day t \<in> db_Day ` set (sr_Days (BuildServerReport w i))" by (simp add: Truncate_day(2))
next
  note R = report_days [OF start_window [OF assms(2)]]
  fix b assume "b \<in> set (sr_Days (BuildServerReport w i))"
  then obtain d where d: "d \<in> set (report_day_starts w)"
    "b = \<lparr>db_Day = format_day d, db_State = worst_state (worst_days (report_segments w i)) (format_day d)\<rparr>" unfolding R by auto
  obtain k where k: "d = Truncate (wn_Start w) day + int k * day" using d(1) by (auto simp: report_day_starts_def days_until_iff)
  then have a: "d mod day = 0" using Truncate_day(1) by simp
  have "0 \<le> Truncate (wn_Start w) day" using assms(1) day_pos by (simp add: Truncate_def minus_mod_eq_div_mult pos_imp_zdiv_nonneg_iff)
  then have p: "0 \<le> d" using k day_pos by simp
  have same: "e = d" if "(state, e) \<in> set (marks (report_segments w i))" "format_day e = format_day d" for state e
  proof -
    have "e div day = d div day" using format_day_inj [OF that(2) marks_nonneg [OF assms that(1)] p] .
    then show ?thesis using a marks_aligned [OF that(1)] by (metis div_mult_mod_eq)
  qed
  note m = marked_instants [OF assms(2) a]
  have "severity (state_at w i t) \<le> severity (db_State b)"
    if "segments_start w i \<le> t \<and> t < wn_End w \<and> d \<le> t \<and> t < d + day" for t
    using marks_worst [of "state_at w i t" d "marks (report_segments w i)"] m that d(2) by (auto simp: worst_days_marks)
  moreover have "\<exists>t. segments_start w i \<le> t \<and> t < wn_End w \<and> d \<le> t \<and> t < d + day \<and> state_at w i t = db_State b"
    if "db_State b \<noteq> []"
    using worst_marked [of "marks (report_segments w i)" "format_day d"] that same m d(2) by (force simp: worst_days_marks)
  ultimately show "\<exists>d. db_Day b = format_day d \<and> d mod day = 0 \<and>
       (\<forall>t. segments_start w i \<le> t \<and> t < wn_End w \<and> d \<le> t \<and> t < d + day \<longrightarrow>
          severity (state_at w i t) \<le> severity (db_State b)) \<and>
       (db_State b = [] \<or>
        (\<exists>t. segments_start w i \<le> t \<and> t < wn_End w \<and> d \<le> t \<and> t < d + day \<and> state_at w i t = db_State b))"
    using a d(2) by (intro exI [of _ d]) auto
qed

section \<open>The fleet\<close>

definition cause_of :: "Episode list \<Rightarrow> string \<Rightarrow> CauseTotal" where
  "cause_of es r =
     \<lparr>ct_ReasonCode = r, ct_Seconds = sum_list (map ep_Seconds (filter (\<lambda>e. episode_reason e = r) es)),
      ct_Episodes = int (length (filter (\<lambda>e. episode_reason e = r) es))\<rparr>"

lemma causes_fold:
  "fmlookup (fold add_cause es fmempty) r = (if r \<in> episode_reason ` set es then Some (cause_of es r) else None)"
proof (induction es rule: rev_induct)
  case (snoc e es)
  have z: "cause_of es (episode_reason e) = \<lparr>ct_ReasonCode = episode_reason e, ct_Seconds = 0, ct_Episodes = 0\<rparr>"
    if "episode_reason e \<notin> episode_reason ` set es"
  proof -
    have "filter (\<lambda>x. episode_reason x = episode_reason e) es = []" unfolding filter_empty_conv using that by (metis imageI)
    then show ?thesis by (simp add: cause_of_def)
  qed
  show ?case
  proof (cases "r = episode_reason e")
    case True
    then show ?thesis
      using snoc z by (cases "r \<in> episode_reason ` set es") (simp_all add: add_cause_def Let_def cause_of_def)
  next
    case False
    then have "cause_of (es @ [e]) r = cause_of es r" by (simp add: cause_of_def)
    then show ?thesis using snoc False by (simp add: add_cause_def Let_def)
  qed
qed simp

text \<open>
  The causes of a fleet report partition its episodes: there is one total for each reason that opened
  an episode, with the seconds and the number of these episodes, the longest first.
\<close>

theorem causes_partition_episodes:
  fixes w inputs
  defines "es \<equiv> concat (map sr_Episodes (fr_Servers (BuildFleetReport w inputs)))"
  shows "set (fr_ByCause (BuildFleetReport w inputs)) = cause_of es ` episode_reason ` set es \<and>
    sorted_wrt (\<lambda>c d. ct_Seconds c \<ge> ct_Seconds d) (fr_ByCause (BuildFleetReport w inputs))"
proof
  let ?m = "fold add_cause es fmempty"
  have b: "fr_ByCause (BuildFleetReport w inputs) = sort_key (\<lambda>c. (- ct_Seconds c, ct_ReasonCode c)) (map_values ?m)"
    by (simp add: BuildFleetReport_def Let_def es_def)
  show "set (fr_ByCause (BuildFleetReport w inputs)) = cause_of es ` episode_reason ` set es"
    unfolding b set_sort by (fastforce simp: set_map_values causes_fold split: if_splits)
  have "sorted (map (\<lambda>c. (- ct_Seconds c, ct_ReasonCode c)) (fr_ByCause (BuildFleetReport w inputs)))" by (simp add: b)
  then show "sorted_wrt (\<lambda>c d. ct_Seconds c \<ge> ct_Seconds d) (fr_ByCause (BuildFleetReport w inputs))"
    unfolding sorted_map by (rule sorted_wrt_mono_rel [rotated]) (auto simp: less_eq_prod_def)
qed

section \<open>Instances\<close>

text \<open>A server that is offline for ten nanoseconds of a day.\<close>

definition demo_window :: Window where
  "demo_window = \<lparr>wn_Start = 5, wn_End = 90\<rparr>"

definition demo_transition :: "gtime \<Rightarrow> string \<Rightarrow> string \<Rightarrow> Transition" where
  "demo_transition t a b = \<lparr>tr_ID = t, tr_Dimension = ''connection'', tr_FromState = a, tr_ToState = b,
     tr_ReasonCode = ''r'', tr_Source = ''s'', tr_ObservedAt = t, tr_Evidence = None\<rparr>"

definition demo_input :: Input where
  "demo_input = \<lparr>in_ServerID = ''s1'', in_Name = ''n'', in_EnrolledAt = 6, in_CurrentState = ''connected'',
     in_Transitions = [demo_transition 30 ''offline'' ''connected'', demo_transition 20 ''connected'' ''offline'']\<rparr>"

lemma demo_timeline:
  "segments_start demo_window demo_input = 6" "wn_Start demo_window = 5" "wn_End demo_window = 90"
  "Classify (state_at demo_window demo_input 25) = ClassDown"
  by code_simp+

theorem outages_exact_witness:
  "\<exists>e\<in>set (sr_Episodes (BuildServerReport demo_window demo_input)). ep_StartedAt e \<le> 25 \<and> 25 < ep_end demo_window e"
  using outages_exact [of demo_window demo_input] by (simp add: demo_timeline)

theorem downtime_accounted_witness:
  "\<exists>down observed.
    down = sum_list (map (\<lambda>e. ep_end demo_window e - ep_StartedAt e) (sr_Episodes (BuildServerReport demo_window demo_input))) \<and>
    sr_DownSeconds (BuildServerReport demo_window demo_input) = trunc_int (Seconds down) \<and>
    sr_ObservedSeconds (BuildServerReport demo_window demo_input) = trunc_int (Seconds observed) \<and>
    0 \<le> down \<and> down \<le> observed \<and> observed \<le> 84"
  using downtime_accounted [of demo_window demo_input] by (simp add: demo_timeline)

theorem days_show_worst_witness:
  "\<exists>b\<in>set (sr_Days (BuildServerReport demo_window demo_input)). \<exists>d. db_Day b = format_day 25 \<and> db_Day b = format_day d \<and>
    d mod day = 0 \<and>
    (db_State b = [] \<or> (\<exists>t. 6 \<le> t \<and> t < 90 \<and> d \<le> t \<and> t < d + day \<and> state_at demo_window demo_input t = db_State b))"
proof -
  have h: "0 \<le> wn_Start demo_window" "segments_start demo_window demo_input < wn_End demo_window"
    by (simp_all add: demo_timeline)
  note D = days_show_worst [OF h]
  have "format_day 25 \<in> db_Day ` set (sr_Days (BuildServerReport demo_window demo_input))"
    using D by (simp add: demo_timeline)
  then obtain b where b: "b \<in> set (sr_Days (BuildServerReport demo_window demo_input))" "db_Day b = format_day 25" by force
  then show ?thesis using conjunct2 [OF D, rule_format, OF b(1)] unfolding demo_timeline by metis
qed

end
