(* ===== verification/Spec2Isabelle.thy ===== *)
theory Spec2Isabelle
  imports Journal_Properties Job_Cancel Job_Functional Job_Upkeep Job_Progress Port_Properties Port_Listeners Port_Teardown Port_Observation Lease_Properties Availability_Properties
begin

text \<open>
  A verification development of the kombify TechStack repository: the control plane that plans and
  runs rollouts of software stacks on servers, and the Guard agent that executes its commands there.

  \<^bold>\<open>The parts and how they interact.\<close>  A rollout is a job.  The asynchronous job queue
  (\<^verbatim>\<open>src/pkg/jobs\<close>) keeps jobs in memory, hands them to a pool of workers, serialises the jobs of one
  target, claims each execution with the durable store, retries, waits and resumes, and records
  the outcome of a job as a structured decision (\<^verbatim>\<open>src/pkg/outcome\<close>).  Before a rollout changes a
  server it reserves the host ports its listeners need with the port inventory
  (\<^verbatim>\<open>src/internal/portinventory\<close>).  The server itself is held under a lease of the lease authority
  (\<^verbatim>\<open>src/pkg/vmleases\<close>), which binds a decommission to one generation of the resource.  The
  commands of a job reach the Guard agent of a server, which journals every mutating command durably
  before it executes it (\<^verbatim>\<open>src/pkg/agent/journal\<close>), so that a command is not executed twice when the
  agent crashes.  The recorded changes of a server's connection are reported as its availability
  (\<^verbatim>\<open>src/pkg/availability\<close>).

  \<^bold>\<open>Theories and source.\<close>

  \<^item> \<^verbatim>\<open>TS_Prelude\<close>: Go's scalars, byte order, CRC-32C and string functions as the code uses them,
  finite maps, and the locale \<^verbatim>\<open>invariant_system\<close> of systems with an invariant.
  \<^verbatim>\<open>Go_JSON\<close>, \<^verbatim>\<open>Go_Time\<close>, \<^verbatim>\<open>Go_Float\<close>, \<^verbatim>\<open>Go_Netip\<close>, \<^verbatim>\<open>Go_SHA256\<close>: the parts of Go's standard library
  the components call, with their round trips (text of a JSON value, of a time, of an IP address).

  \<^item> Guard journal.  \<^verbatim>\<open>Journal_Types\<close> is \<^verbatim>\<open>journal/types.go\<close>; \<^verbatim>\<open>Journal_Codec\<close> the JSON form of
  a record; \<^verbatim>\<open>Journal_Log\<close> the framing, \<^verbatim>\<open>apply\<close> and \<^verbatim>\<open>replay\<close> of \<^verbatim>\<open>journal/store.go\<close>;
  \<^verbatim>\<open>Journal_Store\<close> the file system, \<^verbatim>\<open>openRoot\<close>, \<^verbatim>\<open>load\<close>, \<^verbatim>\<open>appendLocked\<close>,
  \<^verbatim>\<open>compactLocked\<close> and every exported operation.  The state is the \<^verbatim>\<open>Store\<close> struct with the files
  of its directory; an operation takes the results of its system calls (\<open>io\<close>) as an argument, so each
  of them may fail at any point.  \<^verbatim>\<open>Journal_Compaction\<close> specifies what compaction must leave and
  proves that it does; \<^verbatim>\<open>Journal_Safety\<close> relates the memory to the bytes of the log and
  interleaves operations with crashes and reopenings; \<^verbatim>\<open>Journal_Properties\<close> states the properties.

  \<^item> Job queue.  \<^verbatim>\<open>Job_Errors\<close> is the error types, classification and delays of
  \<^verbatim>\<open>jobs/errors.go\<close>, \<^verbatim>\<open>execution_defer.go\<close> and what they read of \<^verbatim>\<open>stackkit_advanced.go\<close> and
  \<^verbatim>\<open>stackkit_failure.go\<close>; \<^verbatim>\<open>Outcome\<close> is \<^verbatim>\<open>outcome/decision.go\<close>; \<^verbatim>\<open>Job_Model\<close> the \<^verbatim>\<open>Job\<close> struct
  and its sections under the job's mutex (\<^verbatim>\<open>queue.go\<close>, \<^verbatim>\<open>snapshot.go\<close>); \<^verbatim>\<open>Job_Outcome\<close> is
  \<^verbatim>\<open>job_outcome.go\<close>; \<^verbatim>\<open>Job_Queue\<close> the queue with all its operations; \<^verbatim>\<open>Job_System\<close> the goroutines
  as a step relation.  \<^verbatim>\<open>Job_Invariant\<close> and \<^verbatim>\<open>Job_Safety\<close> prove the invariant of every reachable
  state (the interpretation \<open>jobs\<close> of \<^verbatim>\<open>invariant_system\<close>); \<^verbatim>\<open>Job_Properties\<close>, \<^verbatim>\<open>Job_Cancel\<close>,
  \<^verbatim>\<open>Job_Functional\<close>, \<^verbatim>\<open>Job_Upkeep\<close> and \<^verbatim>\<open>Job_Progress\<close> state the properties.

  \<^item> Port inventory.  \<^verbatim>\<open>Port_Types\<close> is \<^verbatim>\<open>portinventory/types.go\<close> with the normalization, keys and
  digests of \<^verbatim>\<open>memory.go\<close>; \<^verbatim>\<open>Port_Inventory\<close> the memory authority; \<^verbatim>\<open>Port_Teardown\<close> is
  \<^verbatim>\<open>teardown.go\<close>; \<^verbatim>\<open>Port_Observation\<close> is \<^verbatim>\<open>observation.go\<close> and \<^verbatim>\<open>baseline.go\<close>.
  \<^verbatim>\<open>Port_Safety\<close> proves the invariant of the authority (the interpretation \<open>ports\<close>), and
  \<^verbatim>\<open>Port_Properties\<close> and \<^verbatim>\<open>Port_Listeners\<close> state the properties.

  \<^item> VM leases.  \<^verbatim>\<open>Lease_Store\<close> is the lease of \<^verbatim>\<open>runtimeproduct/vmlease/types.go\<close>, the
  generations of \<^verbatim>\<open>vmleases/resource_generation.go\<close> and \<^verbatim>\<open>memory_store.go\<close>; \<^verbatim>\<open>Lease_Service\<close> is
  \<^verbatim>\<open>service.go\<close>, \<^verbatim>\<open>ssh_host_key.go\<close>, \<^verbatim>\<open>operation_journal.go\<close>, \<^verbatim>\<open>execution_authority.go\<close> and
  \<^verbatim>\<open>inventory.go\<close>, with the callers as a step relation.  \<^verbatim>\<open>Lease_Safety\<close> proves the invariant of the
  store (the interpretation \<open>leases\<close>) and \<^verbatim>\<open>Lease_Properties\<close> states the properties.

  \<^item> Availability.  \<^verbatim>\<open>Availability\<close> is \<^verbatim>\<open>src/pkg/availability\<close>, the fold of the recorded transitions of
  a server into a report, and \<^verbatim>\<open>Availability_Properties\<close> compares the report with a direct reading of
  the timeline.

  \<^bold>\<open>What the lemmas show.\<close>

  \<^item> Journal: a dispatch that was durable is never repeated while its authority lasts, over any run
  with failures, crashes and reopenings; a record reported as written is found by every later process;
  a failed or cut off append is wholly there or wholly absent; a journal that cannot be read refuses
  every write and leaves the files alone; compaction keeps exactly the unsettled commands, the
  unexpired tombstones and the highest generation; a handoff erases a tenant's evidence.

  \<^item> Queue: executions are exclusive per job and per target and happen only under a granted claim; a
  running job has a worker; an ended or detached job does not run again; the token of a target is
  always given back; a worker's pass over a job ends and workers never block one another for good;
  an error of a handler leads to the state, delay and outcome its class prescribes; published
  outcomes are valid and carry no secret-named member; cleanup and alerts keep their bounds.

  \<^item> Ports: overlapping listeners of different stacks are never both admitted, unless they share
  a virtual host; a claim keeps its listener until its generation is released; admission can be
  repeated and does not depend on the iteration order of Go's maps; generations follow their
  lifecycle; a teardown snapshot is valid exactly when it was sealed; a rollout passes the host
  baseline exactly when the evidence is current and no foreign listener is in the way.

  \<^item> Leases: a stored lease is never removed and keeps its tenant, generation, cancellation, claim and
  host key, however the reads and writes of patches interleave; a claimed generation keeps the digest
  it was claimed under; a claim on a live lease is recorded; a tenant neither sees nor changes the
  leases of another; repeating a creation returns the stored lease.

  \<^item> Availability: the episodes of a report are exactly the outages of the timeline, downtime is their
  total length, a day shows the worst state of its observed instants, and the causes of a fleet
  partition its episodes.

  Four theorems state what the code does where it falls short: a failed directory sync in compaction
  loses later writes, a cancellation that arrives between two sections of a worker strands a
  waiting job, a spelling of the wildcard address escapes the overlap check, and a decommission claim
  that comes with a second cancellation is not written.

  \<^bold>\<open>Granularity and bounds.\<close>  Operations of the journal and of the port authority hold one mutex from
  start to end, so each is one function on the state; so do those of the lease store, and a patch of
  the lease service is a read and a later write.  A step of the queue is one section under a
  mutex, one channel operation or one call of outside code, and any thread may take the next step.
  Handlers, the execution claimer and the snapshot syncer are not under \<^verbatim>\<open>src/pkg/jobs\<close>'s control: a
  step takes their result as an input and every result is possible.  Times are integers of
  nanoseconds and an argument of the operations that read the clock.  No definition uses fuel: the
  loops are structural or have a termination proof.  Of the bounds, 14 is the number of a worker's
  steps from taking a job to being idle again, and 1000 is the capacity of the pending channel in
  \<^verbatim>\<open>NewQueue\<close>.  Identifiers of the port inventory are truncated SHA-256 digests; the theorems that rely on
  them being distinct for the requests in play say so (\<^verbatim>\<open>distinct_reservations\<close>,
  \<^verbatim>\<open>distinct_claims\<close>).

  \<^bold>\<open>Not modelled.\<close>  The PostgreSQL authorities and ledgers (every operation is a statement whose guarantees
  are the database's), HTTP and gRPC handlers and middleware, clients of providers and other
  external services, the code that runs processes on a host, cryptographic protocols over
  library primitives, and the command-line programs.  Of the port inventory, the JSON decoding of a
  stored teardown snapshot and the SQL side are left out; of the leases, the PostgreSQL store, the
  admission of native provisioning and the projection on the runtime contract; of the job package, the handlers and the
  StackKit lifecycle, which drive external processes.  Log output is left out where it is not part
  of a job.  White space and letter case follow the ASCII rules of \<^verbatim>\<open>strings\<close>; other Unicode
  letters are left as they are.
\<close>

end
